(* ===== verification/Json.thy ===== *)
theory Json
  imports Prelude
begin

text \<open>
  JSON values as the Python code sees them (\<open>pydantic.JsonValue\<close>): booleans, integers and
  floats are distinct constructors, objects are dictionaries in insertion order. This theory also
  holds the operations several components share: the type-strict equality and the defensive copy
  of \<^verbatim>\<open>acc_runtime/execution/executor.py\<close>, the canonical encoding of
  \<^verbatim>\<open>acc_runtime/actions/models.py\<close>, and JSON Pointer tokens. Floats are the finite
  rationals, negative zero and the non-finite values; the decimal rendering of a finite float
  (\<open>float.__repr__\<close>) is the argument \<open>fr\<close> of the encoders.
\<close>

section \<open>Values\<close>

datatype pyfloat = Finite rat | NegZero | PosInf | NegInf | NaN

datatype json =
    JNull
  | JBool bool
  | JInt int
  | JFloat pyfloat
  | JStr string
  | JArr "json list"
  | JObj "(string \<times> json) list"

fun is_JObj :: "json \<Rightarrow> bool" where
  "is_JObj (JObj _) = True"
| "is_JObj _ = False"

text \<open>Every object has distinct keys, as every Python dictionary has.\<close>

fun json_ok :: "json \<Rightarrow> bool" where
  "json_ok (JArr xs) = (\<forall>x \<in> set xs. json_ok x)"
| "json_ok (JObj fs) = (distinct (map fst fs) \<and> (\<forall>p \<in> set fs. json_ok (snd p)))"
| "json_ok _ = True"

text \<open>No float is NaN or infinite.\<close>

fun float_finite :: "pyfloat \<Rightarrow> bool" where
  "float_finite (Finite _) = True"
| "float_finite NegZero = True"
| "float_finite _ = False"

fun json_finite :: "json \<Rightarrow> bool" where
  "json_finite (JFloat f) = float_finite f"
| "json_finite (JArr xs) = (\<forall>x \<in> set xs. json_finite x)"
| "json_finite (JObj fs) = (\<forall>p \<in> set fs. json_finite (snd p))"
| "json_finite _ = True"

text \<open>Python truth value testing, \<open>bool(v)\<close>.\<close>

fun truthy :: "json \<Rightarrow> bool" where
  "truthy JNull = False"
| "truthy (JBool b) = b"
| "truthy (JInt i) = (i \<noteq> 0)"
| "truthy (JFloat f) = (f \<noteq> Finite 0 \<and> f \<noteq> NegZero)"
| "truthy (JStr s) = (s \<noteq> [])"
| "truthy (JArr xs) = (xs \<noteq> [])"
| "truthy (JObj fs) = (fs \<noteq> [])"

text \<open>\<open>v.get(k)\<close> on a value known to be an object; \<open>None\<close> when it is not one.\<close>

fun jget :: "json \<Rightarrow> string \<Rightarrow> json option" where
  "jget (JObj fs) k = dget fs k"
| "jget _ k = None"

text \<open>\<open>value.get(k)\<close> with Python's \<open>None\<close> for a missing key.\<close>

definition get_or_null :: "(string, json) dict \<Rightarrow> string \<Rightarrow> json" where
  "get_or_null fs k = (case dget fs k of None \<Rightarrow> JNull | Some v \<Rightarrow> v)"

lemma json_size_arr: "x \<in> set xs \<Longrightarrow> size x < size (JArr xs)"
  by (induction xs) auto

lemma json_size_obj: "p \<in> set fs \<Longrightarrow> size (snd p) < size (JObj fs)"
  by (induction fs) auto

lemma json_size_field: "dget fs k = Some v \<Longrightarrow> size v < size (JObj fs)"
  using json_size_obj dget_in_set by fastforce

lemma json_size_list_field: "dget fs k = Some (JArr xs) \<Longrightarrow> size_list size xs < size (JObj fs)"
  using json_size_field [of fs k "JArr xs"] by simp

lemma json_size_nested_list:
  "dget fs k = Some (JObj gs) \<Longrightarrow> dget gs l = Some (JArr xs) \<Longrightarrow> size_list size xs < size (JObj fs)"
  using json_size_field [of fs k "JObj gs"] json_size_list_field [of gs l xs] by simp

lemma json_size_child:
  "dget fs k = Some (JArr xs) \<Longrightarrow> x \<in> set xs \<Longrightarrow> size_list size [x] < size (JObj fs)"
  using json_size_field [of fs k "JArr xs"] json_size_arr [of x xs] by simp

section \<open>Numbers\<close>

text \<open>Exact comparison of Python numbers: \<open>int\<close> against \<open>float\<close> compares values.\<close>

fun float_eq :: "pyfloat \<Rightarrow> pyfloat \<Rightarrow> bool" where
  "float_eq NaN _ = False"
| "float_eq _ NaN = False"
| "float_eq NegZero (Finite q) = (q = 0)"
| "float_eq (Finite q) NegZero = (q = 0)"
| "float_eq f g = (f = g)"

fun num_of :: "json \<Rightarrow> pyfloat option" where
  "num_of (JInt i) = Some (Finite (of_int i))"
| "num_of (JFloat f) = Some f"
| "num_of _ = None"

fun float_norm :: "pyfloat \<Rightarrow> pyfloat" where
  "float_norm NegZero = Finite 0"
| "float_norm f = f"

lemma float_eq_norm: "float_eq f g \<longleftrightarrow> f \<noteq> NaN \<and> g \<noteq> NaN \<and> float_norm f = float_norm g"
  by (cases f; cases g) auto

section \<open>Type-strict equality\<close>

fun json_equal :: "json \<Rightarrow> json \<Rightarrow> bool"
  and json_equal_list :: "json list \<Rightarrow> json list \<Rightarrow> bool"
  and json_equal_fields :: "(string \<times> json) list \<Rightarrow> (string \<times> json) list \<Rightarrow> bool" where
  "json_equal (JBool a) r = (case r of JBool b \<Rightarrow> a = b | _ \<Rightarrow> False)"
| "json_equal (JInt i) r =
     (case r of JInt j \<Rightarrow> i = j | JFloat g \<Rightarrow> float_eq (Finite (of_int i)) g | _ \<Rightarrow> False)"
| "json_equal (JFloat f) r =
     (case r of JInt j \<Rightarrow> float_eq f (Finite (of_int j)) | JFloat g \<Rightarrow> float_eq f g | _ \<Rightarrow> False)"
| "json_equal (JArr xs) r = (case r of JArr ys \<Rightarrow> json_equal_list xs ys | _ \<Rightarrow> False)"
| "json_equal (JObj fs) r =
     (case r of JObj gs \<Rightarrow> set (dkeys fs) = set (dkeys gs) \<and> json_equal_fields fs gs | _ \<Rightarrow> False)"
| "json_equal (JStr s) r = (case r of JStr t \<Rightarrow> s = t | _ \<Rightarrow> False)"
| "json_equal JNull r = (r = JNull)"
| "json_equal_list [] ys = (ys = [])"
| "json_equal_list (x # xs) ys =
     (case ys of [] \<Rightarrow> False | y # ys' \<Rightarrow> json_equal x y \<and> json_equal_list xs ys')"
| "json_equal_fields [] gs = True"
| "json_equal_fields ((k, v) # fs) gs =
     ((case dget gs k of None \<Rightarrow> False | Some w \<Rightarrow> json_equal v w) \<and> json_equal_fields fs gs)"

lemma json_equal_list_iff: "json_equal_list xs ys \<longleftrightarrow> list_all2 json_equal xs ys"
  by (induction xs arbitrary: ys) (auto split: list.splits simp: list_all2_Cons1)

lemma json_equal_fields_iff:
  "json_equal_fields fs gs \<longleftrightarrow>
     (\<forall>p \<in> set fs. \<exists>w. dget gs (fst p) = Some w \<and> json_equal (snd p) w)"
  by (induction fs) (auto split: option.splits)

text \<open>
  The value an equality class stands for: floats that are whole numbers and integers coincide,
  objects forget the order of their keys. It is the specification \<open>json_equal\<close> refines.
\<close>

datatype canon =
    CNull
  | CBool bool
  | CNum pyfloat
  | CStr string
  | CArr "canon list"
  | CObj "string \<Rightarrow> canon option"

fun canon_of :: "json \<Rightarrow> canon"
  and canon_fields :: "(string \<times> json) list \<Rightarrow> string \<Rightarrow> canon option" where
  "canon_of JNull = CNull"
| "canon_of (JBool b) = CBool b"
| "canon_of (JInt i) = CNum (Finite (of_int i))"
| "canon_of (JFloat f) = CNum (float_norm f)"
| "canon_of (JStr s) = CStr s"
| "canon_of (JArr xs) = CArr (map canon_of xs)"
| "canon_of (JObj fs) = CObj (canon_fields fs)"
| "canon_fields [] = Map.empty"
| "canon_fields ((k, v) # fs) = (canon_fields fs)(k \<mapsto> canon_of v)"

lemma canon_fields_dget: "canon_fields fs k = map_option canon_of (dget fs k)"
  by (induction fs) auto

lemma json_equal_canon:
  "json_ok l \<Longrightarrow> json_ok r \<Longrightarrow> json_finite l \<Longrightarrow> json_equal l r \<longleftrightarrow> canon_of l = canon_of r"
proof (induction "size l" arbitrary: l r rule: less_induct)
  case less
  show ?case
  proof (cases l)
    case (JArr xs)
    have IH: "json_equal x y \<longleftrightarrow> canon_of x = canon_of y"
      if "x \<in> set xs" "json_ok y" for x y
      using less that JArr json_size_arr [of x xs] by auto
    show ?thesis
    proof (cases r)
      case (JArr ys)
      have "list_all2 json_equal xs ys \<longleftrightarrow> list_all2 (\<lambda>x y. canon_of x = canon_of y) xs ys"
        using less.prems(2) JArr IH by (auto simp: list_all2_conv_all_nth)
      then show ?thesis
        using JArr \<open>l = JArr xs\<close>
        by (auto simp: json_equal_list_iff list_all2_conv_all_nth list_eq_iff_nth_eq)
    qed (auto simp: JArr)
  next
    case (JObj fs)
    have IH: "json_equal (snd p) w \<longleftrightarrow> canon_of (snd p) = canon_of w"
      if "p \<in> set fs" "json_ok w" for p w
      using less that JObj json_size_obj [of p fs] by auto
    show ?thesis
    proof (cases r)
      case (JObj gs)
      have ok: "json_ok w" if "dget gs k = Some w" for k w
        using less.prems(2) JObj dget_in_set [OF that] by auto
      have fs_ok: "dict_ok fs" using less.prems(1) \<open>l = JObj fs\<close> by (simp add: dict_ok_def)
      have "json_equal l r \<longleftrightarrow> set (dkeys fs) = set (dkeys gs) \<and>
          (\<forall>p \<in> set fs. \<exists>w. dget gs (fst p) = Some w \<and> canon_of (snd p) = canon_of w)"
        using JObj \<open>l = JObj fs\<close> IH ok by (auto simp: json_equal_fields_iff)
      also have "\<dots> \<longleftrightarrow> canon_fields fs = canon_fields gs" (is "?A \<longleftrightarrow> ?B")
      proof
        assume A: ?A
        show ?B
        proof
          fix k
          show "canon_fields fs k = canon_fields gs k"
          proof (cases "dget fs k")
            case None
            then have "dget gs k = None" using A by (auto simp: dget_None_iff dkeys_def)
            with None show ?thesis by (simp add: canon_fields_dget)
          next
            case (Some v)
            from A dget_in_set [OF Some] obtain w where "dget gs k = Some w" "canon_of v = canon_of w"
              by force
            with Some show ?thesis by (simp add: canon_fields_dget)
          qed
        qed
      next
        assume B: ?B
        have E: "map_option canon_of (dget fs k) = map_option canon_of (dget gs k)" for k
          using B by (simp add: canon_fields_dget fun_eq_iff)
        have "set (dkeys fs) = set (dkeys gs)"
        proof -
          have "k \<notin> fst ` set fs \<longleftrightarrow> k \<notin> fst ` set gs" for k
            using E [of k] by (metis dget_None_iff map_option_is_None)
          then show ?thesis unfolding dkeys_def set_map by blast
        qed
        moreover have "\<exists>w. dget gs (fst p) = Some w \<and> canon_of (snd p) = canon_of w"
          if "p \<in> set fs" for p
          using E [of "fst p"] in_set_dget [OF fs_ok, of "fst p" "snd p"] that
          by (cases "dget gs (fst p)") auto
        ultimately show ?A by blast
      qed
      finally show ?thesis using JObj \<open>l = JObj fs\<close> by simp
    qed (auto simp: JObj)
  next
    case (JFloat f)
    then show ?thesis using less.prems(3)
      by (cases r; cases f) (auto simp: float_eq_norm)
  qed (cases r; auto simp: float_eq_norm)+
qed

section \<open>Canonical encoding\<close>

text \<open>
  \<open>json.dumps(v, ensure_ascii=False, allow_nan=False, sort_keys=True, separators=(",", ":"))\<close>:
  \<open>None\<close> when it raises (a non-finite float), else the text as code points.
\<close>

fun digit_char :: "nat \<Rightarrow> char" where
  "digit_char n = char_of (48 + n)"

fun nat_text :: "nat \<Rightarrow> string" where
  "nat_text n = (if n < 10 then [digit_char n] else nat_text (n div 10) @ [digit_char (n mod 10)])"

declare nat_text.simps [simp del]

definition int_text :: "int \<Rightarrow> string" where
  "int_text i = (if i < 0 then CHR ''-'' # nat_text (nat (- i)) else nat_text (nat i))"

definition hex_digit :: "nat \<Rightarrow> char" where
  "hex_digit n = (if n < 10 then char_of (48 + n) else char_of (87 + n))"

definition escape_char :: "char \<Rightarrow> string" where
  "escape_char c = (let n = of_char c :: nat in
     if n = 34 then [CHR 0x5C, c]
     else if n = 92 then [CHR 0x5C, c]
     else if n = 8 then [CHR 0x5C, CHR ''b'']
     else if n = 12 then [CHR 0x5C, CHR ''f'']
     else if n = 10 then [CHR 0x5C, CHR ''n'']
     else if n = 13 then [CHR 0x5C, CHR ''r'']
     else if n = 9 then [CHR 0x5C, CHR ''t'']
     else if n < 32 then [CHR 0x5C, CHR ''u'', CHR ''0'', CHR ''0'', hex_digit (n div 16), hex_digit (n mod 16)]
     else [c])"

definition str_text :: "string \<Rightarrow> string" where
  "str_text s = CHR 0x22 # concat (map escape_char s) @ [CHR 0x22]"

text \<open>Items of a dictionary in key order.\<close>

definition sorted_items :: "(string \<times> 'a) list \<Rightarrow> (string \<times> 'a) list" where
  "sorted_items fs = sort_key fst fs"

lemma set_sorted_items [simp]: "set (sorted_items fs) = set fs"
  by (simp add: sorted_items_def)

lemma length_sorted_items [simp]: "length (sorted_items fs) = length fs"
  by (simp add: sorted_items_def)

lemma distinct_sorted_items [simp]: "distinct (map fst (sorted_items fs)) = distinct (map fst fs)"
  by (simp add: sorted_items_def distinct_map)

lemma dict_ok_sorted_items [simp]: "dict_ok (sorted_items fs) = dict_ok fs"
  by (simp add: dict_ok_def)

lemma dget_sorted_items: "dict_ok fs \<Longrightarrow> dget (sorted_items fs) k = dget fs k"
  unfolding dget_def dict_ok_def
  by (rule map_of_inject_set [THEN iffD2, THEN fun_cong]) simp_all

fun items_text :: "string list \<Rightarrow> string" where
  "items_text [] = []"
| "items_text [w] = w"
| "items_text (w # ws) = w @ CHR '','' # items_text ws"

fun json_text :: "(rat \<Rightarrow> string) \<Rightarrow> json \<Rightarrow> string option" where
  "json_text fr JNull = Some ''null''"
| "json_text fr (JBool b) = Some (if b then ''true'' else ''false'')"
| "json_text fr (JInt i) = Some (int_text i)"
| "json_text fr (JFloat f) =
     (case f of Finite q \<Rightarrow> Some (fr q) | NegZero \<Rightarrow> Some ''-0.0'' | _ \<Rightarrow> None)"
| "json_text fr (JStr s) = Some (str_text s)"
| "json_text fr (JArr xs) =
     (let ts = map (json_text fr) xs in
      if None \<in> set ts then None
      else Some (CHR ''['' # items_text (map the ts) @ '']''))"
| "json_text fr (JObj fs) =
     (let ts = map (\<lambda>p. (fst p, json_text fr (snd p))) fs in
      if None \<in> snd ` set ts then None
      else Some (CHR ''{'' # items_text (map (\<lambda>(k, t). str_text k @ CHR '':'' # the t) (sorted_items ts)) @ ''}''))"

text \<open>UTF-8 encoding of code points below U+0100.\<close>

definition utf8 :: "string \<Rightarrow> string" where
  "utf8 s = concat (map (\<lambda>c. let n = of_char c :: nat in
     if n < 128 then [c] else [char_of (192 + n div 64), char_of (128 + n mod 64)]) s)"

lemma json_text_None_iff: "json_text fr v = None \<longleftrightarrow> \<not> json_finite v"
proof (induction v)
  case (JFloat f)
  then show ?case by (cases f) auto
next
  case (JObj fs)
  then show ?case by (force simp: Let_def image_iff snds.simps)
next
  case (JArr xs)
  then show ?case by (simp add: Let_def image_iff) metis
qed auto

text \<open>
  \<open>json.loads\<close> after \<open>json.dumps\<close> with sorted keys: the same value with every object's
  keys in order.
\<close>

fun sort_keys :: "json \<Rightarrow> json" where
  "sort_keys (JArr xs) = JArr (map sort_keys xs)"
| "sort_keys (JObj fs) = JObj (sorted_items (map (\<lambda>p. (fst p, sort_keys (snd p))) fs))"
| "sort_keys v = v"

definition canonical_copy :: "json \<Rightarrow> json option" where
  "canonical_copy v = (if json_finite v then Some (sort_keys v) else None)"

lemma sorted_items_idem [simp]: "sorted_items (sorted_items fs) = sorted_items fs"
  unfolding sorted_items_def by (rule sort_key_id_if_sorted) simp

lemma sorted_items_map: "(\<And>p. fst (f p) = fst p) \<Longrightarrow> sorted_items (map f fs) = map f (sorted_items fs)"
proof -
  assume f: "\<And>p. fst (f p) = fst p"
  have "insort_key fst (f x) (map f ys) = map f (insort_key fst x ys)" for x ys
    by (induction ys) (auto simp: f)
  then show "sorted_items (map f fs) = map f (sorted_items fs)"
    unfolding sorted_items_def sort_key_def by (induction fs) auto
qed

text \<open>The canonical encoding does not depend on the order of the keys.\<close>

lemma json_text_sort_keys: "json_text fr (sort_keys v) = json_text fr v"
proof (induction v)
  case (JArr xs)
  then have "map (json_text fr) (map sort_keys xs) = map (json_text fr) xs" by simp
  then show ?case by (simp del: map_map)
next
  case (JObj fs)
  let ?t = "\<lambda>p. (fst p, json_text fr (snd p))" and ?s = "\<lambda>p. (fst p, sort_keys (snd p))"
  have "map ?t (map ?s fs) = map ?t fs"
    using JObj by (auto simp: snds.simps)
  moreover have "map ?t (sorted_items (map ?s fs)) = sorted_items (map ?t (map ?s fs))"
    by (simp add: sorted_items_map)
  ultimately show ?case
    by (simp add: Let_def del: map_map)
qed simp_all

lemma sort_keys_idem [simp]: "sort_keys (sort_keys v) = sort_keys v"
proof (induction v)
  case (JObj fs)
  let ?s = "\<lambda>p. (fst p, sort_keys (snd p))"
  have "map ?s (map ?s fs) = map ?s fs" using JObj by (auto simp: snds.simps)
  moreover have "map ?s (sorted_items (map ?s fs)) = sorted_items (map ?s (map ?s fs))"
    by (simp add: sorted_items_map)
  ultimately show ?case by (simp del: map_map)
qed simp_all

lemma json_finite_sort_keys [simp]: "json_finite (sort_keys v) = json_finite v"
  by (metis json_text_None_iff json_text_sort_keys)

section \<open>Digests\<close>

text \<open>
  The standard library's \<open>hashlib.sha256(b).hexdigest()\<close>, \<open>hmac.new(salt, b,
  sha256).hexdigest()\<close> and \<open>float.__repr__\<close>, passed to every definition that uses them.
\<close>

record crypto =
  sha256_hex :: "string \<Rightarrow> string"
  hmac_hex :: "string \<Rightarrow> string \<Rightarrow> string"
  float_repr :: "rat \<Rightarrow> string"

text \<open>\<open>^[0-9a-f]{64}$\<close>\<close>

definition is_digest :: "string \<Rightarrow> bool" where
  "is_digest s \<longleftrightarrow> length s = 64 \<and> list_all is_lower_hex s"

text \<open>What the library documents: both functions return 64 lowercase hexadecimal digits.\<close>

definition crypto_ok :: "crypto \<Rightarrow> bool" where
  "crypto_ok cr \<longleftrightarrow> (\<forall>b. is_digest (sha256_hex cr b)) \<and> (\<forall>k b. is_digest (hmac_hex cr k b))"

text \<open>An instance of the parameter, for closed examples.\<close>

definition demo_crypto :: crypto where
  "demo_crypto = \<lparr>sha256_hex = (\<lambda>b. replicate 63 (CHR ''0'') @ [if length b mod 2 = 0 then CHR ''a'' else CHR ''b'']),
     hmac_hex = (\<lambda>k b. replicate 63 (CHR ''1'') @ [if length b mod 2 = 0 then CHR ''a'' else CHR ''b'']),
     float_repr = (\<lambda>q. ''0.5'')\<rparr>"

lemma demo_crypto_ok: "crypto_ok demo_crypto"
  by (auto simp: crypto_ok_def demo_crypto_def is_digest_def is_lower_hex_def is_ascii_digit_def
      less_eq_char_def list_all_iff)

text \<open>\<open>hashlib.sha256(canonical_json_bytes(v)).hexdigest()\<close>; \<open>None\<close> when the encoding raises.\<close>

definition json_digest :: "crypto \<Rightarrow> json \<Rightarrow> string option" where
  "json_digest cr v = map_option (\<lambda>t. sha256_hex cr (utf8 t)) (json_text (float_repr cr) v)"

section \<open>Python equality\<close>

text \<open>
  \<open>a == b\<close> on finite JSON values: like \<open>json_equal\<close>, but \<open>bool\<close> is a subclass of
  \<open>int\<close>, so \<open>True == 1\<close> and \<open>False == 0\<close>.
\<close>

fun bool_as_int :: "json \<Rightarrow> json" where
  "bool_as_int (JBool b) = JInt (if b then 1 else 0)"
| "bool_as_int (JArr xs) = JArr (map bool_as_int xs)"
| "bool_as_int (JObj fs) = JObj (map (\<lambda>p. (fst p, bool_as_int (snd p))) fs)"
| "bool_as_int v = v"

definition py_equal :: "json \<Rightarrow> json \<Rightarrow> bool" where
  "py_equal a b = json_equal (bool_as_int a) (bool_as_int b)"

section \<open>JSON Pointer tokens\<close>

definition pointer_token :: "string \<Rightarrow> string" where
  "pointer_token v = replace1 (CHR ''/'') ''~1'' (replace1 (CHR ''~'') ''~0'' v)"

definition unescape_token :: "string \<Rightarrow> string" where
  "unescape_token s = replace2 (CHR ''~'') (CHR ''0'') (CHR ''~'') (replace2 (CHR ''~'') (CHR ''1'') (CHR ''/'') s)"

end
