(* ===== verification/Deployment.thy ===== *)
theory Deployment
  imports Prelude
begin

text \<open>
  \<^verbatim>\<open>acc_runtime/deployment.py\<close>: the operator-owned ceiling against which every
  capability is checked. A decision never changes the policy; it lists every reason for a denial
  in a fixed order. Effects and risks arrive as strings and are checked against the closed sets.
\<close>

section \<open>Effects and risks\<close>

text \<open>
  The literals of \<open>Effect\<close>, in alphabetical order of their names so that the derived
  order is the order \<open>sorted\<close> gives the strings.
\<close>

datatype effect = Create | Delete | Execute | Read | Transition | Update

fun effect_rank :: "effect \<Rightarrow> nat" where
  "effect_rank Create = 0"
| "effect_rank Delete = 1"
| "effect_rank Execute = 2"
| "effect_rank Read = 3"
| "effect_rank Transition = 4"
| "effect_rank Update = 5"

fun effect_name :: "effect \<Rightarrow> string" where
  "effect_name Create = ''create''"
| "effect_name Delete = ''delete''"
| "effect_name Execute = ''execute''"
| "effect_name Read = ''read''"
| "effect_name Transition = ''transition''"
| "effect_name Update = ''update''"

lemma effect_rank_inject: "effect_rank a = effect_rank b \<Longrightarrow> a = b"
  by (cases a; cases b) auto

instantiation effect :: linorder
begin

definition less_eq_effect :: "effect \<Rightarrow> effect \<Rightarrow> bool" where
  "less_eq_effect a b = (effect_rank a \<le> effect_rank b)"

definition less_effect :: "effect \<Rightarrow> effect \<Rightarrow> bool" where
  "less_effect a b = (effect_rank a < effect_rank b)"

instance
  by standard (auto simp: less_eq_effect_def less_effect_def intro: effect_rank_inject)

end

lemma effect_name_mono: "a < b \<longleftrightarrow> effect_name a < effect_name b"
  by (cases a; cases b) (auto simp: less_effect_def less_char_def)

lemma effect_name_inject: "effect_name a = effect_name b \<longleftrightarrow> a = b"
  by (cases a; cases b) auto

definition effect_of_name :: "string \<Rightarrow> effect option" where
  "effect_of_name s =
     (if s = ''read'' then Some Read
      else if s = ''create'' then Some Create
      else if s = ''update'' then Some Update
      else if s = ''delete'' then Some Delete
      else if s = ''transition'' then Some Transition
      else if s = ''execute'' then Some Execute
      else None)"

lemma effect_of_name_name [simp]: "effect_of_name (effect_name e) = Some e"
  by (cases e) (auto simp: effect_of_name_def)

lemma effect_of_name_Some: "effect_of_name s = Some e \<longleftrightarrow> s = effect_name e"
  by (cases e) (auto simp: effect_of_name_def split: if_splits)

datatype risk = Low | Medium | High | Critical

fun risk_rank :: "risk \<Rightarrow> nat" where
  "risk_rank Low = 0"
| "risk_rank Medium = 1"
| "risk_rank High = 2"
| "risk_rank Critical = 3"

lemma risk_rank_inject: "risk_rank a = risk_rank b \<Longrightarrow> a = b"
  by (cases a; cases b) auto

instantiation risk :: linorder
begin

definition less_eq_risk :: "risk \<Rightarrow> risk \<Rightarrow> bool" where
  "less_eq_risk a b = (risk_rank a \<le> risk_rank b)"

definition less_risk :: "risk \<Rightarrow> risk \<Rightarrow> bool" where
  "less_risk a b = (risk_rank a < risk_rank b)"

instance
  by standard (auto simp: less_eq_risk_def less_risk_def intro: risk_rank_inject)

end

definition risk_of_name :: "string \<Rightarrow> risk option" where
  "risk_of_name s =
     (if s = ''low'' then Some Low
      else if s = ''medium'' then Some Medium
      else if s = ''high'' then Some High
      else if s = ''critical'' then Some Critical
      else None)"

section \<open>The policy\<close>

datatype audit_mode = AuditRequired | AuditBestEffort

datatype sandbox_mode = SandboxDisabled | SandboxLocalDevelopment

record deployment_policy =
  allowed_effects :: "effect set"
  max_risk :: risk
  capability_allowlist :: "string set option"
  require_durable_action_store :: bool
  action_audit_mode :: audit_mode
  action_sandbox_mode :: sandbox_mode

definition default_policy :: deployment_policy where
  "default_policy =
     \<lparr>allowed_effects = {Read}, max_risk = Low, capability_allowlist = None,
      require_durable_action_store = True, action_audit_mode = AuditRequired,
      action_sandbox_mode = SandboxDisabled\<rparr>"

text \<open>\<open>_exact_identifier\<close>: nonempty, no surrounding whitespace, no control character.\<close>

definition deploy_identifier :: "string \<Rightarrow> py_error + string" where
  "deploy_identifier v =
     (if v = [] \<or> v \<noteq> strip v then Inl ValueError
      else if list_ex is_control v then Inl ValueError
      else Inr v)"

text \<open>\<open>_effect_set\<close>: every effect must be supported.\<close>

definition effect_set :: "string list \<Rightarrow> bool \<Rightarrow> py_error + effect set" where
  "effect_set effects require_nonempty =
     rbind (traverse (\<lambda>e. case effect_of_name e of None \<Rightarrow> Inl ValueError | Some x \<Rightarrow> Inr x) effects)
       (\<lambda>normalized.
          if require_nonempty \<and> normalized = [] then Inl ValueError else Inr (set normalized))"

definition checked_risk :: "string \<Rightarrow> py_error + risk" where
  "checked_risk v = (case risk_of_name v of None \<Rightarrow> Inl ValueError | Some r \<Rightarrow> Inr r)"

datatype denial_reason = EffectNotAllowed | RiskExceedsMaximum | CapabilityNotAllowed

record deployment_decision =
  decision_allowed :: bool
  decision_reasons :: "denial_reason list"
  missing_effects :: "effect list"
  decided_capability :: string
  required_effects :: "effect list"
  decided_risk :: risk

text \<open>
  \<open>DeploymentPolicy.evaluate\<close>: \<open>denial_reasons\<close> is the list it accumulates,
  \<open>decide\<close> the decision it returns once the three arguments are checked.
\<close>

definition denial_reasons :: "deployment_policy \<Rightarrow> string \<Rightarrow> effect set \<Rightarrow> risk \<Rightarrow> denial_reason list" where
  "denial_reasons p cid required r =
     (if required - allowed_effects p \<noteq> {} then [EffectNotAllowed] else [])
     @ (if risk_rank (max_risk p) < risk_rank r then [RiskExceedsMaximum] else [])
     @ (case capability_allowlist p of
          None \<Rightarrow> []
        | Some ids \<Rightarrow> if cid \<notin> ids then [CapabilityNotAllowed] else [])"

definition decide :: "deployment_policy \<Rightarrow> string \<Rightarrow> effect set \<Rightarrow> risk \<Rightarrow> deployment_decision" where
  "decide p cid required r =
     \<lparr>decision_allowed = (denial_reasons p cid required r = []),
      decision_reasons = denial_reasons p cid required r,
      missing_effects = sorted_list_of_set (required - allowed_effects p),
      decided_capability = cid,
      required_effects = sorted_list_of_set required,
      decided_risk = r\<rparr>"

definition evaluate ::
    "deployment_policy \<Rightarrow> string \<Rightarrow> string list \<Rightarrow> string \<Rightarrow> py_error + deployment_decision" where
  "evaluate p capability_id effects risk_name =
     rbind (deploy_identifier capability_id) (\<lambda>checked_id.
     rbind (effect_set effects True) (\<lambda>required.
     rbind (checked_risk risk_name) (\<lambda>r. Inr (decide p checked_id required r))))"

text \<open>\<open>DeploymentPolicy.allows\<close>\<close>

definition allows :: "deployment_policy \<Rightarrow> string \<Rightarrow> string list \<Rightarrow> string \<Rightarrow> py_error + bool" where
  "allows p capability_id effects risk_name =
     rbind (evaluate p capability_id effects risk_name) (\<lambda>d. Inr (decision_allowed d))"

section \<open>What a decision means\<close>

lemma effect_set_Inr:
  "effect_set es b = Inr S \<longleftrightarrow>
     (\<forall>e \<in> set es. effect_of_name e \<noteq> None) \<and> (b \<longrightarrow> es \<noteq> []) \<and> S = the ` effect_of_name ` set es"
proof -
  have "traverse (\<lambda>e. case effect_of_name e of None \<Rightarrow> Inl ValueError | Some x \<Rightarrow> Inr x) es = Inr xs
      \<longleftrightarrow> map effect_of_name es = map Some xs" for xs
  proof -
    have "(case effect_of_name e of None \<Rightarrow> Inl ValueError | Some x \<Rightarrow> Inr x) = Inr y
        \<longleftrightarrow> effect_of_name e = Some y" for e y
      by (auto split: option.splits)
    then show ?thesis
      by (auto simp: traverse_Inr_iff list_all2_conv_all_nth list_eq_iff_nth_eq)
  qed
  note eq = this
  show ?thesis
  proof
    assume "effect_set es b = Inr S"
    then obtain xs where xs: "map effect_of_name es = map Some xs" "b \<longrightarrow> xs \<noteq> []" "S = set xs"
      by (auto simp: effect_set_def rbind_Inr_iff eq split: if_splits)
    have "effect_of_name ` set es = Some ` set xs" using xs(1) by (metis set_map)
    then show "(\<forall>e \<in> set es. effect_of_name e \<noteq> None) \<and> (b \<longrightarrow> es \<noteq> []) \<and> S = the ` effect_of_name ` set es"
      using xs by (auto simp: image_image)
  next
    assume r: "(\<forall>e \<in> set es. effect_of_name e \<noteq> None) \<and> (b \<longrightarrow> es \<noteq> []) \<and> S = the ` effect_of_name ` set es"
    then have "map effect_of_name es = map Some (map (the \<circ> effect_of_name) es)" by simp
    with r show "effect_set es b = Inr S"
      by (auto simp: effect_set_def rbind_Inr_iff eq intro!: exI [of _ "map (the \<circ> effect_of_name) es"])
  qed
qed

text \<open>The declarative ceiling: what \<open>evaluate\<close> decides once its arguments are well formed.\<close>

definition within_ceiling :: "deployment_policy \<Rightarrow> string \<Rightarrow> effect set \<Rightarrow> risk \<Rightarrow> bool" where
  "within_ceiling p cid es r \<longleftrightarrow>
     es \<subseteq> allowed_effects p \<and> r \<le> max_risk p \<and>
     (case capability_allowlist p of None \<Rightarrow> True | Some ids \<Rightarrow> cid \<in> ids)"

lemma denial_reasons_Nil: "denial_reasons p cid es r = [] \<longleftrightarrow> within_ceiling p cid es r"
  by (auto simp: denial_reasons_def within_ceiling_def less_eq_risk_def split: option.splits)

lemma evaluate_Inr:
  "evaluate p cid effects rn = Inr d \<longleftrightarrow>
     (\<exists>es r. deploy_identifier cid = Inr cid \<and> effect_set effects True = Inr es \<and>
        risk_of_name rn = Some r \<and> d = decide p cid es r)"
  unfolding evaluate_def rbind_Inr_iff
  by (auto simp: deploy_identifier_def checked_risk_def split: option.splits if_splits)

lemma effect_set_finite: "effect_set es b = Inr S \<Longrightarrow> finite S"
  by (auto simp: effect_set_Inr)

lemma evaluate_allowed:
  "evaluate p cid effects rn = Inr d \<Longrightarrow>
     decision_allowed d \<longleftrightarrow> within_ceiling p cid (set (required_effects d)) (decided_risk d)"
  by (auto simp: evaluate_Inr decide_def denial_reasons_Nil dest: effect_set_finite)

lemma evaluate_reasons: "evaluate p cid effects rn = Inr d \<Longrightarrow> decision_allowed d \<longleftrightarrow> decision_reasons d = []"
  by (auto simp: evaluate_Inr decide_def)

text \<open>A policy that allows at least what another allows.\<close>

definition policy_wider :: "deployment_policy \<Rightarrow> deployment_policy \<Rightarrow> bool" where
  "policy_wider q p \<longleftrightarrow>
     allowed_effects p \<subseteq> allowed_effects q \<and> max_risk p \<le> max_risk q \<and>
     (case capability_allowlist q of
        None \<Rightarrow> True
      | Some ids \<Rightarrow> (case capability_allowlist p of None \<Rightarrow> False | Some ids' \<Rightarrow> ids' \<subseteq> ids))"

lemma within_ceiling_mono: "policy_wider q p \<Longrightarrow> within_ceiling p cid es r \<Longrightarrow> within_ceiling q cid es r"
  by (auto simp: policy_wider_def within_ceiling_def split: option.splits)

lemma evaluate_ceiling:
  assumes "evaluate p cid effects rn = Inr d"
  shows "(decision_allowed d \<longleftrightarrow> within_ceiling p cid (the ` effect_of_name ` set effects) (the (risk_of_name rn))) \<and>
     (decision_allowed d \<longleftrightarrow> decision_reasons d = [])"
  using assms by (auto simp: evaluate_Inr effect_set_Inr decide_def denial_reasons_Nil)

end
