(* ===== verification/Workflow.thy ===== *)
theory Workflow
  imports Json Deployment
begin

text \<open>
  The compiler's data model: workflow steps and branch conditions of
  \<^verbatim>\<open>acc_core/models/__init__.py\<close>, the safety and HTTP contracts of
  \<^verbatim>\<open>acc_core/models/actions.py\<close>, and the Operation and Capability documents of
  \<^verbatim>\<open>acc_core/models/v2.py\<close>, with the validators that reject ill-formed documents.
  A validator that raises is a Boolean function that is false.
\<close>

section \<open>Workflow steps\<close>

datatype cond_operand = RefOperand string | LitOperand json

datatype wcond =
    WEq cond_operand cond_operand
  | WIn cond_operand cond_operand
  | WAll "wcond list"
  | WAny "wcond list"
  | WNot wcond

datatype branch_cond = CondRef string | CondTree wcond

datatype step =
    CallStep (step_id: "string option") (call_operation: string) (call_arguments: "(string \<times> json) list")
  | PickStep (step_id: "string option") json "string list"
  | MapStep (step_id: "string option") json string nat
  | FilterStep (step_id: "string option") json string nat
  | AssertStep (step_id: "string option") string string
  | RedactStep (step_id: "string option") json "string list"
  | BranchStep (step_id: "string option") branch_cond "step list" "step list"
  | ParallelStep (step_id: "string option") "step list"
  | ForeachStep (step_id: "string option") json string nat "step list"
  | EmitStep (step_id: "string option") json

text \<open>\<open>_workflow_condition_size\<close>: number of nodes and depth, the root at \<open>depth\<close>.\<close>

fun condition_size :: "wcond \<Rightarrow> nat \<Rightarrow> nat \<times> nat" where
  "condition_size (WAll cs) d =
     (let sizes = map (\<lambda>c. condition_size c (Suc d)) cs
      in (1 + sum_list (map fst sizes), Max (set (map snd sizes))))"
| "condition_size (WAny cs) d =
     (let sizes = map (\<lambda>c. condition_size c (Suc d)) cs
      in (1 + sum_list (map fst sizes), Max (set (map snd sizes))))"
| "condition_size (WNot c) d = (let (n, m) = condition_size c (Suc d) in (1 + n, m))"
| "condition_size _ d = (1, d)"

text \<open>The fan-out bound that \<open>WorkflowAllCondition\<close> and \<open>WorkflowAnyCondition\<close> declare.\<close>

fun condition_fanout_ok :: "wcond \<Rightarrow> bool" where
  "condition_fanout_ok (WAll cs) = (1 \<le> length cs \<and> length cs \<le> 16 \<and> (\<forall>c \<in> set cs. condition_fanout_ok c))"
| "condition_fanout_ok (WAny cs) = (1 \<le> length cs \<and> length cs \<le> 16 \<and> (\<forall>c \<in> set cs. condition_fanout_ok c))"
| "condition_fanout_ok (WNot c) = condition_fanout_ok c"
| "condition_fanout_ok _ = True"

text \<open>\<open>BranchAction.validate_condition_bounds\<close>\<close>

fun branch_condition_ok :: "branch_cond \<Rightarrow> bool" where
  "branch_condition_ok (CondRef r) = True"
| "branch_condition_ok (CondTree c) =
     (let (nodes, depth) = condition_size c 1 in \<not> (nodes > 64 \<or> depth > 16))"

section \<open>JSON Pointers\<close>

text \<open>Every \<open>~\<close> of a token is followed by \<open>0\<close> or \<open>1\<close>.\<close>

fun pointer_token_ok :: "string \<Rightarrow> bool" where
  "pointer_token_ok [] = True"
| "pointer_token_ok [c] = (c \<noteq> CHR ''~'')"
| "pointer_token_ok (c # d # s) =
     (if c \<noteq> CHR ''~'' then pointer_token_ok (d # s)
      else (d = CHR ''0'' \<or> d = CHR ''1'') \<and> pointer_token_ok s)"

text \<open>\<open>_validate_json_pointer\<close>\<close>

definition json_pointer_ok :: "string \<Rightarrow> bool" where
  "json_pointer_ok v \<longleftrightarrow>
     v \<noteq> [] \<and> hd v = CHR ''/'' \<and> list_all pointer_token_ok (tl (split_on (CHR ''/'') v))"

section \<open>Safety contracts\<close>

datatype reversibility = Reversible | Compensatable | Irreversible | UnknownReversibility

datatype retry_mode = RetryNever | RetryIdempotentOnly

datatype injection_target = HeaderTarget string | BodyTarget string

datatype token_source = ResponseHeaderToken string | BodyToken string

datatype idempotency =
    IdemUnsupported
  | IdemRuntimeDeduplicate
  | IdemSourceKey injection_target
  | IdemState (idem_pointer: string) (terminal_values: "json list")

datatype concurrency =
    ConcRequired token_source injection_target
  | ConcNotSupported
  | ConcServerSerialized (conc_read_operation: string) (conc_pointer: string) (allowed_values: "json list")

datatype binding_source = FromCapabilityInput | FromPreparedPreview | FromRuntimeKey

record request_binding =
  binding_target :: string
  binding_source :: binding_source
  source_pointer :: "string option"

record status_query =
  query_operation :: string
  request_bindings :: "request_binding list"
  success_pointer :: "string option"
  success_values :: "json list option"

datatype outcome_resolution = OutcomeSynchronous | OutcomeStatusQuery status_query | OutcomeUnresolved

record safety =
  effect_of :: effect
  risk_of :: risk
  reversibility_of :: reversibility
  retry_of :: retry_mode
  idempotency_of :: idempotency
  concurrency_of :: concurrency

text \<open>
  \<open>_validate_state_values\<close>: the canonical texts are strictly increasing. \<open>json.dumps\<close>
  raises on a non-finite float.
\<close>

definition state_values_ok :: "(rat \<Rightarrow> string) \<Rightarrow> json list \<Rightarrow> bool" where
  "state_values_ok fr vs =
     (let encoded = map (json_text fr) vs
      in None \<notin> set encoded \<and> map the encoded = sorted_set (map the encoded))"

text \<open>\<open>StatusQueryRequestBindingV2.validate_source\<close>\<close>

definition binding_ok :: "request_binding \<Rightarrow> bool" where
  "binding_ok b =
     (if binding_source b = FromRuntimeKey then source_pointer b = None
      else (case source_pointer b of None \<Rightarrow> False | Some p \<Rightarrow> json_pointer_ok p))"

text \<open>\<open>StatusQueryOutcomeResolutionV2\<close>: its three field validators.\<close>

definition status_query_ok :: "(rat \<Rightarrow> string) \<Rightarrow> status_query \<Rightarrow> bool" where
  "status_query_ok fr q \<longleftrightarrow>
     list_all binding_ok (request_bindings q) \<and>
     (case success_pointer q of None \<Rightarrow> True | Some p \<Rightarrow> json_pointer_ok p) \<and>
     (case success_values q of None \<Rightarrow> True | Some vs \<Rightarrow> vs \<noteq> [] \<and> state_values_ok fr vs) \<and>
     (let targets = map binding_target (request_bindings q)
      in distinct targets \<and> targets = sort targets)"

text \<open>\<open>IdempotencyContractV2\<close> and \<open>ConcurrencyContractV2\<close> field validators.\<close>

fun idempotency_ok :: "(rat \<Rightarrow> string) \<Rightarrow> idempotency \<Rightarrow> bool" where
  "idempotency_ok fr (IdemState p vs) = (json_pointer_ok p \<and> vs \<noteq> [] \<and> state_values_ok fr vs)"
| "idempotency_ok fr _ = True"

fun concurrency_ok :: "(rat \<Rightarrow> string) \<Rightarrow> concurrency \<Rightarrow> bool" where
  "concurrency_ok fr (ConcServerSerialized r p vs) =
     (r \<noteq> [] \<and> json_pointer_ok p \<and> vs \<noteq> [] \<and> state_values_ok fr vs)"
| "concurrency_ok fr _ = True"

fun is_source_key :: "idempotency \<Rightarrow> bool" where
  "is_source_key (IdemSourceKey _) = True"
| "is_source_key _ = False"

fun is_state_idempotent :: "idempotency \<Rightarrow> bool" where
  "is_state_idempotent (IdemState _ _) = True"
| "is_state_idempotent _ = False"

fun is_server_serialized :: "concurrency \<Rightarrow> bool" where
  "is_server_serialized (ConcServerSerialized _ _ _) = True"
| "is_server_serialized _ = False"

text \<open>\<open>OperationSafetyV2.validate_replay_contract\<close>\<close>

definition safety_ok :: "(rat \<Rightarrow> string) \<Rightarrow> safety \<Rightarrow> bool" where
  "safety_ok fr s \<longleftrightarrow>
     \<not> (effect_of s \<noteq> Read \<and> retry_of s = RetryIdempotentOnly \<and> \<not> is_source_key (idempotency_of s)) \<and>
     (is_server_serialized (concurrency_of s) = is_state_idempotent (idempotency_of s)) \<and>
     (case concurrency_of s of
        ConcServerSerialized r p allowed \<Rightarrow>
          (case idempotency_of s of
             IdemState p' terminal \<Rightarrow>
               p = p' \<and> set (map (json_text fr) allowed) \<inter> set (map (json_text fr) terminal) = {}
           | _ \<Rightarrow> True)
      | _ \<Rightarrow> True)"

section \<open>HTTP contracts\<close>

datatype http_method = GET | HEAD | POST | PUT | PATCH | DELETE

datatype success_body = BodyJson | BodyEmpty | BodyJsonOrEmpty

record json_request =
  body_parameters :: "(string, string) dict"
  max_request_bytes :: int

record http_success =
  statuses :: "int list"
  success_body :: success_body

record http_operation =
  http_method :: http_method
  http_path :: string
  path_parameters :: "(string, string) dict"
  query_parameters :: "(string, string) dict"
  http_request :: "json_request option"
  http_success :: http_success
  http_scopes :: "string list"
  timeout_seconds :: int
  max_response_bytes :: int
  http_safety :: safety
  unsafe_read_evidence :: "string option"

definition json_request_ok :: "json_request \<Rightarrow> bool" where
  "json_request_ok r \<longleftrightarrow>
     list_all json_pointer_ok (dkeys (body_parameters r)) \<and>
     1 \<le> max_request_bytes r \<and> max_request_bytes r \<le> 100 * 1024 * 1024"

text \<open>\<open>HttpSuccessV2\<close>: nonempty 2xx statuses, unique and sorted.\<close>

definition http_success_ok :: "http_success \<Rightarrow> bool" where
  "http_success_ok h \<longleftrightarrow>
     statuses h \<noteq> [] \<and> list_all (\<lambda>c. 200 \<le> c \<and> c \<le> 299) (statuses h) \<and>
     distinct (statuses h) \<and> statuses h = sort (statuses h)"

text \<open>
  The names \<open>_PATH_PARAMETER.findall\<close> returns: each maximal match of
  \<open>{[A-Za-z_][A-Za-z0-9_-]*}\<close> from left to right.
\<close>

definition ident_start :: "char \<Rightarrow> bool" where
  "ident_start c \<longleftrightarrow> is_ascii_alpha c \<or> c = CHR ''_''"

definition match_placeholder :: "string \<Rightarrow> (string \<times> string) option" where
  "match_placeholder s =
     (case s of [] \<Rightarrow> None
      | c # s' \<Rightarrow>
          if \<not> ident_start c then None
          else (case dropWhile is_urlsafe s' of [] \<Rightarrow> None
                | d # rest \<Rightarrow> if d = CHR ''}'' then Some (c # takeWhile is_urlsafe s', rest) else None))"

lemma match_placeholder_length: "match_placeholder s = Some (n, r) \<Longrightarrow> length r < length s"
proof (cases s)
  case (Cons c s')
  assume "match_placeholder s = Some (n, r)"
  then obtain d where "dropWhile is_urlsafe s' = d # r"
    using Cons by (auto simp: match_placeholder_def split: if_splits list.splits)
  then have "length (d # r) \<le> length s'" by (metis length_dropWhile_le)
  with Cons show ?thesis by simp
qed (simp add: match_placeholder_def)

function find_placeholders :: "string \<Rightarrow> string list" where
  "find_placeholders [] = []"
| "find_placeholders (c # s) =
     (if c = CHR ''{'' then
        (case match_placeholder s of None \<Rightarrow> find_placeholders s | Some (n, r) \<Rightarrow> n # find_placeholders r)
      else find_placeholders s)"
  by pat_completeness auto
termination
  by (relation "measure length") (auto dest!: match_placeholder_length)

text \<open>\<open>HttpOperationV2.validate_transport_semantics\<close>\<close>

definition transport_ok :: "http_operation \<Rightarrow> bool" where
  "transport_ok h \<longleftrightarrow>
     set (find_placeholders (http_path h)) = set (dkeys (path_parameters h)) \<and>
     (if http_method h \<in> {GET, HEAD} then
        effect_of (http_safety h) = Read \<and> http_request h = None \<and> unsafe_read_evidence h = None
      else if effect_of (http_safety h) = Read then unsafe_read_evidence h \<noteq> None
      else unsafe_read_evidence h = None) \<and>
     (http_method h = DELETE \<longrightarrow> effect_of (http_safety h) = Delete)"

section \<open>Documents\<close>

datatype evidence_kind =
  SourceFile | JsonDocument | OpenApi | OpenApiOperation | ContentEvidence | ContentSummary

record evidence =
  ev_source :: string
  ev_kind :: "evidence_kind option"
  ev_path :: "string option"
  ev_line_start :: "int option"
  ev_line_end :: "int option"
  ev_json_pointer :: "string option"
  ev_openapi :: "string option"
  ev_locator :: "string option"
  ev_summary :: "string option"
  ev_digest :: string

text \<open>\<open>Evidence.validate_locator\<close>\<close>

definition evidence_ok :: "evidence \<Rightarrow> bool" where
  "evidence_ok e \<longleftrightarrow>
     (ev_line_start e = None) = (ev_line_end e = None) \<and>
     (case (ev_line_start e, ev_line_end e) of (Some a, Some b) \<Rightarrow> a \<le> b | _ \<Rightarrow> True) \<and>
     (case ev_json_pointer e of None \<Rightarrow> True | Some p \<Rightarrow> p = [] \<or> hd p = CHR ''/'') \<and>
     (ev_path e \<noteq> None \<or> ev_json_pointer e \<noteq> None \<or> ev_openapi e \<noteq> None \<or> ev_locator e \<noteq> None \<or> ev_summary e \<noteq> None)"

datatype operation_kind = ReadKind | ActionKind

record operation =
  op_id :: string
  op_kind :: operation_kind
  op_input_schema :: json
  op_output_schema :: json
  http_contract :: http_operation
  context_bindings :: "(string, string) dict"
  op_evidence :: "evidence list"

text \<open>\<open>validate_read_effect\<close> and \<open>validate_action_effect\<close>\<close>

definition operation_effect_ok :: "operation \<Rightarrow> bool" where
  "operation_effect_ok oper =
     (case op_kind oper of
        ReadKind \<Rightarrow> effect_of (http_safety (http_contract oper)) = Read
      | ActionKind \<Rightarrow> effect_of (http_safety (http_contract oper)) \<noteq> Read)"

text \<open>\<open>validate_parameter_mappings\<close>: every mapped value names a declared input.\<close>

definition declared_inputs :: "json \<Rightarrow> string set" where
  "declared_inputs schema =
     (case jget schema ''properties'' of Some (JObj ps) \<Rightarrow> set (dkeys ps) | _ \<Rightarrow> {})"

definition parameter_mappings_ok :: "operation \<Rightarrow> bool" where
  "parameter_mappings_ok oper \<longleftrightarrow>
     snd ` set (path_parameters (http_contract oper)) \<union> snd ` set (query_parameters (http_contract oper)) \<union>
     (case http_request (http_contract oper) of None \<Rightarrow> {} | Some r \<Rightarrow> snd ` set (body_parameters r))
     \<subseteq> declared_inputs (op_input_schema oper)"

datatype execution_mode = Single | SourceTransaction | Saga

record local_guard =
  resource_key_pointer :: string
  guard_read_operation :: string
  state_pointer :: string
  guard_allowed :: "json list"
  guard_terminal :: "json list"

record action_contract =
  execution_mode :: execution_mode
  approval_mode_required :: bool
  expires_in_seconds :: int
  local_development_state_guard :: "local_guard option"

datatype capability_body =
    ReadBody "step list"
  | ActionBody action_contract (preview_steps: "step list") (commit_steps: "step list")

record capability =
  cap_id :: string
  cap_title :: string
  cap_input_schema :: json
  cap_output_schema :: json
  cap_policy :: string
  cap_body :: capability_body

section \<open>Facts about accepted documents\<close>

text \<open>An accepted operation with a safe method never mutates.\<close>

lemma transport_safe_method:
  "transport_ok h \<Longrightarrow> http_method h \<in> {GET, HEAD} \<Longrightarrow> effect_of (http_safety h) = Read"
  by (auto simp: transport_ok_def)

lemma safety_retry_source_key:
  "safety_ok fr s \<Longrightarrow> effect_of s \<noteq> Read \<Longrightarrow> retry_of s = RetryIdempotentOnly \<Longrightarrow>
     \<exists>t. idempotency_of s = IdemSourceKey t"
  by (cases "idempotency_of s") (auto simp: safety_ok_def)

lemma condition_size_pos: "1 \<le> fst (condition_size c d)"
  by (cases "(c, d)" rule: condition_size.cases) (auto simp: Let_def split: prod.splits)

lemma condition_size_depth: "condition_fanout_ok c \<Longrightarrow> d \<le> snd (condition_size c d)"
proof (induction c d rule: condition_size.induct)
  case (1 cs d)
  then obtain c where c: "c \<in> set cs" by (cases cs) auto
  with 1 have "Suc d \<le> snd (condition_size c (Suc d))" by simp
  moreover have "snd (condition_size c (Suc d)) \<le> Max ((\<lambda>c. snd (condition_size c (Suc d))) ` set cs)"
    using c by simp
  ultimately show ?case by (simp add: Let_def image_image)
next
  case (2 cs d)
  then obtain c where c: "c \<in> set cs" by (cases cs) auto
  with 2 have "Suc d \<le> snd (condition_size c (Suc d))" by simp
  moreover have "snd (condition_size c (Suc d)) \<le> Max ((\<lambda>c. snd (condition_size c (Suc d))) ` set cs)"
    using c by simp
  ultimately show ?case by (simp add: Let_def image_image)
next
  case (3 c d)
  then show ?case by (auto simp: Let_def split: prod.splits)
qed auto

end
