(* ===== verification/Scopes.thy ===== *)
theory Scopes
  imports Workflow "HOL-Library.Product_Lexorder"
begin

text \<open>
  \<^verbatim>\<open>acc_core/scope/analysis.py\<close>: which authorization scopes the successful paths of a
  capability need. Scope sets (\<open>frozenset[str]\<close>) are HOL sets; a tuple of alternatives is a
  list. The analysis is compared with \<open>completes\<close>, the sets of scopes that the operations of
  one successful run can use.
\<close>

type_synonym scope_set = "string set"

section \<open>Minimal antichains\<close>

text \<open>The sort key \<open>(len(item), tuple(sorted(item)))\<close>.\<close>

definition scope_key :: "scope_set \<Rightarrow> nat \<times> string list" where
  "scope_key s = (card s, sorted_list_of_set s)"

fun keep_minimal :: "scope_set list \<Rightarrow> scope_set list \<Rightarrow> scope_set list" where
  "keep_minimal minimal [] = minimal"
| "keep_minimal minimal (c # cs) =
     (if \<exists>e \<in> set minimal. e \<subseteq> c then keep_minimal minimal cs
      else keep_minimal (minimal @ [c]) cs)"

definition minimal_antichain :: "scope_set list \<Rightarrow> scope_set list" where
  "minimal_antichain candidates = keep_minimal [] (sort_key scope_key (remdups candidates))"

lemma keep_minimal_subset: "set (keep_minimal ms cs) \<subseteq> set ms \<union> set cs"
  by (induction ms cs rule: keep_minimal.induct) auto

lemma keep_minimal_keeps: "set ms \<subseteq> set (keep_minimal ms cs)"
  by (induction ms cs rule: keep_minimal.induct) auto

lemma keep_minimal_covers: "c \<in> set cs \<Longrightarrow> \<exists>m \<in> set (keep_minimal ms cs). m \<subseteq> c"
proof (induction ms cs rule: keep_minimal.induct)
  case (2 ms c' cs)
  show ?case
  proof (cases "c = c'")
    case True
    have "\<exists>m \<in> set (if \<exists>e \<in> set ms. e \<subseteq> c then ms else ms @ [c]). m \<subseteq> c" by auto
    with True show ?thesis
      using keep_minimal_keeps [of ms cs] keep_minimal_keeps [of "ms @ [c]" cs] by (auto; blast)
  next
    case False
    with 2 show ?thesis by auto
  qed
qed simp

lemma minimal_antichain_subset: "set (minimal_antichain cs) \<subseteq> set cs"
  using keep_minimal_subset [of "[]" "sort_key scope_key (remdups cs)"]
  by (auto simp: minimal_antichain_def)

lemma minimal_antichain_covers: "c \<in> set cs \<Longrightarrow> \<exists>m \<in> set (minimal_antichain cs). m \<subseteq> c"
  unfolding minimal_antichain_def by (rule keep_minimal_covers) simp

lemma minimal_antichain_some_subset:
  "(\<exists>m \<in> set (minimal_antichain cs). m \<subseteq> A) \<longleftrightarrow> (\<exists>c \<in> set cs. c \<subseteq> A)"
  using minimal_antichain_subset minimal_antichain_covers by (meson subset_eq order_trans)

lemma minimal_antichain_eq_Nil [simp]: "minimal_antichain cs = [] \<longleftrightarrow> cs = []"
proof
  assume e: "minimal_antichain cs = []"
  show "cs = []"
  proof (rule ccontr)
    assume "cs \<noteq> []"
    then obtain c where "c \<in> set cs" by (cases cs) auto
    from minimal_antichain_covers [OF this] e show False by simp
  qed
qed (simp add: minimal_antichain_def)

text \<open>
  The survivors are pairwise incomparable: the sort puts a proper subset before its supersets,
  so a survivor is never a superset of an earlier one nor of a later one.
\<close>

lemma keep_minimal_antichain:
  "(\<forall>m \<in> set ms. \<forall>c \<in> set cs. card m \<le> card c) \<Longrightarrow> sorted (map card cs) \<Longrightarrow>
   (\<forall>c \<in> set ms \<union> set cs. finite c) \<Longrightarrow>
   (\<forall>a \<in> set ms. \<forall>b \<in> set ms. a \<subseteq> b \<longrightarrow> a = b) \<Longrightarrow>
   a \<in> set (keep_minimal ms cs) \<Longrightarrow> b \<in> set (keep_minimal ms cs) \<Longrightarrow> a \<subseteq> b \<Longrightarrow> a = b"
proof (induction ms cs rule: keep_minimal.induct)
  case (2 ms c cs)
  show ?case
  proof (cases "\<exists>e \<in> set ms. e \<subseteq> c")
    case True
    with 2 show ?thesis by auto
  next
    case False
    have new: "x = y" if "x \<in> set (ms @ [c])" "y \<in> set (ms @ [c])" "x \<subseteq> y" for x y
    proof -
      have "card y \<le> card c" "finite y" using that(2) 2(3,5) by auto
      then have "c = y" if "x = c" "y \<in> set ms"
        using card_seteq [of y c] \<open>x \<subseteq> y\<close> that by simp
      with that False 2(6) show ?thesis by auto
    qed
    from False have "a \<in> set (keep_minimal (ms @ [c]) cs)" "b \<in> set (keep_minimal (ms @ [c]) cs)"
      using 2(7,8) by auto
    with False 2(3,4,5) new 2(9) show ?thesis
      by (intro 2(2)) auto
  qed
qed simp

lemma sorted_scope_key: "sorted (map card (sort_key scope_key cs))"
proof -
  have "sorted (map scope_key (sort_key scope_key cs))" by simp
  then have "sorted (map fst (map scope_key (sort_key scope_key cs)))"
    by (rule sorted_map_mono) (auto simp: mono_on_def less_eq_prod_def)
  then show ?thesis by (simp add: scope_key_def comp_def)
qed

lemma minimal_antichain_incomparable:
  assumes "\<forall>c \<in> set cs. finite c" "a \<in> set (minimal_antichain cs)" "b \<in> set (minimal_antichain cs)" "a \<subseteq> b"
  shows "a = b"
  using assms unfolding minimal_antichain_def
  by (intro keep_minimal_antichain [of "[]" _ a b]) (auto simp: sorted_scope_key)

section \<open>The analysis\<close>

record path_requirements =
  alternatives :: "scope_set list"
  always_scopes :: scope_set
  feasible_union :: scope_set
  structural_union :: scope_set

definition empty_path :: path_requirements where
  "empty_path = \<lparr>alternatives = [{}], always_scopes = {}, feasible_union = {}, structural_union = {}\<rparr>"

text \<open>\<open>_combine_required\<close>\<close>

definition combine_required :: "path_requirements \<Rightarrow> path_requirements \<Rightarrow> path_requirements" where
  "combine_required l r =
     \<lparr>alternatives = minimal_antichain
        (concat (map (\<lambda>la. map (\<lambda>ra. la \<union> ra) (alternatives r)) (alternatives l))),
      always_scopes = always_scopes l \<union> always_scopes r,
      feasible_union = feasible_union l \<union> feasible_union r,
      structural_union = structural_union l \<union> structural_union r\<rparr>"

text \<open>\<open>BranchStep\<close>: the requirement of two exclusive alternatives.\<close>

definition combine_branch :: "path_requirements \<Rightarrow> path_requirements \<Rightarrow> path_requirements" where
  "combine_branch t e =
     \<lparr>alternatives = minimal_antichain (alternatives t @ alternatives e),
      always_scopes = always_scopes t \<inter> always_scopes e,
      feasible_union = feasible_union t \<union> feasible_union e,
      structural_union = structural_union t \<union> structural_union e\<rparr>"

text \<open>\<open>ForeachStep\<close>: an empty literal list, a nonempty one, or a reference.\<close>

definition optional_path :: "path_requirements \<Rightarrow> path_requirements" where
  "optional_path b =
     \<lparr>alternatives = minimal_antichain ({} # alternatives b), always_scopes = {},
      feasible_union = feasible_union b, structural_union = structural_union b\<rparr>"

fun combine_foreach :: "json \<Rightarrow> path_requirements \<Rightarrow> path_requirements" where
  "combine_foreach (JArr []) b =
     \<lparr>alternatives = [{}], always_scopes = {}, feasible_union = {},
      structural_union = structural_union b\<rparr>"
| "combine_foreach (JArr (_ # _)) b = b"
| "combine_foreach _ b = optional_path b"

text \<open>\<open>_analyze_steps\<close> (a left fold over the steps) and \<open>_analyze_step\<close>.\<close>

type_synonym operations = "(string, operation) dict"

fun analyze_step :: "operations \<Rightarrow> step \<Rightarrow> py_error + path_requirements"
  and analyze_from :: "operations \<Rightarrow> path_requirements \<Rightarrow> step list \<Rightarrow> py_error + path_requirements" where
  "analyze_step ops (CallStep i oid args) =
     (case dget ops oid of
        None \<Rightarrow> Inl ValueError
      | Some oper \<Rightarrow>
          (let sc = set (http_scopes (http_contract oper))
           in Inr \<lparr>alternatives = [sc], always_scopes = sc, feasible_union = sc, structural_union = sc\<rparr>))"
| "analyze_step ops (BranchStep i c ts es) =
     rbind (analyze_from ops empty_path ts) (\<lambda>t.
     rbind (analyze_from ops empty_path es) (\<lambda>e.
       Inr (combine_branch t e)))"
| "analyze_step ops (ParallelStep i ss) = analyze_from ops empty_path ss"
| "analyze_step ops (ForeachStep i items nm mx body) =
     rbind (analyze_from ops empty_path body) (\<lambda>b. Inr (combine_foreach items b))"
| "analyze_step ops _ = Inr empty_path"
| "analyze_from ops acc [] = Inr acc"
| "analyze_from ops acc (s # ss) =
     rbind (analyze_step ops s) (\<lambda>r. analyze_from ops (combine_required acc r) ss)"

abbreviation analyze_steps :: "operations \<Rightarrow> step list \<Rightarrow> py_error + path_requirements" where
  "analyze_steps ops ss \<equiv> analyze_from ops empty_path ss"

record scope_requirements =
  req_capability :: string
  policy_always :: scope_set
  always_required :: scope_set
  conditionally_required :: scope_set
  all_referenced :: scope_set
  completion_alternatives :: "scope_set list"

text \<open>\<open>analyze_capability_scope_requirements\<close>; the policy contributes its required scopes.\<close>

definition analyze_capability :: "capability \<Rightarrow> string list \<Rightarrow> operations \<Rightarrow> py_error + scope_requirements" where
  "analyze_capability c policy_scopes ops =
     rbind (case cap_body c of
              ReadBody w \<Rightarrow> analyze_steps ops w
            | ActionBody a pre com \<Rightarrow>
                rbind (analyze_steps ops pre) (\<lambda>p.
                rbind (analyze_steps ops com) (\<lambda>k. Inr (combine_required p k))))
       (\<lambda>w. let ps = set policy_scopes;
                always = always_scopes w \<union> ps;
                feasible = feasible_union w \<union> ps
            in Inr \<lparr>req_capability = cap_id c, policy_always = ps, always_required = always,
                    conditionally_required = feasible - always,
                    all_referenced = structural_union w \<union> ps,
                    completion_alternatives = minimal_antichain (map (\<lambda>a. a \<union> ps) (alternatives w))\<rparr>)"

section \<open>Successful runs\<close>

text \<open>
  \<open>completes ops s U\<close>: some successful run of step \<open>s\<close> calls operations whose scopes are
  together \<open>U\<close>. A branch takes one side, a parallel step runs every child, a foreach over a
  literal list runs its body once per element, a foreach over a reference any number of times.
\<close>

inductive completes :: "operations \<Rightarrow> step \<Rightarrow> scope_set \<Rightarrow> bool"
  and completes_all :: "operations \<Rightarrow> step list \<Rightarrow> scope_set \<Rightarrow> bool"
  and completes_times :: "operations \<Rightarrow> step list \<Rightarrow> nat \<Rightarrow> scope_set \<Rightarrow> bool"
  for ops where
  call: "dget ops oid = Some oper \<Longrightarrow> completes ops (CallStep i oid args) (set (http_scopes (http_contract oper)))"
| pick: "completes ops (PickStep i v fs) {}"
| map_: "completes ops (MapStep i v e n) {}"
| filter_: "completes ops (FilterStep i v e n) {}"
| assert_: "completes ops (AssertStep i e m) {}"
| redact: "completes ops (RedactStep i v fs) {}"
| emit: "completes ops (EmitStep i v) {}"
| then_: "completes_all ops ts U \<Longrightarrow> completes ops (BranchStep i c ts es) U"
| else_: "completes_all ops es U \<Longrightarrow> completes ops (BranchStep i c ts es) U"
| parallel: "completes_all ops ss U \<Longrightarrow> completes ops (ParallelStep i ss) U"
| foreach_literal: "completes_times ops body (length vs) U \<Longrightarrow> completes ops (ForeachStep i (JArr vs) nm mx body) U"
| foreach_dynamic: "(\<nexists>vs. items = JArr vs) \<Longrightarrow> completes_times ops body n U \<Longrightarrow> completes ops (ForeachStep i items nm mx body) U"
| all_Nil: "completes_all ops [] {}"
| all_Cons: "completes ops s U \<Longrightarrow> completes_all ops ss V \<Longrightarrow> completes_all ops (s # ss) (U \<union> V)"
| times_0: "completes_times ops body 0 {}"
| times_Suc: "completes_all ops body U \<Longrightarrow> completes_times ops body n V \<Longrightarrow> completes_times ops body (Suc n) (U \<union> V)"

inductive_cases completes_CallE: "completes ops (CallStep i oid args) U"
inductive_cases completes_BranchE: "completes ops (BranchStep i c ts es) U"
inductive_cases completes_ParallelE: "completes ops (ParallelStep i ss) U"
inductive_cases completes_ForeachE: "completes ops (ForeachStep i items nm mx body) U"
inductive_cases completes_all_NilE: "completes_all ops [] U"
inductive_cases completes_all_ConsE: "completes_all ops (s # ss) U"
inductive_cases completes_times_0E: "completes_times ops body 0 U"
inductive_cases completes_times_SucE: "completes_times ops body (Suc n) U"
inductive_simps completes_plain:
  "completes ops (PickStep i v fs) U" "completes ops (MapStep i v e n) U"
  "completes ops (FilterStep i v e n) U" "completes ops (AssertStep i e m) U"
  "completes ops (RedactStep i v fs) U" "completes ops (EmitStep i v) U"

section \<open>The analysis is exact\<close>

text \<open>
  A requirement describes a family of completions exactly: the alternatives are completions and
  every completion contains one, \<open>always\<close> is the intersection and the feasible union the
  union of all completions.
\<close>

definition describes :: "path_requirements \<Rightarrow> scope_set set \<Rightarrow> bool" where
  "describes r C \<longleftrightarrow>
     C \<noteq> {} \<and> (\<forall>U \<in> C. \<exists>a \<in> set (alternatives r). a \<subseteq> U) \<and> set (alternatives r) \<subseteq> C \<and>
     always_scopes r = \<Inter>C \<and> feasible_union r = \<Union>C \<and> feasible_union r \<subseteq> structural_union r"

lemma describesI:
  assumes "C \<noteq> {}" "\<And>U. U \<in> C \<Longrightarrow> \<exists>a \<in> set (alternatives r). a \<subseteq> U"
    "\<And>a. a \<in> set (alternatives r) \<Longrightarrow> a \<in> C" "always_scopes r = \<Inter>C"
    "feasible_union r = \<Union>C" "feasible_union r \<subseteq> structural_union r"
  shows "describes r C"
  using assms unfolding describes_def by (intro conjI ballI) blast+

lemma describesD:
  assumes "describes r C"
  shows "C \<noteq> {}" "U \<in> C \<Longrightarrow> \<exists>a \<in> set (alternatives r). a \<subseteq> U"
    "a \<in> set (alternatives r) \<Longrightarrow> a \<in> C" "always_scopes r = \<Inter>C"
    "feasible_union r = \<Union>C" "feasible_union r \<subseteq> structural_union r"
  using assms unfolding describes_def by blast+

lemma describes_single [simp]:
  "describes \<lparr>alternatives = [S], always_scopes = S, feasible_union = S, structural_union = S\<rparr> {S}"
  by (rule describesI) simp_all

definition joins :: "scope_set set \<Rightarrow> scope_set set \<Rightarrow> scope_set set" where
  "joins C D = {U \<union> V | U V. U \<in> C \<and> V \<in> D}"

lemma joins_single [simp]: "joins {{}} D = D" "joins C {{}} = C"
  by (auto simp: joins_def)

lemma describes_empty [simp]: "describes empty_path {{}}"
  by (simp add: describes_def empty_path_def)

lemma joinsI: "U \<in> C \<Longrightarrow> V \<in> D \<Longrightarrow> U \<union> V \<in> joins C D"
  by (auto simp: joins_def)

lemma joinsE:
  assumes "W \<in> joins C D"
  obtains U V where "U \<in> C" "V \<in> D" "W = U \<union> V"
  using assms by (auto simp: joins_def)

lemma joins_assoc: "joins (joins A B) C = joins A (joins B C)"
proof (intro equalityI subsetI)
  fix W assume "W \<in> joins (joins A B) C"
  then obtain U V X where "U \<in> A" "V \<in> B" "X \<in> C" "W = U \<union> (V \<union> X)"
    by (metis joinsE Un_assoc)
  then show "W \<in> joins A (joins B C)" by (simp add: joinsI)
next
  fix W assume "W \<in> joins A (joins B C)"
  then obtain U V X where "U \<in> A" "V \<in> B" "X \<in> C" "W = (U \<union> V) \<union> X"
    by (metis joinsE Un_assoc)
  then show "W \<in> joins (joins A B) C" by (simp add: joinsI)
qed

lemma Inter_joins: "\<Inter>(joins C D) = \<Inter>C \<union> \<Inter>D"
proof (intro equalityI subsetI)
  fix x assume x: "x \<in> \<Inter>(joins C D)"
  show "x \<in> \<Inter>C \<union> \<Inter>D"
  proof (rule ccontr)
    assume "x \<notin> \<Inter>C \<union> \<Inter>D"
    then obtain U V where "U \<in> C" "x \<notin> U" "V \<in> D" "x \<notin> V" by blast
    with x joinsI [of U C V D] show False by blast
  qed
qed (auto elim!: joinsE)

lemma Union_joins: "C \<noteq> {} \<Longrightarrow> D \<noteq> {} \<Longrightarrow> \<Union>(joins C D) = \<Union>C \<union> \<Union>D"
proof (intro equalityI subsetI)
  fix x assume ne: "C \<noteq> {}" "D \<noteq> {}" and x: "x \<in> \<Union>C \<union> \<Union>D"
  obtain U0 V0 where "U0 \<in> C" "V0 \<in> D" using ne by blast
  with x joinsI [of _ C _ D] show "x \<in> \<Union>(joins C D)" by (metis UnE UnI1 UnI2 Union_iff)
qed (auto elim!: joinsE)

lemma describes_combine:
  assumes l: "describes l C" and r: "describes r D"
  shows "describes (combine_required l r) (joins C D)"
proof -
  let ?alts = "concat (map (\<lambda>la. map (\<lambda>ra. la \<union> ra) (alternatives r)) (alternatives l))"
  note L = describesD [OF l] and R = describesD [OF r]
  have alts: "x \<in> set ?alts \<longleftrightarrow> (\<exists>a \<in> set (alternatives l). \<exists>b \<in> set (alternatives r). x = a \<union> b)" for x
    by auto
  show ?thesis
  proof (rule describesI)
    show "joins C D \<noteq> {}" using L(1) R(1) by (metis equals0D equals0I joinsI)
  next
    fix W assume "W \<in> joins C D"
    then obtain U V where UV: "U \<in> C" "V \<in> D" "W = U \<union> V" by (rule joinsE)
    from L(2) [OF UV(1)] R(2) [OF UV(2)] obtain a b
      where "a \<in> set (alternatives l)" "a \<subseteq> U" "b \<in> set (alternatives r)" "b \<subseteq> V" by blast
    then have "a \<union> b \<in> set ?alts" "a \<union> b \<subseteq> W" using alts UV(3) by blast+
    then obtain m where "m \<in> set (minimal_antichain ?alts)" "m \<subseteq> W"
      using minimal_antichain_covers [of "a \<union> b" ?alts] by (metis order_trans)
    then show "\<exists>a \<in> set (alternatives (combine_required l r)). a \<subseteq> W"
      by (auto simp: combine_required_def)
  next
    fix a assume "a \<in> set (alternatives (combine_required l r))"
    then have "a \<in> set (minimal_antichain ?alts)" by (simp add: combine_required_def)
    then have "a \<in> set ?alts" using minimal_antichain_subset by blast
    then show "a \<in> joins C D" using alts L(3) R(3) by (metis joinsI)
  next
    show "always_scopes (combine_required l r) = \<Inter>(joins C D)"
      by (simp add: combine_required_def Inter_joins L(4) R(4))
    show "feasible_union (combine_required l r) = \<Union>(joins C D)"
      using L(1) R(1) by (simp add: combine_required_def Union_joins L(5) R(5))
    show "feasible_union (combine_required l r) \<subseteq> structural_union (combine_required l r)"
      using L(6) R(6) by (auto simp: combine_required_def)
  qed
qed

text \<open>Adding completions that contain an old one and use no new scope changes nothing.\<close>

lemma describes_closure:
  assumes d: "describes r C" and sub: "C \<subseteq> D" and lo: "\<And>U. U \<in> D \<Longrightarrow> \<exists>V \<in> C. V \<subseteq> U"
    and up: "\<And>U. U \<in> D \<Longrightarrow> U \<subseteq> \<Union>C"
  shows "describes r D"
proof (rule describesI)
  note D = describesD [OF d]
  show "D \<noteq> {}" using D(1) sub by blast
  show "\<exists>a \<in> set (alternatives r). a \<subseteq> U" if "U \<in> D" for U
    using lo [OF that] D(2) by (meson order_trans)
  show "a \<in> D" if "a \<in> set (alternatives r)" for a using D(3) [OF that] sub by blast
  have "\<Inter>D \<subseteq> \<Inter>C" using sub by blast
  moreover have "\<Inter>C \<subseteq> \<Inter>D" using lo by blast
  ultimately show "always_scopes r = \<Inter>D" using D(4) by blast
  have "\<Union>D = \<Union>C" using sub up by blast
  then show "feasible_union r = \<Union>D" using D(5) by simp
  show "feasible_union r \<subseteq> structural_union r" by (rule D(6))
qed

lemma completes_times_bounds:
  "completes_times ops body n U \<Longrightarrow> 0 < n \<Longrightarrow> \<exists>V. completes_all ops body V \<and> V \<subseteq> U"
  by (cases n) (auto elim!: completes_times_SucE)

lemma completes_times_upper: "completes_times ops body n U \<Longrightarrow> U \<subseteq> \<Union>{V. completes_all ops body V}"
proof (induction n arbitrary: U)
  case (Suc n)
  from Suc.prems obtain V W where "U = V \<union> W" "completes_all ops body V" "completes_times ops body n W"
    by (auto elim: completes_times_SucE)
  with Suc.IH [of W] show ?case by blast
qed (auto elim: completes_times_0E)

lemma completes_times_const: "completes_all ops body V \<Longrightarrow> completes_times ops body (Suc n) V"
proof (induction n)
  case 0
  then have "completes_times ops body (Suc 0) (V \<union> {})"
    by (intro completes_completes_all_completes_times.intros)
  then show ?case by simp
next
  case (Suc n)
  then have "completes_times ops body (Suc (Suc n)) (V \<union> V)"
    by (intro completes_completes_all_completes_times.intros) auto
  then show ?case by simp
qed

lemma describes_times:
  assumes "describes r {V. completes_all ops body V}"
  shows "describes r {U. completes_times ops body (Suc n) U}"
  using assms
proof (rule describes_closure)
  show "{V. completes_all ops body V} \<subseteq> {U. completes_times ops body (Suc n) U}"
    using completes_times_const by auto
  show "\<exists>V \<in> {V. completes_all ops body V}. V \<subseteq> U" if "U \<in> {U. completes_times ops body (Suc n) U}" for U
    using completes_times_bounds [of ops body "Suc n" U] that by simp
  show "U \<subseteq> \<Union>{V. completes_all ops body V}" if "U \<in> {U. completes_times ops body (Suc n) U}" for U
    using completes_times_upper [of ops body "Suc n" U] that by simp
qed

lemma describes_any_times:
  assumes d: "describes r {V. completes_all ops body V}"
  shows "describes (optional_path r) {U. \<exists>n. completes_times ops body n U}" (is "describes ?r ?D")
  unfolding optional_path_def
proof (rule describesI)
  let ?r = "\<lparr>alternatives = minimal_antichain ({} # alternatives r), always_scopes = {},
            feasible_union = feasible_union r, structural_union = structural_union r\<rparr>"
  note D = describesD [OF d]
  have z: "{} \<in> ?D" using times_0 by blast
  have sub: "V \<in> ?D" if "completes_all ops body V" for V
    using completes_times_const [OF that, of 0] by blast
  show "?D \<noteq> {}" using z by blast
  show "\<exists>a \<in> set (alternatives ?r). a \<subseteq> U" for U :: scope_set
    using minimal_antichain_covers [of "{}" "{} # alternatives r"] by auto
  show "a \<in> ?D" if "a \<in> set (alternatives ?r)" for a
  proof -
    have "a = {} \<or> a \<in> set (alternatives r)"
      using that minimal_antichain_subset [of "{} # alternatives r"] by auto
    then show ?thesis using z sub D(3) [of a] by auto
  qed
  show "always_scopes ?r = \<Inter>?D" using z by auto
  have "\<Union>?D = \<Union>{V. completes_all ops body V}"
    using sub completes_times_upper [of ops body] by (intro equalityI Union_least) blast+
  then show "feasible_union ?r = \<Union>?D" using D(5) by simp
  show "feasible_union ?r \<subseteq> structural_union ?r" using D(6) by simp
qed

lemma completes_all_Cons_set:
  "{U. completes_all ops (s # ss) U} = joins {U. completes ops s U} {U. completes_all ops ss U}"
  by (auto simp: joins_def elim!: completes_all_ConsE intro: all_Cons)

lemma completes_all_Nil_set [simp]: "{U. completes_all ops [] U} = {{}}"
  by (auto elim: completes_all_NilE intro: all_Nil)

lemma completes_Call_set:
  "dget ops oid = Some oper \<Longrightarrow>
     {U. completes ops (CallStep i oid args) U} = {set (http_scopes (http_contract oper))}"
  by (auto elim: completes_CallE intro: call)

lemma completes_Branch_set:
  "{U. completes ops (BranchStep i c ts es) U} = {U. completes_all ops ts U} \<union> {U. completes_all ops es U}"
  by (auto elim: completes_BranchE intro: then_ else_)

lemma completes_Parallel_set: "{U. completes ops (ParallelStep i ss) U} = {U. completes_all ops ss U}"
  by (auto elim: completes_ParallelE intro: parallel)

lemma completes_Foreach_literal_set:
  "{U. completes ops (ForeachStep i (JArr vs) nm mx body) U} = {U. completes_times ops body (length vs) U}"
  by (auto elim: completes_ForeachE intro: foreach_literal)

lemma completes_Foreach_dynamic_set:
  "\<nexists>vs. items = JArr vs \<Longrightarrow>
     {U. completes ops (ForeachStep i items nm mx body) U} = {U. \<exists>n. completes_times ops body n U}"
  by (auto elim!: completes_ForeachE intro: foreach_dynamic)

lemma completes_plain_sets:
  "Collect (completes ops (PickStep i v fs)) = {{}}" "Collect (completes ops (MapStep i v e n)) = {{}}"
  "Collect (completes ops (FilterStep i v e n)) = {{}}" "Collect (completes ops (AssertStep i e m)) = {{}}"
  "Collect (completes ops (RedactStep i v fs)) = {{}}" "Collect (completes ops (EmitStep i v)) = {{}}"
  by (auto simp: completes_plain)

lemma describes_branch:
  assumes "describes t C" "describes e D"
  shows "describes (combine_branch t e) (C \<union> D)"
proof (rule describesI)
  note T = describesD [OF assms(1)] and E = describesD [OF assms(2)]
  let ?as = "alternatives t @ alternatives e"
  have alts: "alternatives (combine_branch t e) = minimal_antichain ?as" by (simp add: combine_branch_def)
  show "C \<union> D \<noteq> {}" using T(1) by blast
  show "\<exists>a \<in> set (alternatives (combine_branch t e)). a \<subseteq> U" if "U \<in> C \<union> D" for U
  proof -
    have "\<exists>a \<in> set ?as. a \<subseteq> U" using T(2) [of U] E(2) [of U] that by auto
    then show ?thesis by (simp add: alts minimal_antichain_some_subset)
  qed
  show "a \<in> C \<union> D" if "a \<in> set (alternatives (combine_branch t e))" for a
  proof -
    have "a \<in> set ?as" using that minimal_antichain_subset [of ?as] by (auto simp: alts)
    then show ?thesis using T(3) [of a] E(3) [of a] by auto
  qed
  show "always_scopes (combine_branch t e) = \<Inter>(C \<union> D)"
    by (simp add: combine_branch_def T(4) E(4) Inter_Un_distrib)
  show "feasible_union (combine_branch t e) = \<Union>(C \<union> D)"
    by (simp add: combine_branch_def T(5) E(5))
  show "feasible_union (combine_branch t e) \<subseteq> structural_union (combine_branch t e)"
    using T(6) E(6) by (auto simp: combine_branch_def)
qed

lemma analyze_describes:
  "analyze_step ops s = Inr r \<Longrightarrow> describes r {U. completes ops s U}"
  "analyze_from ops acc ss = Inr r \<Longrightarrow> describes acc C \<Longrightarrow>
     describes r (joins C {U. completes_all ops ss U})"
proof (induction ops s and ops acc ss arbitrary: r and r C rule: analyze_step_analyze_from.induct)
  case (1 ops i oid args)
  then obtain oper where oper: "dget ops oid = Some oper" by (cases "dget ops oid") auto
  with 1 show ?case by (auto simp: completes_Call_set [OF oper] Let_def)
next
  case (2 ops i c ts es)
  then obtain t e where t: "analyze_steps ops ts = Inr t" and e: "analyze_steps ops es = Inr e"
    and r: "r = combine_branch t e"
    by (auto simp: rbind_Inr_iff)
  from 2(1) [OF t describes_empty] 2(2) [OF t e describes_empty]
  show ?case unfolding r completes_Branch_set by (intro describes_branch) simp_all
next
  case (3 ops i ss)
  then show ?case using 3(1) [OF _ describes_empty] by (simp add: completes_Parallel_set)
next
  case (4 ops i items nm mx body)
  then obtain b where b: "analyze_steps ops body = Inr b" by (auto simp: rbind_Inr_iff)
  from 4(1) [OF b describes_empty] have d: "describes b {U. completes_all ops body U}" by simp
  from 4(2) b have r: "r = combine_foreach items b" by simp
  have none: "{U. completes_times ops body 0 U} = {{}}"
    by (auto elim: completes_times_0E intro: times_0)
  have empty: "describes (combine_foreach (JArr []) b) {{}}"
    by (rule describesI) simp_all
  have dyn: "describes (optional_path b) {U. \<exists>n. completes_times ops body n U}"
    using d by (rule describes_any_times)
  show ?case
  proof (cases items)
    case (JArr vs)
    show ?thesis
    proof (cases vs)
      case Nil
      show ?thesis unfolding r JArr Nil completes_Foreach_literal_set using none empty by simp
    next
      case (Cons v vs')
      show ?thesis unfolding r JArr Cons completes_Foreach_literal_set
        using describes_times [OF d] by simp
    qed
  qed (use dyn in \<open>simp_all add: r completes_Foreach_dynamic_set\<close>)
next
  case (7 ops acc s ss)
  then obtain q where q: "analyze_step ops s = Inr q" and r: "analyze_from ops (combine_required acc q) ss = Inr r"
    by (auto simp: rbind_Inr_iff)
  from 7(1) [OF q] 7(4) have "describes (combine_required acc q) (joins C {U. completes ops s U})"
    by (intro describes_combine)
  from 7(2) [OF q r this] show ?case by (simp add: completes_all_Cons_set joins_assoc)
qed (simp_all add: completes_plain_sets)

text \<open>The completions of a whole capability: its own runs together with its policy's scopes.\<close>

definition capability_completions :: "operations \<Rightarrow> capability \<Rightarrow> string list \<Rightarrow> scope_set set" where
  "capability_completions ops c policy_scopes =
     joins {set policy_scopes}
       (case cap_body c of
          ReadBody w \<Rightarrow> {U. completes_all ops w U}
        | ActionBody a pre com \<Rightarrow> joins {U. completes_all ops pre U} {U. completes_all ops com U})"

lemma analyze_capability_describes:
  assumes "analyze_capability c ps ops = Inr r"
  shows "describes \<lparr>alternatives = completion_alternatives r, always_scopes = always_required r,
           feasible_union = always_required r \<union> conditionally_required r,
           structural_union = all_referenced r\<rparr> (capability_completions ops c ps)"
proof -
  let ?C = "case cap_body c of ReadBody w \<Rightarrow> {U. completes_all ops w U}
        | ActionBody a pre com \<Rightarrow> joins {U. completes_all ops pre U} {U. completes_all ops com U}"
  obtain w where w: "describes w ?C"
    and r: "r = \<lparr>req_capability = cap_id c, policy_always = set ps,
              always_required = always_scopes w \<union> set ps,
              conditionally_required = feasible_union w \<union> set ps - (always_scopes w \<union> set ps),
              all_referenced = structural_union w \<union> set ps,
              completion_alternatives = minimal_antichain (map (\<lambda>a. a \<union> set ps) (alternatives w))\<rparr>"
  proof (cases "cap_body c")
    case (ReadBody v)
    with assms obtain w where "analyze_steps ops v = Inr w" by (auto simp: analyze_capability_def rbind_Inr_iff)
    with assms ReadBody analyze_describes(2) [OF this describes_empty] show ?thesis
      by (intro that [of w]) (auto simp: analyze_capability_def Let_def)
  next
    case (ActionBody a pre com)
    with assms obtain p k where p: "analyze_steps ops pre = Inr p" and k: "analyze_steps ops com = Inr k"
      by (auto simp: analyze_capability_def rbind_Inr_iff)
    have "describes p {U. completes_all ops pre U}" "describes k {U. completes_all ops com U}"
      using analyze_describes(2) [OF p describes_empty] analyze_describes(2) [OF k describes_empty] by simp_all
    with assms ActionBody p k show ?thesis
      by (intro that [of "combine_required p k"])
        (auto simp: analyze_capability_def Let_def intro: describes_combine)
  qed
  let ?P = "\<lparr>alternatives = [set ps], always_scopes = set ps, feasible_union = set ps, structural_union = set ps\<rparr>"
  let ?R = "combine_required ?P w"
  from describes_combine [OF describes_single [of "set ps"] w] have R: "describes ?R (capability_completions ops c ps)"
    by (simp add: capability_completions_def)
  have "always_scopes w \<subseteq> feasible_union w"
    unfolding describesD(4,5) [OF w] using describesD(1) [OF w] by blast
  moreover have comm: "(\<lambda>a. a \<union> set ps) = (\<union>) (set ps)" by (auto simp: fun_eq_iff)
  ultimately have "\<lparr>alternatives = completion_alternatives r, always_scopes = always_required r,
           feasible_union = always_required r \<union> conditionally_required r,
           structural_union = all_referenced r\<rparr> = ?R"
    by (auto simp: r combine_required_def comm)
  with R show ?thesis by simp
qed

end
