(* ===== verification/Principal.thy ===== *)
theory Principal
  imports Json
begin

text \<open>
  \<^verbatim>\<open>acc_runtime/context.py\<close>: the trusted identity of one request. Source permissions
  are mapped to ACC scopes and cut down to the deployment ceiling; tenant context is a frozen JSON
  value, and a binding to it is resolved only through an allowlist and never through a segment that
  names authentication material. Field names are ASCII here (the binding pattern admits nothing
  else), so the NFKC normalization of \<open>normalize_security_name\<close> is the identity.
\<close>

section \<open>Scopes\<close>

definition validated_text :: "string \<Rightarrow> py_error + string" where
  "validated_text v = (if strip v = [] \<or> list_ex is_control v then Inl ValueError else Inr v)"

definition scope_set_of :: "string list \<Rightarrow> py_error + string set" where
  "scope_set_of scopes = rbind (traverse validated_text scopes) (\<lambda>xs. Inr (set xs))"

definition validated_scope_mapping ::
    "(string, string list) dict \<Rightarrow> py_error + (string, string set) dict" where
  "validated_scope_mapping m =
     traverse (\<lambda>(s, ts). rbind (validated_text s) (\<lambda>s'. rbind (scope_set_of ts) (\<lambda>T. Inr (s', T)))) m"

definition mapped_scopes :: "(string, string set) dict \<Rightarrow> string set \<Rightarrow> string set" where
  "mapped_scopes m source = (\<Union>s \<in> source. case dget m s of None \<Rightarrow> {} | Some T \<Rightarrow> T)"

definition map_effective_scopes ::
    "string list option \<Rightarrow> string list \<Rightarrow> (string, string list) dict \<Rightarrow> py_error + string set" where
  "map_effective_scopes source_scopes deployment_scope_ceiling scope_mapping =
     rbind (scope_set_of deployment_scope_ceiling) (\<lambda>ceil.
     rbind (validated_scope_mapping scope_mapping) (\<lambda>m.
       case source_scopes of
         None \<Rightarrow> Inr ceil
       | Some src \<Rightarrow> rbind (scope_set_of src) (\<lambda>source. Inr (mapped_scopes m source \<inter> ceil))))"

lemma traverse_validated_text:
  "traverse validated_text xs = Inr ys \<longleftrightarrow> ys = xs \<and> (\<forall>x \<in> set xs. validated_text x = Inr x)"
  by (induction xs arbitrary: ys) (auto simp: rbind_Inr_iff validated_text_def split: if_splits)

lemma mapped_scopes_iff:
  "t \<in> mapped_scopes m S \<longleftrightarrow> (\<exists>s \<in> S. \<exists>T. dget m s = Some T \<and> t \<in> T)"
  by (force simp: mapped_scopes_def split: option.splits)

lemma scope_set_of_Inr:
  "scope_set_of xs = Inr S \<longleftrightarrow> S = set xs \<and> (\<forall>x \<in> set xs. validated_text x = Inr x)"
  by (auto simp: scope_set_of_def rbind_Inr_iff traverse_validated_text)

lemma validated_scope_mapping_Inr:
  "validated_scope_mapping m = Inr m' \<Longrightarrow> m' = map (\<lambda>(s, ts). (s, set ts)) m"
proof (induction m arbitrary: m')
  case (Cons p m)
  then show ?case
    by (cases p) (auto simp: validated_scope_mapping_def rbind_Inr_iff scope_set_of_Inr validated_text_def split: if_splits)
qed (simp add: validated_scope_mapping_def)

lemma map_effective_scopes_Inr:
  "map_effective_scopes src ceil m = Inr S \<Longrightarrow>
     S = (case src of None \<Rightarrow> set ceil
          | Some ss \<Rightarrow> mapped_scopes (map (\<lambda>(s, ts). (s, set ts)) m) (set ss) \<inter> set ceil)"
  by (auto simp: map_effective_scopes_def rbind_Inr_iff scope_set_of_Inr dest!: validated_scope_mapping_Inr
      split: option.splits)

lemma dget_mapping_sets: "dget (map (\<lambda>(s, ts). (s, set ts)) m) s = map_option set (dget m s)"
  by (induction m) auto

section \<open>Frozen JSON\<close>

fun freeze_json :: "json \<Rightarrow> py_error + json" where
  "freeze_json (JFloat f) = (if float_finite f then Inr (JFloat f) else Inl ValueError)"
| "freeze_json (JArr xs) = rbind (traverse freeze_json xs) (\<lambda>ys. Inr (JArr ys))"
| "freeze_json (JObj fs) =
     rbind (traverse (\<lambda>p. rbind (freeze_json (snd p)) (\<lambda>v. Inr (fst p, v))) fs) (\<lambda>gs. Inr (JObj gs))"
| "freeze_json v = Inr v"

fun thaw_json :: "json \<Rightarrow> json" where
  "thaw_json (JArr xs) = JArr (map thaw_json xs)"
| "thaw_json (JObj fs) = JObj (map (\<lambda>p. (fst p, thaw_json (snd p))) fs)"
| "thaw_json v = v"

lemma thaw_json_id [simp]: "thaw_json v = v"
proof (induction v)
  case (JObj fs)
  then have "map (\<lambda>p. (fst p, thaw_json (snd p))) fs = map id fs"
    by (intro map_cong) (auto simp: snds.simps intro: prod_eqI)
  then show ?case by simp
qed (auto simp: map_idI)

lemma freeze_json_iff: "freeze_json v = (if json_finite v then Inr v else Inl ValueError)"
proof (induction v)
  case (JArr xs)
  have "traverse freeze_json xs = (if \<forall>x \<in> set xs. json_finite x then Inr xs else Inl ValueError)"
    using JArr by (induction xs) auto
  then show ?case by simp
next
  case (JObj fs)
  have "traverse (\<lambda>p. rbind (freeze_json (snd p)) (\<lambda>v. Inr (fst p, v))) fs
      = (if \<forall>p \<in> set fs. json_finite (snd p) then Inr fs else Inl ValueError)"
    using JObj by (induction fs) (auto simp: snds.simps)
  then show ?case by simp
qed auto

section \<open>The context\<close>

record principal_context =
  principal_id :: string
  gateway_session_id :: "string option"
  target_system_id :: string
  source_scopes :: "string set option"
  scope_ceiling :: "string set"
  effective_scopes :: "string set"
  tenant_context :: "json option"
  auth_state_handle :: string

text \<open>\<open>PrincipalContext.__init__\<close>, checks in the code's order.\<close>

definition make_principal_context ::
    "string \<Rightarrow> string option \<Rightarrow> string \<Rightarrow> string list option \<Rightarrow> string list \<Rightarrow> json option \<Rightarrow>
     string \<Rightarrow> (string, string list) dict \<Rightarrow> py_error + principal_context" where
  "make_principal_context pid sid tid source ceil tenant handle mapping =
     rbind (validated_text pid) (\<lambda>pid'.
     rbind (case sid of None \<Rightarrow> Inr None | Some s \<Rightarrow> rbind (validated_text s) (\<lambda>s'. Inr (Some s'))) (\<lambda>sid'.
     rbind (validated_text tid) (\<lambda>tid'.
     if sid \<noteq> None \<and> source = None then Inl ValueError
     else
     rbind (validated_text handle) (\<lambda>handle'.
     rbind (scope_set_of ceil) (\<lambda>ceil'.
     rbind (case source of None \<Rightarrow> Inr None | Some s \<Rightarrow> rbind (scope_set_of s) (\<lambda>s'. Inr (Some s'))) (\<lambda>source'.
     rbind (map_effective_scopes source ceil mapping) (\<lambda>effective.
     rbind (case tenant of None \<Rightarrow> Inr None | Some t \<Rightarrow> rbind (freeze_json t) (\<lambda>t'. Inr (Some t'))) (\<lambda>tenant'.
       Inr \<lparr>principal_id = pid', gateway_session_id = sid', target_system_id = tid',
            source_scopes = source', scope_ceiling = ceil', effective_scopes = effective,
            tenant_context = tenant', auth_state_handle = handle'\<rparr>))))))))"

text \<open>
  What every constructed context satisfies: effective scopes lie in the ceiling; with known source
  scopes every effective scope is a target of one of them; a gateway context has source scopes.
\<close>

definition context_ok :: "(string, string list) dict \<Rightarrow> principal_context \<Rightarrow> bool" where
  "context_ok m c \<longleftrightarrow>
     effective_scopes c \<subseteq> scope_ceiling c \<and>
     (gateway_session_id c \<noteq> None \<longrightarrow> source_scopes c \<noteq> None) \<and>
     (case source_scopes c of
        None \<Rightarrow> effective_scopes c = scope_ceiling c
      | Some S \<Rightarrow> effective_scopes c =
          {t \<in> scope_ceiling c. \<exists>s \<in> S. \<exists>ts. dget m s = Some ts \<and> t \<in> set ts}) \<and>
     (case tenant_context c of None \<Rightarrow> True | Some t \<Rightarrow> json_finite t)"

lemma make_principal_context_ok:
  assumes "make_principal_context pid sid tid source ceil tenant handle mapping = Inr c"
  shows "context_ok mapping c"
proof -
  from assms obtain eff tenant' where
    eff: "map_effective_scopes source ceil mapping = Inr eff"
    and ten: "(case tenant of None \<Rightarrow> Inr None | Some t \<Rightarrow> rbind (freeze_json t) (\<lambda>t'. Inr (Some t'))) = Inr tenant'"
    and c: "effective_scopes c = eff" "scope_ceiling c = set ceil"
      "source_scopes c = map_option set source" "tenant_context c = tenant'"
      "gateway_session_id c \<noteq> None \<longrightarrow> source \<noteq> None"
    unfolding make_principal_context_def rbind_Inr_iff
    by (auto simp: rbind_Inr_iff scope_set_of_Inr split: if_splits option.splits)
  from ten have "case tenant' of None \<Rightarrow> True | Some t \<Rightarrow> json_finite t"
    by (auto simp: freeze_json_iff split: option.splits if_splits)
  moreover have "eff = (case source of None \<Rightarrow> set ceil | Some ss \<Rightarrow>
      {t \<in> set ceil. \<exists>s \<in> set ss. \<exists>ts. dget mapping s = Some ts \<and> t \<in> set ts})"
    unfolding map_effective_scopes_Inr [OF eff]
    by (cases source) (auto simp: mapped_scopes_iff dget_mapping_sets; blast)+
  ultimately show ?thesis using c by (auto simp: context_ok_def split: option.splits)
qed

section \<open>Security names\<close>

text \<open>
  \<open>([A-Z]+)([A-Z][a-z])\<close> puts an underscore before the last capital of a run that a lowercase
  letter follows; \<open>([a-z0-9])([A-Z])\<close> one before a capital after a lowercase letter or digit.
\<close>

fun split_acronyms :: "string \<Rightarrow> string" where
  "split_acronyms (x # y # z # s) =
     (if is_ascii_upper x \<and> is_ascii_upper y \<and> is_ascii_lower z
      then x # CHR ''_'' # split_acronyms (y # z # s) else x # split_acronyms (y # z # s))"
| "split_acronyms s = s"

fun split_words :: "string \<Rightarrow> string" where
  "split_words (x # y # s) =
     (if (is_ascii_lower x \<or> is_ascii_digit x) \<and> is_ascii_upper y
      then x # CHR ''_'' # split_words (y # s) else x # split_words (y # s))"
| "split_words s = s"

fun collapse_separators :: "string \<Rightarrow> string" where
  "collapse_separators [] = []"
| "collapse_separators (c # s) =
     (if is_ascii_alpha c \<or> is_ascii_digit c then c # collapse_separators s
      else (case collapse_separators s of
              [] \<Rightarrow> ''_''
            | d # r \<Rightarrow> if d = CHR ''_'' then d # r else CHR ''_'' # d # r))"

definition strip_underscores :: "string \<Rightarrow> string" where
  "strip_underscores s =
     rev (dropWhile (\<lambda>c. c = CHR ''_'') (rev (dropWhile (\<lambda>c. c = CHR ''_'') s)))"

definition lower_char :: "char \<Rightarrow> char" where
  "lower_char c = (if is_ascii_upper c then char_of (of_char c + (32 :: nat)) else c)"

definition normalize_security_name :: "string \<Rightarrow> string" where
  "normalize_security_name name =
     map lower_char (strip_underscores (collapse_separators (split_words (split_acronyms name))))"

definition denied_tenant_words :: "string list" where
  "denied_tenant_words =
     [''secret'', ''token'', ''password'', ''authorization'', ''credential'', ''credentials'',
      ''cookie'', ''cookies'', ''jwt'', ''bearer'', ''csrf'']"

definition denied_tenant_plural_words :: "(string, string) dict" where
  "denied_tenant_plural_words =
     [(''cookies'', ''cookie''), (''credentials'', ''credential''), (''jwts'', ''jwt''),
      (''passwords'', ''password''), (''secrets'', ''secret''), (''tokens'', ''token'')]"

definition sensitive_compact_markers :: "(string, string) dict" where
  "sensitive_compact_markers =
     [(''accesstoken'', ''access_token''), (''refreshtoken'', ''refresh_token''),
      (''authtoken'', ''auth_token''), (''oauthtoken'', ''oauth_token''),
      (''idtoken'', ''id_token''), (''apitoken'', ''api_token''), (''jwttoken'', ''jwt_token''),
      (''sessiontoken'', ''session_token''), (''passwordhash'', ''password_hash''),
      (''authorizationheader'', ''authorization_header''), (''clientsecret'', ''client_secret''),
      (''apisecret'', ''api_secret''), (''apikey'', ''api_key''), (''xapikey'', ''api_key''),
      (''privatekey'', ''private_key''), (''setcookie'', ''set_cookie'')]"

definition sensitive_auth_name_marker :: "string \<Rightarrow> string option" where
  "sensitive_auth_name_marker name =
     (let normalized = normalize_security_name name;
          words = split_on (CHR ''_'') normalized;
          compact = filter (\<lambda>c. c \<noteq> CHR ''_'') normalized
      in if normalized \<in> {''header'', ''headers''} then Some normalized
         else case dget sensitive_compact_markers compact of
           Some canonical \<Rightarrow> Some canonical
         | None \<Rightarrow>
             (case sorted_set (filter (\<lambda>w. w \<in> set denied_tenant_words) words) of
                w # _ \<Rightarrow> Some w
              | [] \<Rightarrow>
                  (case filter (\<lambda>(plural, canonical). plural \<in> set words) denied_tenant_plural_words of
                     (plural, canonical) # _ \<Rightarrow> Some canonical
                   | [] \<Rightarrow>
                       if ''api'' \<in> set words \<and> (''key'' \<in> set words \<or> ''keys'' \<in> set words)
                       then Some ''api_key''
                       else if ''private'' \<in> set words \<and> (''key'' \<in> set words \<or> ''keys'' \<in> set words)
                       then Some ''private_key''
                       else if ''set'' \<in> set words \<and> ''cookie'' \<in> set words then Some ''set_cookie''
                       else None)))"

definition segment_is_sensitive :: "string \<Rightarrow> bool" where
  "segment_is_sensitive s = (sensitive_auth_name_marker s \<noteq> None)"

section \<open>Context bindings\<close>

text \<open>\<open>_TENANT_CONTEXT_PATH\<close>: \<open>tenant_context\<close> and one or more dotted identifiers.\<close>

definition tenant_segment_ok :: "string \<Rightarrow> bool" where
  "tenant_segment_ok s = (case s of [] \<Rightarrow> False | c # r \<Rightarrow> is_ascii_alpha c \<and> list_all is_urlsafe r)"

definition tenant_path :: "string \<Rightarrow> string list option" where
  "tenant_path reference =
     (case split_on (CHR ''.'') reference of
        head # path \<Rightarrow>
          if head = ''tenant_context'' \<and> path \<noteq> [] \<and> list_all tenant_segment_ok path then Some path else None
      | [] \<Rightarrow> None)"

fun walk_context :: "json option \<Rightarrow> string list \<Rightarrow> py_error + json" where
  "walk_context (Some v) [] = Inr v"
| "walk_context None [] = Inr JNull"
| "walk_context (Some v) (s # ss) =
     (case jget v s of None \<Rightarrow> Inl ValueError | Some w \<Rightarrow> walk_context (Some w) ss)"
| "walk_context None (s # ss) = Inl ValueError"

definition resolve_context_binding ::
    "principal_context \<Rightarrow> string \<Rightarrow> string list \<Rightarrow> py_error + json" where
  "resolve_context_binding c reference allowlist =
     (if reference = ''principal_id'' then Inr (JStr (principal_id c))
      else case tenant_path reference of
        None \<Rightarrow> Inl ValueError
      | Some path \<Rightarrow>
          if list_ex segment_is_sensitive path then Inl ValueError
          else if reference \<notin> set allowlist then Inl ValueError
          else rbind (walk_context (tenant_context c) path) (\<lambda>v. Inr (thaw_json v)))"

lemma resolve_context_binding_Inr:
  "resolve_context_binding c r al = Inr v \<Longrightarrow>
     r = ''principal_id'' \<and> v = JStr (principal_id c) \<or>
     (\<exists>path. tenant_path r = Some path \<and> list_all (\<lambda>s. \<not> segment_is_sensitive s) path \<and>
        r \<in> set al \<and> walk_context (tenant_context c) path = Inr v)"
  by (auto simp: resolve_context_binding_def list_ex_iff list_all_iff rbind_Inr_iff
      split: if_splits option.splits)

end
