(* ===== verification/Callability.thy ===== *)
theory Callability
  imports Scopes Principal
begin

text \<open>
  \<^verbatim>\<open>acc_runtime/callability.py\<close>: which capabilities one deployment, one user and one
  request can complete, from the scope requirements the compiler sealed into the IR.
\<close>

datatype callability_error =
    DeploymentScopeInvalid
  | IrVersionInvalid
  | CapabilitiesInvalid
  | ScopeRequirementsInvalid
  | TypedScopeRequirementsInvalid
  | ProjectInvalid
  | PrincipalTargetMismatch
  | DeploymentScopeMismatch
  | PrincipalScopesInvalid

datatype callability_status = Callable | Conditional | Denied | Unknown

record dimension =
  dim_status :: callability_status
  available_scopes :: "scope_set option"
  missing_always :: scope_set
  missing_conditional :: scope_set
  unmet_alternatives :: "scope_set list"

definition dimension_of :: "scope_requirements \<Rightarrow> scope_set option \<Rightarrow> dimension" where
  "dimension_of r available =
     (case available of
        None \<Rightarrow> \<lparr>dim_status = Unknown, available_scopes = None, missing_always = {},
                 missing_conditional = {}, unmet_alternatives = []\<rparr>
      | Some av \<Rightarrow>
          \<lparr>dim_status =
             (if always_required r \<union> conditionally_required r \<subseteq> av then Callable
              else if list_ex (\<lambda>a. a \<subseteq> av) (completion_alternatives r) then Conditional
              else Denied),
           available_scopes = Some av,
           missing_always = always_required r - av,
           missing_conditional = conditionally_required r - av,
           unmet_alternatives = map (\<lambda>a. a - av) (filter (\<lambda>a. \<not> a \<subseteq> av) (completion_alternatives r))\<rparr>)"

record capability_callability =
  cc_requirements :: scope_requirements
  cc_deployment :: dimension
  cc_user :: dimension
  cc_effective :: dimension

definition capability_callability_of ::
    "scope_requirements \<Rightarrow> scope_set \<Rightarrow> scope_set option \<Rightarrow> scope_set option \<Rightarrow> capability_callability" where
  "capability_callability_of r deployment user effective =
     \<lparr>cc_requirements = r, cc_deployment = dimension_of r (Some deployment),
      cc_user = dimension_of r user, cc_effective = dimension_of r effective\<rparr>"

section \<open>Requirements from the IR\<close>

text \<open>\<open>_validate_requirement\<close>\<close>

definition requirement_ok :: "scope_requirements \<Rightarrow> bool" where
  "requirement_ok r \<longleftrightarrow>
     \<not> (completion_alternatives r = []
        \<or> \<not> policy_always r \<subseteq> always_required r
        \<or> always_required r \<inter> conditionally_required r \<noteq> {}
        \<or> \<not> always_required r \<union> conditionally_required r \<subseteq> all_referenced r
        \<or> list_ex (\<lambda>a. \<not> always_required r \<subseteq> a) (completion_alternatives r))"

text \<open>\<open>_string_array\<close>; \<open>raw.get(k)\<close> of a missing key is \<open>None\<close> and fails the list test.\<close>

fun string_items :: "json list \<Rightarrow> string list option" where
  "string_items [] = Some []"
| "string_items (JStr s # xs) =
     (if s = [] then None else map_option (\<lambda>ys. s # ys) (string_items xs))"
| "string_items (_ # xs) = None"

fun string_array :: "json option \<Rightarrow> callability_error + scope_set" where
  "string_array (Some (JArr xs)) =
     (case string_items xs of None \<Rightarrow> Inl ScopeRequirementsInvalid | Some ss \<Rightarrow> Inr (set ss))"
| "string_array _ = Inl ScopeRequirementsInvalid"

definition requirements_from_mapping :: "string \<Rightarrow> json option \<Rightarrow> callability_error + scope_requirements" where
  "requirements_from_mapping cid raw =
     (case raw of
        Some (JObj fs) \<Rightarrow>
          rbind (string_array (dget fs ''policy_always_required'')) (\<lambda>policy.
          rbind (string_array (dget fs ''always_required'')) (\<lambda>always.
          rbind (string_array (dget fs ''conditionally_required'')) (\<lambda>conditional.
          rbind (string_array (dget fs ''all_referenced'')) (\<lambda>referenced.
            case dget fs ''completion_alternatives'' of
              Some (JArr (a # as)) \<Rightarrow>
                rbind (traverse (\<lambda>x. string_array (Some x)) (a # as)) (\<lambda>alts.
                  let r = \<lparr>req_capability = cid, policy_always = policy, always_required = always,
                           conditionally_required = conditional, all_referenced = referenced,
                           completion_alternatives = alts\<rparr>
                  in rbind (ensure (requirement_ok r) ScopeRequirementsInvalid) (\<lambda>_. Inr r))
            | _ \<Rightarrow> Inl ScopeRequirementsInvalid))))
      | _ \<Rightarrow> Inl ScopeRequirementsInvalid)"

definition requirements_from_ir :: "json \<Rightarrow> callability_error + (string, scope_requirements) dict" where
  "requirements_from_ir ir =
     (case jget ir ''capabilities'' of
        Some (JObj caps) \<Rightarrow>
          traverse (\<lambda>(cid, raw).
            case raw of
              JObj compiled \<Rightarrow>
                rbind (requirements_from_mapping cid (dget compiled ''scope_requirements'')) (\<lambda>r. Inr (cid, r))
            | _ \<Rightarrow> Inl CapabilitiesInvalid) caps
      | _ \<Rightarrow> Inl CapabilitiesInvalid)"

definition validated_typed_requirements ::
    "(string, scope_requirements) dict \<Rightarrow> callability_error + (string, scope_requirements) dict" where
  "validated_typed_requirements values =
     traverse (\<lambda>(cid, r).
       if req_capability r \<noteq> cid then Inl TypedScopeRequirementsInvalid
       else rbind (ensure (requirement_ok r) ScopeRequirementsInvalid) (\<lambda>_. Inr (cid, r))) values"

section \<open>The report\<close>

text \<open>\<open>_normalize_scopes\<close>\<close>

definition normalize_scopes :: "string list \<Rightarrow> callability_error + scope_set" where
  "normalize_scopes xs = (if list_ex (\<lambda>s. s = []) xs then Inl DeploymentScopeInvalid else Inr (set xs))"

text \<open>
  \<open>analyze_scope_callability\<close>. The typed project document is parsed by pydantic; \<open>project\<close> is
  its result, the target system id and the provider's scope mapping, or \<open>None\<close> when it is invalid.
  \<open>PrincipalScopesInvalid\<close> is the \<open>ValueError\<close> that \<open>map_effective_scopes\<close> lets through.
\<close>

definition user_and_effective ::
    "scope_set \<Rightarrow> (string \<times> (string, string list) dict) option \<Rightarrow> principal_context option \<Rightarrow>
     (string, scope_requirements) dict \<Rightarrow> callability_error + scope_set option \<times> scope_set option" where
  "user_and_effective ceil project pctx reqs =
     (case pctx of
        None \<Rightarrow> Inr (None, None)
      | Some pc \<Rightarrow>
          (case project of
             None \<Rightarrow> Inl ProjectInvalid
           | Some (pid, mapping) \<Rightarrow>
               if target_system_id pc \<noteq> pid then Inl PrincipalTargetMismatch
               else if scope_ceiling pc \<noteq> ceil then Inl DeploymentScopeMismatch
               else (case source_scopes pc of
                   None \<Rightarrow> Inr (None, Some (effective_scopes pc))
                 | Some src \<Rightarrow>
                     let universe = \<Union>(all_referenced ` snd ` set reqs)
                     in if \<exists>s \<in> universe. validated_text s = Inl ValueError then Inl PrincipalScopesInvalid
                        else (case validated_scope_mapping mapping of
                           Inl e \<Rightarrow> Inl PrincipalScopesInvalid
                         | Inr m \<Rightarrow> Inr (Some (mapped_scopes m src \<inter> universe), Some (effective_scopes pc))))))"

definition analyze_scope_callability ::
    "json \<Rightarrow> string list \<Rightarrow> (string \<times> (string, string list) dict) option \<Rightarrow> principal_context option \<Rightarrow>
     (string, scope_requirements) dict option \<Rightarrow>
     callability_error + (string, capability_callability) dict" where
  "analyze_scope_callability ir ceiling_scopes project pctx typed =
     rbind (normalize_scopes ceiling_scopes) (\<lambda>ceil.
     if jget ir ''ir_version'' \<noteq> Some (JStr ''2'') then Inl IrVersionInvalid
     else
     rbind (case typed of Some t \<Rightarrow> validated_typed_requirements t | None \<Rightarrow> requirements_from_ir ir) (\<lambda>reqs.
     rbind (user_and_effective ceil project pctx reqs) (\<lambda>(user, eff).
       Inr (map (\<lambda>(cid, r). (cid, capability_callability_of r ceil user eff)) (sorted_items reqs)))))"

section \<open>Compiler output is accepted and classified exactly\<close>

lemma analyze_capability_ok:
  assumes "analyze_capability c ps ops = Inr r"
  shows "requirement_ok r"
proof -
  note D = describesD [OF analyze_capability_describes [OF assms], simplified]
  have pol: "policy_always r \<subseteq> always_required r" "always_required r \<inter> conditionally_required r = {}"
    using assms by (auto simp: analyze_capability_def rbind_Inr_iff Let_def)
  from D(1) obtain U where "U \<in> capability_completions ops c ps" by blast
  from D(2) [OF this] have "completion_alternatives r \<noteq> []" by auto
  moreover have "always_required r \<subseteq> a" if "a \<in> set (completion_alternatives r)" for a
    using D(3) [OF that] D(4) by blast
  ultimately show ?thesis using pol D(6) by (auto simp: requirement_ok_def list_ex_iff)
qed

lemma dimension_status_exact:
  assumes "analyze_capability c ps ops = Inr r"
  defines "C \<equiv> capability_completions ops c ps"
  shows "dim_status (dimension_of r (Some av)) =
      (if \<forall>U \<in> C. U \<subseteq> av then Callable else if \<exists>U \<in> C. U \<subseteq> av then Conditional else Denied)"
proof -
  note D = describesD [OF analyze_capability_describes [OF assms(1)], folded C_def, simplified]
  have "(\<forall>U \<in> C. U \<subseteq> av) \<longleftrightarrow> always_required r \<union> conditionally_required r \<subseteq> av"
    unfolding D(5) by blast
  moreover have "(\<exists>U \<in> C. U \<subseteq> av) \<longleftrightarrow> (\<exists>a \<in> set (completion_alternatives r). a \<subseteq> av)"
    using D(2,3) by (meson order_trans)
  ultimately show ?thesis by (simp add: dimension_of_def list_ex_iff)
qed

end
