(* ===== verification/PolicyEnforcer.thy ===== *)
theory PolicyEnforcer
  imports Json
begin

text \<open>
  \<^verbatim>\<open>acc_runtime/policies/enforcer.py\<close>: scope and tenant authorization of a call and the
  recursive disclosure filter over its result. Lists are transparent: a path names object keys only.
\<close>

section \<open>Policies\<close>

datatype redaction_strategy = RemoveField | MaskField | HashField

record redaction_rule =
  rule_path :: string
  rule_strategy :: redaction_strategy

datatype tenant_mode = TenantNone | TenantRequired

record policy =
  policy_id :: string
  required_scopes :: "string list"
  tenant_mode :: tenant_mode
  tenant_field :: "string option"
  readable_fields :: "string list"
  denied_fields :: "string list"
  redaction_rules :: "redaction_rule list"

text \<open>\<open>Policy.validate_tenant_field\<close>\<close>

definition policy_ok :: "policy \<Rightarrow> bool" where
  "policy_ok p \<longleftrightarrow>
     \<not> (tenant_mode p = TenantRequired \<and> tenant_field p = None) \<and>
     \<not> (tenant_mode p = TenantNone \<and> tenant_field p \<noteq> None)"

section \<open>Field paths\<close>

type_synonym field_path = "string list"

definition parse_path :: "string \<Rightarrow> field_path" where
  "parse_path value =
     (let v = (if prefix ''$.'' value then drop 2 value else value)
      in if prefix ''/'' v then map unescape_token (split_on (CHR ''/'') (drop 1 v))
         else filter (\<lambda>part. part \<noteq> []) (split_on (CHR ''.'') v))"

text \<open>\<open>_has_ancestor\<close> and \<open>_is_readable\<close>\<close>

definition has_ancestor :: "field_path \<Rightarrow> field_path list \<Rightarrow> bool" where
  "has_ancestor path candidates = list_ex (\<lambda>c. prefix c path) candidates"

definition is_readable :: "field_path \<Rightarrow> field_path list \<Rightarrow> bool" where
  "is_readable path readable = list_ex (\<lambda>rule. prefix rule path \<or> strict_prefix path rule) readable"

section \<open>Authorization\<close>

datatype policy_error =
    PolicyScopeDenied "string list"
  | PolicyTenantDenied
  | PolicyOutputInvalid

text \<open>\<open>_lookup\<close>: \<open>None\<close> is the sentinel \<open>_MISSING\<close>.\<close>

fun lookup_path :: "json \<Rightarrow> field_path \<Rightarrow> json option" where
  "lookup_path v [] = Some v"
| "lookup_path v (k # ks) = (case jget v k of None \<Rightarrow> None | Some w \<Rightarrow> lookup_path w ks)"

definition tenant_matches :: "policy \<Rightarrow> json \<Rightarrow> json option \<Rightarrow> bool" where
  "tenant_matches p arguments tenant_id =
     (case tenant_id of
        None \<Rightarrow> False
      | Some JNull \<Rightarrow> False
      | Some t \<Rightarrow>
          (case lookup_path arguments (parse_path (the (tenant_field p))) of
             None \<Rightarrow> False
           | Some actual \<Rightarrow> py_equal actual t))"

definition authorize :: "policy \<Rightarrow> string set \<Rightarrow> json \<Rightarrow> json option \<Rightarrow> policy_error + unit" where
  "authorize p granted arguments tenant_id =
     (let missing = filter (\<lambda>s. s \<notin> granted) (sorted_set (required_scopes p))
      in if missing \<noteq> [] then Inl (PolicyScopeDenied missing)
         else if tenant_mode p = TenantRequired \<and> \<not> tenant_matches p arguments tenant_id
         then Inl PolicyTenantDenied
         else Inr ())"

section \<open>The disclosure filter\<close>

definition stable_hash :: "crypto \<Rightarrow> json \<Rightarrow> policy_error + string" where
  "stable_hash cr v =
     (case json_digest cr v of None \<Rightarrow> Inl PolicyOutputInvalid | Some d \<Rightarrow> Inr (''sha256:'' @ d))"

record disclosure =
  d_readable :: "field_path list"
  d_denied :: "field_path list"
  d_redactions :: "(field_path, redaction_rule) dict"

text \<open>\<open>_REMOVED\<close> is \<open>None\<close>.\<close>

function filter_node :: "crypto \<Rightarrow> disclosure \<Rightarrow> field_path \<Rightarrow> json \<Rightarrow> policy_error + json option" where
  "filter_node cr d path v =
     (if has_ancestor path (d_denied d) then Inr None
      else if path \<noteq> [] \<and> \<not> is_readable path (d_readable d) then Inr None
      else (case dget (d_redactions d) path of
         Some rule \<Rightarrow>
           (case rule_strategy rule of
              RemoveField \<Rightarrow> Inr None
            | MaskField \<Rightarrow> Inr (Some (JStr ''***''))
            | HashField \<Rightarrow> rbind (stable_hash cr v) (\<lambda>h. Inr (Some (JStr h))))
       | None \<Rightarrow>
           (case v of
              JObj fs \<Rightarrow>
                rbind (traverse (\<lambda>p. rbind (filter_node cr d (path @ [fst p]) (snd p)) (\<lambda>c. Inr (fst p, c)))
                         (sorted_items fs))
                  (\<lambda>cs. Inr (Some (JObj [(k, c). (k, Some c) \<leftarrow> cs])))
            | JArr xs \<Rightarrow>
                rbind (traverse (filter_node cr d path) xs)
                  (\<lambda>cs. Inr (Some (JArr [c. Some c \<leftarrow> cs])))
            | _ \<Rightarrow> Inr (Some v))))"
  by pat_completeness auto
termination
  by (relation "measure (\<lambda>(cr, d, path, v). size v)") (use json_size_obj json_size_arr in auto)

declare filter_node.simps [simp del]

definition disclosure_of :: "policy \<Rightarrow> disclosure" where
  "disclosure_of p =
     \<lparr>d_readable = map parse_path (readable_fields p),
      d_denied = map parse_path (denied_fields p),
      d_redactions = fold (\<lambda>r d. dset d (parse_path (rule_path r)) r) (redaction_rules p) []\<rparr>"

definition filter_output :: "crypto \<Rightarrow> policy \<Rightarrow> json \<Rightarrow> policy_error + json" where
  "filter_output cr p output =
     rbind (filter_node cr (disclosure_of p) [] output)
       (\<lambda>r. case r of None \<Rightarrow> Inr (JObj []) | Some v \<Rightarrow> Inr v)"

definition enforce ::
    "crypto \<Rightarrow> policy \<Rightarrow> string set \<Rightarrow> json \<Rightarrow> json option \<Rightarrow> json \<Rightarrow> policy_error + json" where
  "enforce cr p granted arguments tenant_id output =
     rbind (authorize p granted arguments tenant_id) (\<lambda>_. filter_output cr p output)"

section \<open>What the filter discloses\<close>

text \<open>\<open>occurs v p u\<close>: the value \<open>u\<close> stands at field path \<open>p\<close> of \<open>v\<close>.\<close>

inductive occurs :: "json \<Rightarrow> field_path \<Rightarrow> json \<Rightarrow> bool" where
  here: "occurs v [] v"
| field: "(k, w) \<in> set fs \<Longrightarrow> occurs w p u \<Longrightarrow> occurs (JObj fs) (k # p) u"
| item: "x \<in> set xs \<Longrightarrow> occurs x p u \<Longrightarrow> occurs (JArr xs) p u"

inductive_cases occurs_ObjE: "occurs (JObj fs) p u"
inductive_cases occurs_ArrE: "occurs (JArr xs) p u"
inductive_cases occurs_StrE: "occurs (JStr s) p u"

text \<open>The specification: the policy admits the path, and no redaction rule is met on the way to it.\<close>

definition may_disclose :: "disclosure \<Rightarrow> field_path \<Rightarrow> bool" where
  "may_disclose d p \<longleftrightarrow> \<not> has_ancestor p (d_denied d) \<and> (p = [] \<or> is_readable p (d_readable d))"

definition unredacted :: "disclosure \<Rightarrow> field_path \<Rightarrow> bool" where
  "unredacted d p \<longleftrightarrow> (\<forall>q \<in> set (prefixes p). dget (d_redactions d) q = None)"

lemma has_ancestor_prefix: "has_ancestor q cs \<Longrightarrow> prefix q p \<Longrightarrow> has_ancestor p cs"
  unfolding has_ancestor_def list_ex_iff by (meson prefix_order.order_trans)

lemma readable_rule_prefix:
  assumes "prefix r p \<or> strict_prefix p r" "prefix q p"
  shows "prefix r q \<or> strict_prefix q r"
proof (cases "prefix r q")
  case False
  with assms have "prefix q r"
    by (meson prefix_order.less_le prefix_order.order_trans prefix_same_cases)
  with False show ?thesis by (auto simp: strict_prefix_def)
qed simp

lemma is_readable_prefix: "is_readable p rs \<Longrightarrow> prefix q p \<Longrightarrow> is_readable q rs"
  unfolding is_readable_def list_ex_iff by (meson readable_rule_prefix)

lemma may_disclose_prefix: "may_disclose d p \<Longrightarrow> prefix q p \<Longrightarrow> may_disclose d q"
  unfolding may_disclose_def by (metis has_ancestor_prefix is_readable_prefix prefix_Nil)

lemma unredacted_prefix: "unredacted d p \<Longrightarrow> prefix q p \<Longrightarrow> unredacted d q"
  by (auto simp: unredacted_def)

lemma unredacted_self: "unredacted d p \<Longrightarrow> dget (d_redactions d) p = None"
  by (simp add: unredacted_def)

lemma filter_node_may_disclose: "filter_node cr d path v = Inr (Some w) \<Longrightarrow> may_disclose d path"
  by (auto simp: filter_node.simps [of cr d path v] may_disclose_def split: if_splits)

lemma filter_node_Some:
  assumes "filter_node cr d path v = Inr (Some w)"
  shows "\<not> has_ancestor path (d_denied d)" "path = [] \<or> is_readable path (d_readable d)"
    "dget (d_redactions d) path = Some rule \<Longrightarrow> rule_strategy rule \<noteq> RemoveField \<and> (\<exists>s. w = JStr s)"
  using assms
  by (auto simp: filter_node.simps [of cr d path v] rbind_Inr_iff split: if_splits option.splits redaction_strategy.splits)

text \<open>What stands where a rule redacts: the mask, or the digest of the node's value.\<close>

definition redacts_to :: "crypto \<Rightarrow> redaction_strategy \<Rightarrow> json \<Rightarrow> json \<Rightarrow> bool" where
  "redacts_to cr strategy v w \<longleftrightarrow>
     (case strategy of
        RemoveField \<Rightarrow> False
      | MaskField \<Rightarrow> w = JStr ''***''
      | HashField \<Rightarrow> (case json_digest cr v of None \<Rightarrow> False | Some h \<Rightarrow> w = JStr (''sha256:'' @ h)))"

lemma filter_node_redacted:
  assumes "filter_node cr d path v = Inr (Some w)" "dget (d_redactions d) path = Some rule"
  shows "redacts_to cr (rule_strategy rule) v w"
  using assms
  by (auto simp: filter_node.simps [of cr d path v] redacts_to_def stable_hash_def rbind_Inr_iff
      split: if_splits option.splits redaction_strategy.splits)

text \<open>How a kept node was built, when no rule redacts it.\<close>

lemma filter_node_Obj:
  assumes "filter_node cr d path (JObj fs) = Inr (Some w)" "dget (d_redactions d) path = None"
  obtains cs where "list_all2 (\<lambda>p c. fst c = fst p \<and> filter_node cr d (path @ [fst p]) (snd p) = Inr (snd c))
       (sorted_items fs) cs" "w = JObj [(k, c). (k, Some c) \<leftarrow> cs]"
  using assms
  by (auto simp: filter_node.simps [of cr d path "JObj fs"] rbind_Inr_iff traverse_Inr_iff
      split: if_splits elim!: list_all2_mono intro!: that)

lemma filter_node_Arr:
  assumes "filter_node cr d path (JArr xs) = Inr (Some w)" "dget (d_redactions d) path = None"
  obtains cs where "list_all2 (\<lambda>x c. filter_node cr d path x = Inr c) xs cs" "w = JArr [c. Some c \<leftarrow> cs]"
  using assms
  by (auto simp: filter_node.simps [of cr d path "JArr xs"] rbind_Inr_iff traverse_Inr_iff
      split: if_splits intro!: that)

lemma filter_node_scalar:
  assumes "filter_node cr d path v = Inr (Some w)" "dget (d_redactions d) path = None"
    "\<nexists>fs. v = JObj fs" "\<nexists>xs. v = JArr xs"
  shows "w = v"
  using assms by (simp add: filter_node.simps [of cr d path v] split: if_splits json.splits)

text \<open>
  Soundness: every node of the output stands at a path the policy admits, and is the filtered form
  of a node of the input at that same path.
\<close>

lemma filter_node_sound:
  "filter_node cr d path v = Inr (Some w) \<Longrightarrow> occurs w q u \<Longrightarrow>
     \<exists>u0. occurs v q u0 \<and> filter_node cr d (path @ q) u0 = Inr (Some u)"
proof (induction v arbitrary: path w q rule: measure_induct_rule [of size])
  case (less v)
  show ?case
  proof (cases "q = [] \<and> u = w")
    case True
    then show ?thesis using less.prems by (auto intro: occurs.here)
  next
    case inside: False
    have none: "dget (d_redactions d) path = None"
    proof (rule ccontr)
      assume "dget (d_redactions d) path \<noteq> None"
      then obtain s where "w = JStr s" using filter_node_Some(3) [OF less.prems(1)] by blast
      then show False using less.prems(2) inside by (auto elim: occurs_StrE)
    qed
    show ?thesis
    proof (cases "(\<exists>fs. v = JObj fs) \<or> (\<exists>xs. v = JArr xs)")
      case False
      then have "w = v" using filter_node_scalar less.prems(1) none by blast
      then show ?thesis using less.prems(2) inside False by (auto elim: occurs.cases)
    next
      case True
      then consider (obj) fs where "v = JObj fs" | (arr) xs where "v = JArr xs" by blast
      then show ?thesis
      proof cases
        case obj
        obtain cs where cs: "list_all2 (\<lambda>p c. fst c = fst p \<and> filter_node cr d (path @ [fst p]) (snd p) = Inr (snd c))
            (sorted_items fs) cs" and w: "w = JObj [(k, c). (k, Some c) \<leftarrow> cs]"
          by (rule filter_node_Obj [OF less.prems(1) [unfolded obj] none])
        obtain k c r where kc: "(k, Some c) \<in> set cs" and q: "q = k # r" "occurs c r u"
          using less.prems(2) inside unfolding w by (auto elim!: occurs_ObjE split: option.splits)
        obtain x where x: "(k, x) \<in> set fs" and fx: "filter_node cr d (path @ [k]) x = Inr (Some c)"
          using list_all2_right [OF cs kc] by auto
        have "size x < size v" using json_size_obj [OF x] obj by simp
        from less.IH [OF this fx q(2)] obtain u0
          where u0: "occurs x r u0" "filter_node cr d ((path @ [k]) @ r) u0 = Inr (Some u)" by blast
        have "occurs v q u0" unfolding obj q(1) using occurs.field [OF x u0(1)] .
        with u0(2) q(1) show ?thesis by auto
      next
        case arr
        obtain cs where cs: "list_all2 (\<lambda>x c. filter_node cr d path x = Inr c) xs cs"
          and w: "w = JArr [c. Some c \<leftarrow> cs]"
          by (rule filter_node_Arr [OF less.prems(1) [unfolded arr] none])
        obtain c where c: "Some c \<in> set cs" and q: "occurs c q u"
          using less.prems(2) inside unfolding w by (auto elim!: occurs_ArrE split: option.splits)
        obtain x where x: "x \<in> set xs" and fx: "filter_node cr d path x = Inr (Some c)"
          using list_all2_right [OF cs c] by auto
        have "size x < size v" using json_size_arr [OF x] arr by simp
        from less.IH [OF this fx q] obtain u0
          where u0: "occurs x q u0" "filter_node cr d (path @ q) u0 = Inr (Some u)" by blast
        have "occurs v q u0" unfolding arr using occurs.item [OF x u0(1)] .
        with u0(2) show ?thesis by blast
      qed
    qed
  qed
qed

text \<open>
  Completeness: a node whose path the policy admits and that no redaction rule touches on the way
  is disclosed.
\<close>

lemma filter_node_kept:
  "filter_node cr d path v = Inr r \<Longrightarrow> may_disclose d path \<Longrightarrow> dget (d_redactions d) path = None \<Longrightarrow>
     \<exists>w. r = Some w"
  by (auto simp: filter_node.simps [of cr d path v] may_disclose_def rbind_Inr_iff split: if_splits json.splits)

lemma filter_node_complete:
  "filter_node cr d path v = Inr r \<Longrightarrow> occurs v q u \<Longrightarrow> may_disclose d (path @ q) \<Longrightarrow>
     unredacted d (path @ q) \<Longrightarrow>
     \<exists>w u'. r = Some w \<and> occurs w q u' \<and> filter_node cr d (path @ q) u = Inr (Some u')"
proof (induction v arbitrary: path r q rule: measure_induct_rule [of size])
  case (less v)
  have here: "may_disclose d path" "dget (d_redactions d) path = None"
    using may_disclose_prefix [OF less.prems(3), of path] unredacted_prefix [OF less.prems(4), of path] unredacted_self by auto
  from filter_node_kept [OF less.prems(1) here] obtain w where w: "r = Some w" by blast
  have f: "filter_node cr d path v = Inr (Some w)" using less.prems(1) w by simp
  from less.prems(2) show ?case
  proof cases
    case here
    then show ?thesis using f w by (auto intro: occurs.here)
  next
    case (field k x fs p)
    obtain cs where cs: "list_all2 (\<lambda>p c. fst c = fst p \<and> filter_node cr d (path @ [fst p]) (snd p) = Inr (snd c))
        (sorted_items fs) cs" and weq: "w = JObj [(k, c). (k, Some c) \<leftarrow> cs]"
      by (rule filter_node_Obj [OF f [unfolded field(1)] here(2)])
    obtain c where c: "(k, c) \<in> set cs" "filter_node cr d (path @ [k]) x = Inr c"
      using list_all2_left [OF cs, of "(k, x)"] field(3) that by auto
    have "size x < size v" using json_size_obj [OF field(3)] field(1) by simp
    from less.IH [OF this c(2) field(4)] less.prems(3,4) field(2) obtain c' u'
      where "c = Some c'" "occurs c' p u'" "filter_node cr d (path @ q) u = Inr (Some u')" by auto
    moreover have "occurs w q u'" if "c = Some c'" "occurs c' p u'" for c' u'
      unfolding weq field(2) by (rule occurs.field [OF _ that(2)]) (use c(1) that(1) in force)
    ultimately show ?thesis using w by blast
  next
    case (item x xs)
    obtain cs where cs: "list_all2 (\<lambda>x c. filter_node cr d path x = Inr c) xs cs"
      and weq: "w = JArr [c. Some c \<leftarrow> cs]"
      by (rule filter_node_Arr [OF f [unfolded item(1)] here(2)])
    obtain c where c: "c \<in> set cs" "filter_node cr d path x = Inr c"
      using list_all2_left [OF cs item(2)] by auto
    have "size x < size v" using json_size_arr [OF item(2)] item(1) by simp
    from less.IH [OF this c(2) item(3)] less.prems(3,4) obtain c' u'
      where "c = Some c'" "occurs c' q u'" "filter_node cr d (path @ q) u = Inr (Some u')" by auto
    moreover have "occurs w q u'" if "c = Some c'" "occurs c' q u'" for c' u'
      unfolding weq by (rule occurs.item [OF _ that(2)]) (use c(1) that(1) in force)
    ultimately show ?thesis using w by blast
  qed
qed

text \<open>The result of \<open>filter_output\<close> at a nonempty path comes from the filter.\<close>

lemma filter_output_occurs:
  assumes "filter_output cr p output = Inr out" "occurs out q u" "q \<noteq> []"
  obtains u0 where "occurs output q u0" "filter_node cr (disclosure_of p) q u0 = Inr (Some u)"
proof -
  from assms(1) obtain r where r: "filter_node cr (disclosure_of p) [] output = Inr r"
    and out: "out = (case r of None \<Rightarrow> JObj [] | Some v \<Rightarrow> v)"
    by (auto simp: filter_output_def rbind_Inr_iff split: option.splits)
  show ?thesis
  proof (cases r)
    case None
    then show ?thesis using assms(2,3) out by (auto elim: occurs_ObjE)
  next
    case (Some w)
    then show ?thesis 
      using filter_node_sound [where path = "[]" and q = q and u = u and w = w] r out assms(2) that by fastforce
  qed
qed

lemma authorize_Inr:
  "authorize p granted arguments tenant_id = Inr u \<longleftrightarrow>
     set (required_scopes p) \<subseteq> granted \<and>
     (tenant_mode p = TenantRequired \<longrightarrow> tenant_matches p arguments tenant_id)"
  by (auto simp: authorize_def Let_def filter_empty_conv)

lemma filter_output_complete:
  assumes "filter_output cr p output = Inr out" "occurs output q u" "\<nexists>fs. u = JObj fs" "\<nexists>xs. u = JArr xs"
    and m: "may_disclose (disclosure_of p) q" "unredacted (disclosure_of p) q"
  shows "occurs out q u"
proof -
  from assms(1) obtain r where r: "filter_node cr (disclosure_of p) [] output = Inr r"
    and out: "out = (case r of None \<Rightarrow> JObj [] | Some v \<Rightarrow> v)"
    by (auto simp: filter_output_def rbind_Inr_iff split: option.splits)
  obtain w u' where w: "r = Some w" "occurs w q u'" "filter_node cr (disclosure_of p) q u = Inr (Some u')"
    using filter_node_complete [OF r assms(2)] m by auto
  have "u' = u" using filter_node_scalar [OF w(3) unredacted_self [OF m(2)]] assms(3,4) by blast
  with w out show ?thesis by simp
qed

lemma enforce_Inr:
  assumes "enforce cr p granted arguments tenant output = Inr out"
  shows "set (required_scopes p) \<subseteq> granted \<and>
     (tenant_mode p = TenantRequired \<longrightarrow>
        (\<exists>t v. tenant = Some t \<and> t \<noteq> JNull \<and>
           lookup_path arguments (parse_path (the (tenant_field p))) = Some v \<and> py_equal v t)) \<and>
     filter_output cr p output = Inr out"
proof -
  have a: "authorize p granted arguments tenant = Inr ()" "filter_output cr p output = Inr out"
    using assms by (auto simp: enforce_def rbind_Inr_iff)
  moreover have "\<exists>t v. tenant = Some t \<and> t \<noteq> JNull \<and>
      lookup_path arguments (parse_path (the (tenant_field p))) = Some v \<and> py_equal v t"
    if "tenant_matches p arguments tenant"
    using that by (auto simp: tenant_matches_def split: option.splits json.splits)
  ultimately show ?thesis by (simp add: authorize_Inr)
qed

end
