(* ===== verification/ActionStore.thy ===== *)
theory ActionStore
  imports Json
begin

text \<open>
  \<^verbatim>\<open>acc_runtime/actions/models.py\<close> and \<^verbatim>\<open>store.py\<close>: the prepared-Action records, the
  status graph and the in-memory Store. The Store protocol is the record \<open>store_ops\<close> of its
  operations and the locale \<open>action_store\<close> states what its clients rely on; the in-memory Store is
  proved to be an instance. Every operation returns its result (or the raised error) with the new
  Store, because a failing operation may still mark records expired. A clock reading is a
  \<open>rat option\<close>, \<open>None\<close> for a reading \<open>finite_time\<close> rejects.
\<close>

section \<open>Errors of the Action boundary\<close>

datatype action_error =
    HandleInvalid
  | BindingMismatch
  | ActionExpired
  | StateConflict
  | ApprovalInvalid
  | ApprovalExpired
  | CapabilityNotFound
  | DeploymentDenied
  | DeploymentConfiguration
  | ScopeDenied "string list"
  | PreviewInvalid
  | InputInvalid
  | AuditUnavailable
  | PythonError py_error
  | PayloadKeyError
  | OtherException
  | Cancelled

section \<open>Checked values\<close>

definition exact_identifier :: "string \<Rightarrow> action_error + string" where
  "exact_identifier v =
     (if v = [] \<or> v \<noteq> strip v then Inl (PythonError ValueError)
      else if list_ex is_control v then Inl (PythonError ValueError)
      else Inr v)"

definition optional_identifier :: "string option \<Rightarrow> action_error + string option" where
  "optional_identifier v =
     (case v of None \<Rightarrow> Inr None | Some s \<Rightarrow> rbind (exact_identifier s) (\<lambda>s'. Inr (Some s')))"

definition finite_time :: "rat option \<Rightarrow> action_error + rat" where
  "finite_time v = (case v of None \<Rightarrow> Inl (PythonError ValueError) | Some t \<Rightarrow> Inr t)"

definition validate_digest :: "string \<Rightarrow> action_error + unit" where
  "validate_digest v = ensure (is_digest v) (PythonError ValueError)"

definition is_pack_digest :: "string \<Rightarrow> bool" where
  "is_pack_digest v \<longleftrightarrow> prefix ''sha256:'' v \<and> is_digest (drop 7 v)"

definition validate_pack_digest :: "string \<Rightarrow> action_error + unit" where
  "validate_pack_digest v = ensure (is_pack_digest v) (PythonError ValueError)"

text \<open>\<open>hmac.new(salt, namespace + b"\x00" + value, sha256).hexdigest()\<close>\<close>

definition binding_digest :: "crypto \<Rightarrow> string \<Rightarrow> string \<Rightarrow> string \<Rightarrow> string" where
  "binding_digest cr salt namespace v = hmac_hex cr salt (namespace @ CHR 0x00 # utf8 v)"

text \<open>\<open>_HANDLE\<close> and \<open>_handle_digest\<close>: at least 43 characters of \<open>[A-Za-z0-9_-]\<close>.\<close>

definition is_handle :: "string \<Rightarrow> bool" where
  "is_handle h \<longleftrightarrow> 43 \<le> length h \<and> list_all is_urlsafe h"

definition handle_digest_of :: "crypto \<Rightarrow> string \<Rightarrow> action_error + string" where
  "handle_digest_of cr h = (if is_handle h then Inr (sha256_hex cr h) else Inl HandleInvalid)"

section \<open>Statuses\<close>

datatype action_status =
  Prepared | Approved | Committing | Succeeded | Failed | OutcomeUnknown | Expired

text \<open>\<open>_ALLOWED_TRANSITIONS\<close>\<close>

fun allowed_transitions :: "action_status \<Rightarrow> action_status set" where
  "allowed_transitions Prepared = {Approved}"
| "allowed_transitions Approved = {Committing}"
| "allowed_transitions Committing = {Succeeded, Failed, OutcomeUnknown}"
| "allowed_transitions OutcomeUnknown = {Succeeded}"
| "allowed_transitions _ = {}"

text \<open>The length of the way a record has gone; every transition and every expiry increases it.\<close>

fun status_rank :: "action_status \<Rightarrow> nat" where
  "status_rank Prepared = 0"
| "status_rank Approved = 1"
| "status_rank Committing = 2"
| "status_rank OutcomeUnknown = 3"
| "status_rank Succeeded = 4"
| "status_rank Failed = 4"
| "status_rank Expired = 5"

lemma allowed_rank: "t \<in> allowed_transitions s \<Longrightarrow> status_rank s < status_rank t"
  by (cases s) auto

text \<open>One status may follow another: unchanged, an allowed transition, or expiry.\<close>

definition status_leads :: "action_status \<Rightarrow> action_status \<Rightarrow> bool" where
  "status_leads s t \<longleftrightarrow> t = s \<or> t \<in> allowed_transitions s \<or> t = Expired"

lemma status_leads_refl [simp, intro]: "status_leads s s"
  by (simp add: status_leads_def)

lemma status_leads_Expired [simp, intro]: "status_leads s Expired"
  by (simp add: status_leads_def)

lemma status_leads_rank: "status_leads s t \<Longrightarrow> status_rank s \<le> status_rank t"
  by (cases s; cases t) (auto simp: status_leads_def)

section \<open>Records\<close>

record action_record =
  handle_digest :: string
  record_capability :: string
  principal_digest :: string
  session_digest :: "string option"
  record_pack :: string
  input_digest :: string
  preview_digest :: string
  created_at :: rat
  expires_at :: rat
  action_status :: action_status

text \<open>\<open>PreparedActionRecord.__post_init__\<close>\<close>

definition check_record :: "action_record \<Rightarrow> action_error + unit" where
  "check_record r =
     rbind (validate_digest (handle_digest r)) (\<lambda>_.
     rbind (exact_identifier (record_capability r)) (\<lambda>_.
     rbind (validate_digest (principal_digest r)) (\<lambda>_.
     rbind (case session_digest r of None \<Rightarrow> Inr () | Some s \<Rightarrow> validate_digest s) (\<lambda>_.
     rbind (validate_pack_digest (record_pack r)) (\<lambda>_.
     rbind (validate_digest (input_digest r)) (\<lambda>_.
     rbind (validate_digest (preview_digest r)) (\<lambda>_.
     ensure (created_at r < expires_at r) (PythonError ValueError))))))))"

text \<open>
  A payload is the canonical encoding of its value; the model keeps the value that decoding gives
  back. The third component is \<open>None\<close> until a result is persisted.
\<close>

type_synonym payload = "json \<times> json \<times> json option"

record prepared_state =
  state_record :: action_record
  input_value :: json
  preview_value :: json
  result_value :: json

record memory_store =
  store_salt :: string
  max_actions :: int
  store_records :: "(string, action_record) dict"
  store_payloads :: "(string, payload) dict"
  store_closed :: bool

text \<open>\<open>InMemoryActionStore.__init__\<close>\<close>

definition make_memory_store :: "bool \<Rightarrow> string \<Rightarrow> int \<Rightarrow> action_error + memory_store" where
  "make_memory_store development_only salt limit =
     (if \<not> development_only then Inl (PythonError ValueError)
      else if length salt < 16 then Inl (PythonError ValueError)
      else if limit \<le> 0 then Inl (PythonError ValueError)
      else Inr \<lparr>store_salt = salt, max_actions = limit, store_records = [],
                 store_payloads = [], store_closed = False\<rparr>)"

definition canonical_payload :: "crypto \<Rightarrow> json \<Rightarrow> action_error + json \<times> string" where
  "canonical_payload cr v =
     (case (canonical_copy v, json_digest cr v) of
        (Some c, Some d) \<Rightarrow> Inr (c, d) | _ \<Rightarrow> Inl (PythonError ValueError))"

text \<open>\<open>_expire_locked\<close>\<close>

definition expire_record :: "action_record \<Rightarrow> action_record" where
  "expire_record r = r\<lparr>action_status := Expired\<rparr>"

definition expire_all :: "rat \<Rightarrow> memory_store \<Rightarrow> memory_store" where
  "expire_all now st =
     st\<lparr>store_records := map (\<lambda>(d, r).
       (d, if expires_at r \<le> now \<and> action_status r \<noteq> Expired then expire_record r else r)) (store_records st)\<rparr>"

text \<open>\<open>_state_locked\<close>\<close>

definition state_of :: "memory_store \<Rightarrow> action_record \<Rightarrow> action_error + prepared_state" where
  "state_of st r =
     (case dget (store_payloads st) (handle_digest r) of
        None \<Rightarrow> Inl PayloadKeyError
      | Some (i, p, res) \<Rightarrow>
          Inr \<lparr>state_record = r, input_value = i, preview_value = p,
               result_value = (case res of None \<Rightarrow> JNull | Some v \<Rightarrow> v)\<rparr>)"

section \<open>Operations of the in-memory Store\<close>

record create_request =
  cr_capability :: string
  cr_principal :: string
  cr_session :: "string option"
  cr_pack :: string
  cr_input :: json
  cr_preview :: json
  cr_expires_in :: int

text \<open>The record \<open>create\<close> inserts once every check has passed.\<close>

definition new_record ::
    "crypto \<Rightarrow> memory_store \<Rightarrow> create_request \<Rightarrow> string \<Rightarrow> string \<Rightarrow> string \<Rightarrow> rat \<Rightarrow> action_record" where
  "new_record cr st q digest idig pdig now =
     \<lparr>handle_digest = digest,
      record_capability = cr_capability q,
      principal_digest = binding_digest cr (store_salt st) ''principal'' (cr_principal q),
      session_digest = map_option (binding_digest cr (store_salt st) ''session'') (cr_session q),
      record_pack = cr_pack q,
      input_digest = idig,
      preview_digest = pdig,
      created_at = now,
      expires_at = now + of_int (cr_expires_in q),
      action_status = Prepared\<rparr>"

definition check_create ::
    "crypto \<Rightarrow> create_request \<Rightarrow> string \<Rightarrow> action_error + (json \<times> string) \<times> (json \<times> string) \<times> string" where
  "check_create cr q raw_handle =
     rbind (exact_identifier (cr_capability q)) (\<lambda>_.
     rbind (exact_identifier (cr_principal q)) (\<lambda>_.
     rbind (optional_identifier (cr_session q)) (\<lambda>_.
     rbind (validate_pack_digest (cr_pack q)) (\<lambda>_.
     rbind (ensure (1 \<le> cr_expires_in q \<and> cr_expires_in q \<le> 86400) (PythonError ValueError)) (\<lambda>_.
     rbind (canonical_payload cr (cr_input q)) (\<lambda>i.
     rbind (canonical_payload cr (cr_preview q)) (\<lambda>p.
     rbind (ensure (is_handle raw_handle) StateConflict) (\<lambda>_.
     Inr (i, p, sha256_hex cr raw_handle)))))))))"

definition create_action ::
    "crypto \<Rightarrow> memory_store \<Rightarrow> rat option \<Rightarrow> string \<Rightarrow> create_request \<Rightarrow>
     (action_error + string \<times> prepared_state) \<times> memory_store" where
  "create_action cr st clock raw_handle q =
     (case check_create cr q raw_handle of
        Inl e \<Rightarrow> (Inl e, st)
      | Inr ((i, idig), (p, pdig), digest) \<Rightarrow>
          if store_closed st then (Inl HandleInvalid, st)
          else
            (case finite_time clock of
               Inl e \<Rightarrow> (Inl e, st)
             | Inr now \<Rightarrow>
                 let st1 = expire_all now st in
                 if max_actions st1 \<le> int (length (store_records st1)) \<or> dget (store_records st1) digest \<noteq> None
                 then (Inl StateConflict, st1)
                 else
                   let r = new_record cr st1 q digest idig pdig now in
                   (case check_record r of
                      Inl e \<Rightarrow> (Inl e, st1)
                    | Inr _ \<Rightarrow>
                        let st2 = st1\<lparr>store_records := dset (store_records st1) digest r,
                                      store_payloads := dset (store_payloads st1) digest (i, p, None)\<rparr>
                        in (rbind (state_of st2 r) (\<lambda>s. Inr (raw_handle, s)), st2))))"

text \<open>\<open>_resolve_bound_locked\<close>\<close>

definition binding_matches ::
    "crypto \<Rightarrow> memory_store \<Rightarrow> action_record \<Rightarrow> string \<Rightarrow> string option \<Rightarrow> string \<Rightarrow> bool" where
  "binding_matches cr st r pid sid pack \<longleftrightarrow>
     principal_digest r = binding_digest cr (store_salt st) ''principal'' pid \<and>
     session_digest r = map_option (binding_digest cr (store_salt st) ''session'') sid \<and>
     record_pack r = pack"

definition resolve_bound ::
    "crypto \<Rightarrow> memory_store \<Rightarrow> rat option \<Rightarrow> string \<Rightarrow> string \<Rightarrow> string option \<Rightarrow> string \<Rightarrow>
     (action_error + action_record) \<times> memory_store" where
  "resolve_bound cr st clock h pid sid pack =
     (if store_closed st then (Inl HandleInvalid, st)
      else
        (case handle_digest_of cr h of
           Inl e \<Rightarrow> (Inl e, st)
         | Inr digest \<Rightarrow>
             (case dget (store_records st) digest of
                None \<Rightarrow> (Inl HandleInvalid, st)
              | Some r \<Rightarrow>
                  (case rbind (exact_identifier pid) (\<lambda>_.
                        rbind (optional_identifier sid) (\<lambda>_. validate_pack_digest pack)) of
                     Inl e \<Rightarrow> (Inl e, st)
                   | Inr _ \<Rightarrow>
                       if \<not> binding_matches cr st r pid sid pack then (Inl BindingMismatch, st)
                       else
                         (case finite_time clock of
                            Inl e \<Rightarrow> (Inl e, st)
                          | Inr now \<Rightarrow>
                              if expires_at r \<le> now \<or> action_status r = Expired
                              then (Inl ActionExpired,
                                    st\<lparr>store_records := dset (store_records st) digest (expire_record r)\<rparr>)
                              else (Inr r, st))))))"

definition resolve_action ::
    "crypto \<Rightarrow> memory_store \<Rightarrow> rat option \<Rightarrow> string \<Rightarrow> string \<Rightarrow> string option \<Rightarrow> string \<Rightarrow>
     (action_error + prepared_state) \<times> memory_store" where
  "resolve_action cr st clock h pid sid pack =
     (case resolve_bound cr st clock h pid sid pack of
        (Inl e, st') \<Rightarrow> (Inl e, st')
      | (Inr r, st') \<Rightarrow> (state_of st' r, st'))"

definition transition_action ::
    "crypto \<Rightarrow> memory_store \<Rightarrow> rat option \<Rightarrow> string \<Rightarrow> string \<Rightarrow> string option \<Rightarrow> string \<Rightarrow>
     action_status \<Rightarrow> action_status \<Rightarrow> json \<Rightarrow> (action_error + prepared_state) \<times> memory_store" where
  "transition_action cr st clock h pid sid pack expected target result =
     (case resolve_bound cr st clock h pid sid pack of
        (Inl e, st') \<Rightarrow> (Inl e, st')
      | (Inr r, st') \<Rightarrow>
          if action_status r \<noteq> expected \<or> target \<notin> allowed_transitions expected then (Inl StateConflict, st')
          else if target \<noteq> Succeeded \<and> result \<noteq> JNull then (Inl StateConflict, st')
          else
            (case dget (store_payloads st') (handle_digest r) of
               None \<Rightarrow> (Inl PayloadKeyError, st')
             | Some (i, p, old) \<Rightarrow>
                 (case (if target = Succeeded
                        then rbind (canonical_payload cr result) (\<lambda>(c, _). Inr (Some c)) else Inr old) of
                    Inl e \<Rightarrow> (Inl e, st')
                  | Inr res \<Rightarrow>
                      let r' = r\<lparr>action_status := target\<rparr>;
                          st2 = st'\<lparr>store_records := dset (store_records st') (handle_digest r) r',
                                    store_payloads := dset (store_payloads st') (handle_digest r) (i, p, res)\<rparr>
                      in (state_of st2 r', st2))))"

definition close_store :: "memory_store \<Rightarrow> action_record list \<times> memory_store" where
  "close_store st =
     (if store_closed st then ([], st)
      else (map snd (sorted_items (store_records st)),
            st\<lparr>store_records := [], store_payloads := [], store_closed := True\<rparr>))"

section \<open>The Store invariant\<close>

text \<open>
  Records and payloads have the same keys, every record sits under its own digest and passes
  \<open>check_record\<close>, its digests are those of the stored payloads, only a successful Action has
  a result, and the number of records stays within the configured maximum.
\<close>

definition entry_ok :: "crypto \<Rightarrow> string \<Rightarrow> action_record \<Rightarrow> payload \<Rightarrow> bool" where
  "entry_ok cr d r pl \<longleftrightarrow>
     handle_digest r = d \<and> check_record r = Inr () \<and>
     (case pl of (i, p, res) \<Rightarrow>
        json_digest cr i = Some (input_digest r) \<and> json_digest cr p = Some (preview_digest r) \<and>
        (res \<noteq> None \<longrightarrow> action_status r \<in> {Succeeded, Expired}) \<and>
        (action_status r = Succeeded \<longrightarrow> res \<noteq> None))"

fun slot_ok :: "crypto \<Rightarrow> string \<Rightarrow> action_record option \<Rightarrow> payload option \<Rightarrow> bool" where
  "slot_ok cr d None None = True"
| "slot_ok cr d (Some r) (Some pl) = entry_ok cr d r pl"
| "slot_ok cr d _ _ = False"

definition store_ok :: "crypto \<Rightarrow> memory_store \<Rightarrow> bool" where
  "store_ok cr st \<longleftrightarrow>
     dict_ok (store_records st) \<and> int (length (store_records st)) \<le> max_actions st \<and>
     (\<forall>d. slot_ok cr d (dget (store_records st) d) (dget (store_payloads st) d))"

definition entry_at :: "memory_store \<Rightarrow> string \<Rightarrow> prepared_state option" where
  "entry_at st d =
     (case dget (store_records st) d of
        None \<Rightarrow> None
      | Some r \<Rightarrow> (case state_of st r of Inl _ \<Rightarrow> None | Inr s \<Rightarrow> Some s))"

lemma slot_ok_Some: "slot_ok cr d (Some r) po \<longleftrightarrow> (\<exists>pl. po = Some pl \<and> entry_ok cr d r pl)"
  by (cases po) auto

lemma slot_ok_None: "slot_ok cr d None po \<longleftrightarrow> po = None"
  by (cases po) auto

lemma store_okD:
  assumes "store_ok cr st" "dget (store_records st) d = Some r"
  obtains i p res where "dget (store_payloads st) d = Some (i, p, res)" "entry_ok cr d r (i, p, res)"
  using assms unfolding store_ok_def by (metis slot_ok_Some prod_cases3)

lemma store_ok_absent: "store_ok cr st \<Longrightarrow> dget (store_records st) d = None \<Longrightarrow> dget (store_payloads st) d = None"
  unfolding store_ok_def by (metis slot_ok_None)

lemma check_record_status [simp]: "check_record (r\<lparr>action_status := s\<rparr>) = check_record r"
  by (simp add: check_record_def)

lemma entry_ok_expire: "entry_ok cr d r pl \<Longrightarrow> entry_ok cr d (expire_record r) pl"
  by (auto simp: entry_ok_def expire_record_def)

lemma make_memory_store_ok: "make_memory_store b salt n = Inr st \<Longrightarrow> store_ok cr st"
  by (auto simp: make_memory_store_def store_ok_def split: if_splits)

lemma slot_ok_expire: "slot_ok cr d (Some r) po \<Longrightarrow> slot_ok cr d (Some (expire_record r)) po"
  by (auto simp: slot_ok_Some entry_ok_expire)

lemma store_ok_expire_one:
  assumes "store_ok cr st" "dget (store_records st) d = Some r"
  shows "store_ok cr (st\<lparr>store_records := dset (store_records st) d (expire_record r)\<rparr>)"
  using assms unfolding store_ok_def by (auto simp: length_dset_old slot_ok_expire) (metis slot_ok_expire)

lemma dget_expire_all:
  "dget (store_records (expire_all now st)) d =
     map_option (\<lambda>r. if expires_at r \<le> now \<and> action_status r \<noteq> Expired then expire_record r else r)
       (dget (store_records st) d)"
  by (simp add: expire_all_def dget_map_values)

lemma expire_all_frame [simp]:
  "store_payloads (expire_all now st) = store_payloads st" "max_actions (expire_all now st) = max_actions st"
  "store_salt (expire_all now st) = store_salt st" "store_closed (expire_all now st) = store_closed st"
  "length (store_records (expire_all now st)) = length (store_records st)"
  by (simp_all add: expire_all_def)

lemma store_ok_expire_all:
  assumes "store_ok cr st"
  shows "store_ok cr (expire_all now st)"
proof -
  have "slot_ok cr d (dget (store_records (expire_all now st)) d) (dget (store_payloads st) d)" for d
  proof -
    from assms have "slot_ok cr d (dget (store_records st) d) (dget (store_payloads st) d)"
      by (simp add: store_ok_def)
    then show ?thesis unfolding dget_expire_all
      by (cases "dget (store_records st) d") (auto intro: slot_ok_expire)
  qed
  moreover have "dict_ok (store_records (expire_all now st))"
    using assms by (simp add: store_ok_def expire_all_def)
  ultimately show ?thesis using assms by (simp add: store_ok_def)
qed

text \<open>The outcomes of \<open>_resolve_bound_locked\<close>.\<close>

lemma resolve_bound_Inr:
  assumes "resolve_bound cr st clock h pid sid pack = (Inr r, st')"
  obtains d now where "st' = st" "\<not> store_closed st" "handle_digest_of cr h = Inr d"
      "dget (store_records st) d = Some r" "binding_matches cr st r pid sid pack"
      "clock = Some now" "now < expires_at r" "action_status r \<noteq> Expired"
  using assms unfolding resolve_bound_def finite_time_def
  by (simp split: if_splits sum.splits option.splits)

lemma resolve_bound_Inl:
  assumes "resolve_bound cr st clock h pid sid pack = (Inl e, st')"
  shows "st' = st \<or> (\<exists>d r. e = ActionExpired \<and> handle_digest_of cr h = Inr d \<and>
      dget (store_records st) d = Some r \<and>
      st' = st\<lparr>store_records := dset (store_records st) d (expire_record r)\<rparr>)"
  using assms unfolding resolve_bound_def finite_time_def
  by (simp split: if_splits sum.splits option.splits)

lemma handle_digest_of_Inr: "handle_digest_of cr h = Inr d \<longleftrightarrow> is_handle h \<and> d = sha256_hex cr h"
  by (auto simp: handle_digest_of_def)

lemma canonical_payload_Inr:
  assumes "canonical_payload cr v = Inr (c, d)"
  shows "c = sort_keys v" "json_digest cr c = Some d" "json_finite v"
  using assms
  by (auto simp: canonical_payload_def canonical_copy_def json_digest_def json_text_sort_keys
      split: option.splits if_splits)

section \<open>The Store interface\<close>

text \<open>The protocol class \<open>ActionStore\<close>.\<close>

record 'st store_ops =
  create_op :: "'st \<Rightarrow> rat option \<Rightarrow> string \<Rightarrow> create_request \<Rightarrow> (action_error + string \<times> prepared_state) \<times> 'st"
  resolve_op :: "'st \<Rightarrow> rat option \<Rightarrow> string \<Rightarrow> string \<Rightarrow> string option \<Rightarrow> string \<Rightarrow>
     (action_error + prepared_state) \<times> 'st"
  transition_op :: "'st \<Rightarrow> rat option \<Rightarrow> string \<Rightarrow> string \<Rightarrow> string option \<Rightarrow> string \<Rightarrow>
     action_status \<Rightarrow> action_status \<Rightarrow> json \<Rightarrow> (action_error + prepared_state) \<times> 'st"

definition memory_ops :: "crypto \<Rightarrow> memory_store store_ops" where
  "memory_ops cr =
     \<lparr>create_op = create_action cr, resolve_op = resolve_action cr, transition_op = transition_action cr\<rparr>"

abbreviation status_in :: "prepared_state \<Rightarrow> action_status" where
  "status_in s \<equiv> action_status (state_record s)"

text \<open>Everything of a prepared Action that never changes.\<close>

definition sealed :: "prepared_state \<Rightarrow> action_record \<times> json \<times> json" where
  "sealed s = ((state_record s)\<lparr>action_status := Prepared\<rparr>, input_value s, preview_value s)"

text \<open>An entry no transition touched: unchanged, or the same sealed content now expired.\<close>

definition keeps :: "prepared_state option \<Rightarrow> prepared_state option \<Rightarrow> bool" where
  "keeps a b \<longleftrightarrow>
     (case a of None \<Rightarrow> b = None
      | Some s \<Rightarrow> (\<exists>t. b = Some t \<and> sealed t = sealed s \<and> (t = s \<or> status_in t = Expired)))"

lemma keeps_refl [simp, intro]: "keeps a a"
  by (simp add: keeps_def split: option.splits)

lemma keeps_None [simp]: "keeps None b \<longleftrightarrow> b = None"
  by (simp add: keeps_def)

lemma keeps_SomeD: "keeps (Some s) b \<Longrightarrow> \<exists>t. b = Some t \<and> sealed t = sealed s \<and> (t = s \<or> status_in t = Expired)"
  by (simp add: keeps_def)

lemma keeps_trans: "keeps a b \<Longrightarrow> keeps b c \<Longrightarrow> keeps a c"
  unfolding keeps_def by (cases a; cases b; cases c) auto

text \<open>
  The contract: \<open>key\<close> is the digest of a handle, \<open>view\<close> what the Store holds under a digest.
  Refused calls and lookups change nothing but may expire entries; a successful transition is an
  edge of the status graph taken from the expected status; a new entry is prepared and was absent.
\<close>

locale action_store =
  fixes ops :: "'st store_ops"
    and key :: "string \<Rightarrow> string"
    and view :: "'st \<Rightarrow> string \<Rightarrow> prepared_state option"
    and inv :: "'st \<Rightarrow> bool"
  assumes resolve_law: "inv st \<Longrightarrow> resolve_op ops st clock h pid sid pack = (res, st') \<Longrightarrow>
        inv st' \<and> (\<forall>d. keeps (view st d) (view st' d)) \<and> (\<forall>s. res = Inr s \<longrightarrow> view st' (key h) = Some s)"
    and transition_refused: "inv st \<Longrightarrow>
        transition_op ops st clock h pid sid pack expected target result = (Inl e, st') \<Longrightarrow>
        inv st' \<and> (\<forall>d. keeps (view st d) (view st' d))"
    and transition_done: "inv st \<Longrightarrow>
        transition_op ops st clock h pid sid pack expected target result = (Inr s, st') \<Longrightarrow>
        inv st' \<and> target \<in> allowed_transitions expected \<and> status_in s = target \<and>
        view st' (key h) = Some s \<and>
        (\<exists>s0. view st (key h) = Some s0 \<and> status_in s0 = expected \<and> sealed s = sealed s0) \<and>
        (\<forall>d. d \<noteq> key h \<longrightarrow> keeps (view st d) (view st' d))"
    and create_refused: "inv st \<Longrightarrow> create_op ops st clock h q = (Inl e, st') \<Longrightarrow>
        inv st' \<and> (\<forall>d. keeps (view st d) (view st' d))"
    and create_done: "inv st \<Longrightarrow> create_op ops st clock h q = (Inr (h', s), st') \<Longrightarrow>
        inv st' \<and> h' = h \<and> view st (key h) = None \<and> view st' (key h) = Some s \<and> status_in s = Prepared \<and>
        record_capability (state_record s) = cr_capability q \<and>
        input_value s = sort_keys (cr_input q) \<and> preview_value s = sort_keys (cr_preview q) \<and>
        (\<forall>d. d \<noteq> key h \<longrightarrow> keeps (view st d) (view st' d))"
    and view_digest: "inv st \<Longrightarrow> view st d = Some s \<Longrightarrow> handle_digest (state_record s) = d"

text \<open>Calls in the order the Store's lock admits them, and the transitions that succeed.\<close>

datatype store_call =
    CreateCall "rat option" string create_request
  | ResolveCall "rat option" string string "string option" string
  | TransitionCall "rat option" string string "string option" string action_status action_status json

fun call_store :: "'st store_ops \<Rightarrow> 'st \<Rightarrow> store_call \<Rightarrow> (string \<times> action_status) list \<times> 'st" where
  "call_store ops st (CreateCall clock h q) = ([], snd (create_op ops st clock h q))"
| "call_store ops st (ResolveCall clock h pid sid pack) = ([], snd (resolve_op ops st clock h pid sid pack))"
| "call_store ops st (TransitionCall clock h pid sid pack expected target result) =
     (case transition_op ops st clock h pid sid pack expected target result of
        (Inl _, st') \<Rightarrow> ([], st') | (Inr _, st') \<Rightarrow> ([(h, target)], st'))"

fun transitions_of :: "'st store_ops \<Rightarrow> 'st \<Rightarrow> store_call list \<Rightarrow> (string \<times> action_status) list" where
  "transitions_of ops st [] = []"
| "transitions_of ops st (c # cs) =
     (case call_store ops st c of (ev, st') \<Rightarrow> ev @ transitions_of ops st' cs)"

text \<open>The rank of what a Store holds under a digest: 0 when nothing is there.\<close>

definition entry_rank :: "prepared_state option \<Rightarrow> nat" where
  "entry_rank e = (case e of None \<Rightarrow> 0 | Some s \<Rightarrow> status_rank (status_in s))"

lemma entry_rank_simps [simp]: "entry_rank None = 0" "entry_rank (Some s) = status_rank (status_in s)"
  by (simp_all add: entry_rank_def)

lemma status_rank_le: "status_rank s \<le> 5"
  by (cases s) auto

lemma keeps_rank: "keeps a b \<Longrightarrow> entry_rank a \<le> entry_rank b"
  by (cases a) (auto simp: keeps_def status_rank_le)

context action_store
begin

lemma transition_rank:
  assumes "inv st" "transition_op ops st clock h pid sid pack expected target result = (Inr s, st')"
  shows "entry_rank (view st (key h)) < status_rank target" "entry_rank (view st' (key h)) = status_rank target"
  using transition_done [OF assms] allowed_rank by auto

lemma create_step:
  assumes "inv st" "create_op ops st clock h q = (res, st')"
  shows "inv st' \<and> entry_rank (view st d) \<le> entry_rank (view st' d)"
proof (cases res)
  case (Inl e)
  then show ?thesis using create_refused [OF assms(1)] assms(2) by (blast intro: keeps_rank)
next
  case (Inr x)
  obtain h' s where x: "x = (h', s)" by (cases x)
  from create_done [OF assms(1) assms(2) [unfolded Inr x]]
  have "inv st'" "view st (key h) = None" "d \<noteq> key h \<Longrightarrow> keeps (view st d) (view st' d)" by auto
  then show ?thesis by (cases "d = key h") (auto dest: keeps_rank)
qed

lemma resolve_step:
  assumes "inv st" "resolve_op ops st clock h pid sid pack = (res, st')"
  shows "inv st' \<and> entry_rank (view st d) \<le> entry_rank (view st' d)"
  using resolve_law [OF assms] keeps_rank by blast

lemma transition_step:
  assumes "inv st" "transition_op ops st clock h pid sid pack expected target result = (res, st')"
  shows "inv st' \<and> entry_rank (view st d) \<le> entry_rank (view st' d)"
proof (cases res)
  case (Inl e)
  then show ?thesis using transition_refused [OF assms(1)] assms(2) by (blast intro: keeps_rank)
next
  case (Inr s)
  note succ = assms(2) [unfolded Inr]
  show ?thesis
  proof (cases "d = key h")
    case True
    then show ?thesis using transition_rank [OF assms(1) succ] transition_done [OF assms(1) succ] by simp
  next
    case False
    then show ?thesis using transition_done [OF assms(1) succ] keeps_rank by blast
  qed
qed

lemma call_store_step:
  assumes "inv st" "call_store ops st c = (ev, st')"
  shows "inv st'" "entry_rank (view st d) \<le> entry_rank (view st' d)"
    "ev = [] \<or> (\<exists>h t. ev = [(h, t)] \<and> entry_rank (view st (key h)) < status_rank t \<and>
       entry_rank (view st' (key h)) = status_rank t)"
proof -
  have "inv st' \<and> entry_rank (view st d) \<le> entry_rank (view st' d) \<and>
    (ev = [] \<or> (\<exists>h t. ev = [(h, t)] \<and> entry_rank (view st (key h)) < status_rank t \<and>
       entry_rank (view st' (key h)) = status_rank t))"
  proof (cases c)
    case (CreateCall clock h q)
    with assms(2) create_step [OF assms(1), of clock h q _ st' d] show ?thesis by (auto simp: prod_eq_iff)
  next
    case (ResolveCall clock h pid sid pack)
    with assms(2) resolve_step [OF assms(1), of clock h pid sid pack _ st' d] show ?thesis
      by (auto simp: prod_eq_iff)
  next
    case (TransitionCall clock h pid sid pack expected target result)
    obtain res where res: "transition_op ops st clock h pid sid pack expected target result = (res, st')"
      using assms(2) TransitionCall by (auto split: prod.splits sum.splits)
    show ?thesis
    proof (cases res)
      case (Inl e)
      with res TransitionCall assms(2) transition_step [OF assms(1) res, of d] show ?thesis by auto
    next
      case (Inr s)
      with res TransitionCall assms(2) transition_step [OF assms(1) res, of d]
        transition_rank [OF assms(1) res [unfolded Inr]] show ?thesis by auto
    qed
  qed
  then show "inv st'" "entry_rank (view st d) \<le> entry_rank (view st' d)"
    "ev = [] \<or> (\<exists>h t. ev = [(h, t)] \<and> entry_rank (view st (key h)) < status_rank t \<and>
       entry_rank (view st' (key h)) = status_rank t)" by blast+
qed

text \<open>
  On every sequence of calls the ranks one entry is moved to strictly increase: no status is entered
  twice, whatever the order of the calls and the clock readings.
\<close>

lemma transitions_increase:
  "inv st \<Longrightarrow>
     sorted_wrt (<) [status_rank t. (h, t) \<leftarrow> transitions_of ops st cs, key h = d] \<and>
     (\<forall>r \<in> set [status_rank t. (h, t) \<leftarrow> transitions_of ops st cs, key h = d]. entry_rank (view st d) < r)"
proof (induction cs arbitrary: st)
  case (Cons c cs)
  obtain ev st' where c: "call_store ops st c = (ev, st')" by fastforce
  note step = call_store_step [OF Cons.prems c]
  show ?case
  proof (cases "ev = []")
    case True
    with c Cons.IH [OF step(1)] step(2) [of d] show ?thesis by fastforce
  next
    case False
    with step(3) obtain h t where "ev = [(h, t)]" "entry_rank (view st (key h)) < status_rank t"
      "entry_rank (view st' (key h)) = status_rank t" by blast
    with c Cons.IH [OF step(1)] step(2) [of d] show ?thesis by fastforce
  qed
qed simp

end

section \<open>The in-memory Store implements the interface\<close>

lemma state_of_Inr:
  "state_of st r = Inr s \<longleftrightarrow>
     (\<exists>i p res. dget (store_payloads st) (handle_digest r) = Some (i, p, res) \<and>
        s = \<lparr>state_record = r, input_value = i, preview_value = p,
             result_value = (case res of None \<Rightarrow> JNull | Some v \<Rightarrow> v)\<rparr>)"
  by (auto simp: state_of_def split: option.splits)

lemma store_ok_state:
  assumes "store_ok cr st" "dget (store_records st) d = Some r"
  obtains s where "state_of st r = Inr s"
proof -
  obtain i p res where "dget (store_payloads st) d = Some (i, p, res)" "entry_ok cr d r (i, p, res)"
    using store_okD [OF assms] by blast
  then have "dget (store_payloads st) (handle_digest r) = Some (i, p, res)" by (simp add: entry_ok_def)
  then show ?thesis using that by (simp add: state_of_Inr)
qed

lemma entry_at_Some:
  "entry_at st d = Some s \<longleftrightarrow> (\<exists>r. dget (store_records st) d = Some r \<and> state_of st r = Inr s)"
  by (auto simp: entry_at_def split: option.splits sum.splits)

lemma entry_at_None:
  assumes "store_ok cr st"
  shows "entry_at st d = None \<longleftrightarrow> dget (store_records st) d = None"
proof (cases "dget (store_records st) d")
  case (Some r)
  then obtain s where "state_of st r = Inr s" using store_ok_state [OF assms] by blast
  with Some show ?thesis by (simp add: entry_at_def)
qed (simp add: entry_at_def)

lemma state_of_expire:
  "state_of st r = Inr s \<Longrightarrow>
     state_of st (expire_record r) = Inr (s\<lparr>state_record := expire_record r\<rparr>) \<and>
     sealed (s\<lparr>state_record := expire_record r\<rparr>) = sealed s"
  by (auto simp: state_of_Inr expire_record_def sealed_def)

lemma keeps_expired:
  assumes "store_ok cr st" "dget (store_records st) d = Some r"
    "store_payloads st' = store_payloads st" "dget (store_records st') d = Some (expire_record r)"
  shows "keeps (entry_at st d) (entry_at st' d)"
proof -
  obtain s where s: "state_of st r = Inr s"
    using store_ok_state [OF assms(1,2)] by blast
  have "state_of st' (expire_record r) = state_of st (expire_record r)" by (simp add: state_of_def assms(3))
  with state_of_expire [OF s] show ?thesis
    by (simp add: keeps_def entry_at_def assms s expire_record_def)
qed

lemma keeps_same:
  "dget (store_records st') d = dget (store_records st) d \<Longrightarrow>
     (\<And>r. dget (store_records st) d = Some r \<Longrightarrow>
        dget (store_payloads st') (handle_digest r) = dget (store_payloads st) (handle_digest r)) \<Longrightarrow>
     keeps (entry_at st d) (entry_at st' d)"
  by (cases "dget (store_records st) d") (simp_all add: entry_at_def state_of_def)

lemma keeps_expire_all:
  assumes "store_ok cr st"
  shows "keeps (entry_at st d) (entry_at (expire_all now st) d)"
proof (cases "dget (store_records (expire_all now st)) d = dget (store_records st) d")
  case True
  then show ?thesis by (intro keeps_same) auto
next
  case False
  then show ?thesis
    by (cases "dget (store_records st) d")
      (auto simp: dget_expire_all intro!: keeps_expired [OF assms] split: if_splits)
qed

lemma resolve_bound_refused:
  assumes "store_ok cr st" "resolve_bound cr st clock h pid sid pack = (Inl e, st')"
  shows "store_ok cr st' \<and> (\<forall>d. keeps (entry_at st d) (entry_at st' d))"
proof -
  from resolve_bound_Inl [OF assms(2)] show ?thesis
  proof (elim disjE exE conjE)
    fix d r
    assume "dget (store_records st) d = Some r"
      and st': "st' = st\<lparr>store_records := dset (store_records st) d (expire_record r)\<rparr>"
    then have "keeps (entry_at st d) (entry_at st' d)" by (intro keeps_expired [OF assms(1)]) auto
    moreover have "keeps (entry_at st d') (entry_at st' d')" if "d' \<noteq> d" for d'
      using that st' by (intro keeps_same) auto
    ultimately show ?thesis
      using store_ok_expire_one [OF assms(1) \<open>dget (store_records st) d = Some r\<close>] st' by metis
  qed (use assms(1) in auto)
qed

lemma resolve_bound_entry:
  assumes "store_ok cr st" "resolve_bound cr st clock h pid sid pack = (Inr r, st')"
  obtains i p res where "st' = st" "dget (store_records st) (sha256_hex cr h) = Some r"
    "dget (store_payloads st) (sha256_hex cr h) = Some (i, p, res)" "entry_ok cr (sha256_hex cr h) r (i, p, res)"
    "handle_digest r = sha256_hex cr h"
proof -
  obtain d where d: "st' = st" "handle_digest_of cr h = Inr d" "dget (store_records st) d = Some r"
    using resolve_bound_Inr [OF assms(2)] by metis
  then have "d = sha256_hex cr h" by (simp add: handle_digest_of_Inr)
  with d store_okD [OF assms(1) d(3)] that show ?thesis by (metis entry_ok_def)
qed

lemma memory_resolve_law:
  assumes "store_ok cr st" "resolve_action cr st clock h pid sid pack = (res, st')"
  shows "store_ok cr st' \<and> (\<forall>d. keeps (entry_at st d) (entry_at st' d)) \<and>
     (\<forall>s. res = Inr s \<longrightarrow> entry_at st' (sha256_hex cr h) = Some s)"
proof -
  obtain b st1 where b: "resolve_bound cr st clock h pid sid pack = (b, st1)" by fastforce
  show ?thesis
  proof (cases b)
    case (Inl e)
    with b assms(2) have "st' = st1" "res = Inl e" by (auto simp: resolve_action_def)
    with resolve_bound_refused [OF assms(1) b [unfolded Inl]] show ?thesis by simp
  next
    case (Inr r)
    with b have rb: "resolve_bound cr st clock h pid sid pack = (Inr r, st1)" by simp
    obtain i p rs where e: "st1 = st" "dget (store_records st) (sha256_hex cr h) = Some r"
      using resolve_bound_entry [OF assms(1) rb] by metis
    with rb assms(2) have "st' = st" "res = state_of st r" by (auto simp: resolve_action_def)
    then show ?thesis using assms(1) e(2) by (auto simp: entry_at_def)
  qed
qed

text \<open>Inserting one well-formed entry.\<close>

definition put_entry :: "memory_store \<Rightarrow> string \<Rightarrow> action_record \<Rightarrow> payload \<Rightarrow> memory_store" where
  "put_entry st d r pl =
     st\<lparr>store_records := dset (store_records st) d r, store_payloads := dset (store_payloads st) d pl\<rparr>"

lemma put_entry_ok:
  assumes "store_ok cr st" "entry_ok cr d r pl"
    "dget (store_records st) d = None \<longrightarrow> int (length (store_records st)) < max_actions st"
  shows "store_ok cr (put_entry st d r pl)"
  using assms unfolding store_ok_def put_entry_def
  by (cases "dget (store_records st) d = None") (auto simp: length_dset_old length_dset_new)

lemma put_entry_frame:
  assumes "store_ok cr st" "d' \<noteq> d"
  shows "keeps (entry_at st d') (entry_at (put_entry st d r pl) d')"
proof (rule keeps_same)
  show "dget (store_records (put_entry st d r pl)) d' = dget (store_records st) d'"
    using assms(2) by (simp add: put_entry_def)
  fix r' assume "dget (store_records st) d' = Some r'"
  then have "handle_digest r' = d'" using store_okD [OF assms(1)] by (metis entry_ok_def)
  then show "dget (store_payloads (put_entry st d r pl)) (handle_digest r') = dget (store_payloads st) (handle_digest r')"
    using assms(2) by (simp add: put_entry_def)
qed

lemma memory_transition_cases:
  assumes "transition_action cr st clock h pid sid pack expected target result = (out, st')" "store_ok cr st"
  obtains (refused) e where "out = Inl e" "store_ok cr st'" "\<And>d. keeps (entry_at st d) (entry_at st' d)"
  | (moved) r i p old res where
      "resolve_bound cr st clock h pid sid pack = (Inr r, st)"
      "dget (store_records st) (sha256_hex cr h) = Some r"
      "dget (store_payloads st) (sha256_hex cr h) = Some (i, p, old)"
      "entry_ok cr (sha256_hex cr h) r (i, p, old)"
      "action_status r = expected" "target \<in> allowed_transitions expected"
      "target \<noteq> Succeeded \<longrightarrow> result = JNull \<and> res = old"
      "target = Succeeded \<longrightarrow> json_finite result \<and> res = Some (sort_keys result)"
      "st' = put_entry st (sha256_hex cr h) (r\<lparr>action_status := target\<rparr>) (i, p, res)"
      "out = state_of st' (r\<lparr>action_status := target\<rparr>)"
proof -
  obtain b st1 where b: "resolve_bound cr st clock h pid sid pack = (b, st1)" by fastforce
  show ?thesis
  proof (cases b)
    case (Inl e)
    with b assms(1) have "st' = st1" "out = Inl e" by (auto simp: transition_action_def)
    with resolve_bound_refused [OF assms(2) b [unfolded Inl]] that(1) show ?thesis by blast
  next
    case (Inr r)
    obtain i p old where e: "st1 = st" "dget (store_records st) (sha256_hex cr h) = Some r"
      "dget (store_payloads st) (sha256_hex cr h) = Some (i, p, old)" "entry_ok cr (sha256_hex cr h) r (i, p, old)"
      "handle_digest r = sha256_hex cr h"
      using resolve_bound_entry [OF assms(2) b [unfolded Inr]] by metis
    have same: ?thesis if "out = Inl e'" "st' = st" for e'
      using refused that assms(2) by simp
    consider (conflict) "action_status r \<noteq> expected \<or> target \<notin> allowed_transitions expected"
      | (result) "action_status r = expected" "target \<in> allowed_transitions expected" "target \<noteq> Succeeded" "result \<noteq> JNull"
      | (plain) "action_status r = expected" "target \<in> allowed_transitions expected" "target \<noteq> Succeeded" "result = JNull"
      | (succ) "action_status r = expected" "target \<in> allowed_transitions expected" "target = Succeeded" by blast
    then show ?thesis
    proof cases
      case plain
      then show ?thesis using moved [of r i p old old] b Inr e assms(1)
        by (auto simp: transition_action_def put_entry_def Let_def)
    next
      case succ
      show ?thesis
      proof (cases "canonical_payload cr result")
        case (Inl e')
        then show ?thesis using same [of e'] succ b Inr e assms(1)
          by (auto simp: transition_action_def Let_def)
      next
        case (Inr cd)
        obtain c d where cd: "cd = (c, d)" by (cases cd)
        note fin = canonical_payload_Inr [OF Inr [unfolded cd]]
        show ?thesis using moved [of r i p old "Some c"] succ b \<open>b = Inr r\<close> e assms(1) Inr cd fin
          by (auto simp: transition_action_def put_entry_def Let_def)
      qed
    qed (use same [of StateConflict] b Inr e assms(1) in \<open>auto simp: transition_action_def\<close>)
  qed
qed

lemma state_of_put [simp]:
  "handle_digest r = d \<Longrightarrow> state_of (put_entry st d r (i, p, res)) r =
     Inr \<lparr>state_record = r, input_value = i, preview_value = p, result_value = (case res of None \<Rightarrow> JNull | Some v \<Rightarrow> v)\<rparr>"
  by (simp add: state_of_def put_entry_def)

lemma entry_at_put:
  "state_of (put_entry st d r pl) r = Inr s \<Longrightarrow> entry_at (put_entry st d r pl) d = Some s"
  by (simp add: entry_at_def put_entry_def)

lemma entry_ok_transition:
  assumes "entry_ok cr d r (i, p, old)" "action_status r = expected" "target \<in> allowed_transitions expected"
    "target \<noteq> Succeeded \<longrightarrow> res = old" "target = Succeeded \<longrightarrow> res = Some v"
  shows "entry_ok cr d (r\<lparr>action_status := target\<rparr>) (i, p, res)"
  using assms by (cases expected) (auto simp: entry_ok_def)

lemma memory_transition_done:
  assumes "store_ok cr st"
    "transition_action cr st clock h pid sid pack expected target result = (Inr s, st')"
  shows "store_ok cr st' \<and> target \<in> allowed_transitions expected \<and> status_in s = target \<and>
      entry_at st' (sha256_hex cr h) = Some s \<and>
      (\<exists>s0. entry_at st (sha256_hex cr h) = Some s0 \<and> status_in s0 = expected \<and> sealed s = sealed s0) \<and>
      (\<forall>d. d \<noteq> sha256_hex cr h \<longrightarrow> keeps (entry_at st d) (entry_at st' d))"
  using assms(2,1)
proof (cases rule: memory_transition_cases)
  case (moved r i p old res)
  let ?d = "sha256_hex cr h" and ?r = "r\<lparr>action_status := target\<rparr>"
  have d: "handle_digest r = ?d" using moved(4) by (simp add: entry_ok_def)
  have "entry_ok cr ?d ?r (i, p, res)"
    using entry_ok_transition [OF moved(4,5,6), of res "sort_keys result"] moved(7,8) by blast
  then have "store_ok cr st'"
    using put_entry_ok [OF assms(1), of ?d ?r] moved(2,9) by simp
  moreover have s: "s = \<lparr>state_record = ?r, input_value = i, preview_value = p,
      result_value = (case res of None \<Rightarrow> JNull | Some v \<Rightarrow> v)\<rparr>"
    using moved(9,10) d by simp
  moreover have "entry_at st' ?d = Some s"
    using entry_at_put [of st ?d ?r "(i, p, res)" s] moved(9,10) by simp
  moreover have "entry_at st ?d = Some \<lparr>state_record = r, input_value = i, preview_value = p,
      result_value = (case old of None \<Rightarrow> JNull | Some v \<Rightarrow> v)\<rparr>"
    using moved(2,3) d by (simp add: entry_at_def state_of_def)
  moreover have "\<forall>d'. d' \<noteq> ?d \<longrightarrow> keeps (entry_at st d') (entry_at st' d')"
    using put_entry_frame [OF assms(1)] moved(9) by simp
  ultimately show ?thesis using moved(5,6) by (simp add: sealed_def)
qed simp

lemma memory_transition_refused:
  assumes "store_ok cr st"
    "transition_action cr st clock h pid sid pack expected target result = (Inl e, st')"
  shows "store_ok cr st' \<and> (\<forall>d. keeps (entry_at st d) (entry_at st' d))"
  using assms(2,1)
proof (cases rule: memory_transition_cases)
  case (moved r i p old res)
  moreover have "handle_digest r = sha256_hex cr h" using moved(4) by (simp add: entry_ok_def)
  ultimately show ?thesis by simp
qed simp

lemma check_create_Inr:
  assumes "check_create cr q h = Inr ((i, idig), (p, pdig), digest)"
  shows "digest = sha256_hex cr h" "canonical_payload cr (cr_input q) = Inr (i, idig)"
    "canonical_payload cr (cr_preview q) = Inr (p, pdig)" "is_handle h"
  using assms by (auto simp: check_create_def rbind_Inr_iff split: if_splits)

lemma memory_create_cases:
  assumes "create_action cr st clock h q = (out, st')" "store_ok cr st"
  obtains (refused) e where "out = Inl e" "store_ok cr st'" "\<And>d. keeps (entry_at st d) (entry_at st' d)"
  | (created) i idig p pdig now r where
      "check_create cr q h = Inr ((i, idig), (p, pdig), sha256_hex cr h)"
      "int (length (store_records st)) < max_actions st" "dget (store_records st) (sha256_hex cr h) = None"
      "clock = Some now"
      "r = new_record cr (expire_all now st) q (sha256_hex cr h) idig pdig now" "check_record r = Inr ()"
      "st' = put_entry (expire_all now st) (sha256_hex cr h) r (i, p, None)"
      "out = rbind (state_of st' r) (\<lambda>s. Inr (h, s))"
proof -
  have same: ?thesis if "out = Inl e'" "st' = st" for e'
    using refused that assms(2) by simp
  have exp: ?thesis if "out = Inl e'" "st' = expire_all now st" for e' now
    using refused that store_ok_expire_all [OF assms(2)] keeps_expire_all [OF assms(2)] by simp
  show ?thesis
  proof (cases "check_create cr q h")
    case (Inl e)
    then show ?thesis using same [of e] assms(1) by (auto simp: create_action_def)
  next
    case (Inr x)
    then obtain i idig p pdig where x: "check_create cr q h = Inr ((i, idig), (p, pdig), sha256_hex cr h)"
      using check_create_Inr(1) by (metis prod.collapse)
    show ?thesis
    proof (cases "store_closed st \<or> clock = None")
      case True
      then show ?thesis using same assms(1) x
        by (cases "store_closed st") (auto simp: create_action_def finite_time_def)
    next
      case False
      then obtain now where now: "clock = Some now" "\<not> store_closed st" by auto
      let ?st = "expire_all now st" and ?d = "sha256_hex cr h"
      let ?r = "new_record cr ?st q ?d idig pdig now"
      show ?thesis
      proof (cases "max_actions ?st \<le> int (length (store_records ?st)) \<or> dget (store_records ?st) ?d \<noteq> None")
        case True
        then show ?thesis using exp [of _ now] x now assms(1)
          by (auto simp: create_action_def finite_time_def Let_def)
      next
        case room: False
        show ?thesis
        proof (cases "check_record ?r")
          case (Inl e)
          then show ?thesis using exp [of _ now] x now room assms(1)
            by (auto simp: create_action_def finite_time_def Let_def)
        next
          case (Inr u)
          then have ok: "check_record ?r = Inr ()" by simp
          show ?thesis using created [OF x _ _ now(1) refl ok] x now room ok assms(1)
            by (auto simp: create_action_def finite_time_def Let_def put_entry_def dget_expire_all)
        qed
      qed
    qed
  qed
qed

lemma memory_create_refused:
  assumes "store_ok cr st" "create_action cr st clock h q = (Inl e, st')"
  shows "store_ok cr st' \<and> (\<forall>d. keeps (entry_at st d) (entry_at st' d))"
  using assms(2,1)
proof (cases rule: memory_create_cases)
  case (created i idig p pdig now r)
  then show ?thesis by (simp add: new_record_def)
qed simp

lemma memory_create_done:
  assumes "store_ok cr st" "create_action cr st clock h q = (Inr (h', s), st')"
  shows "store_ok cr st' \<and> h' = h \<and> entry_at st (sha256_hex cr h) = None \<and>
      entry_at st' (sha256_hex cr h) = Some s \<and> status_in s = Prepared \<and>
      record_capability (state_record s) = cr_capability q \<and>
      input_value s = sort_keys (cr_input q) \<and> preview_value s = sort_keys (cr_preview q) \<and>
      (\<forall>d. d \<noteq> sha256_hex cr h \<longrightarrow> keeps (entry_at st d) (entry_at st' d))"
  using assms(2,1)
proof (cases rule: memory_create_cases)
  case (created i idig p pdig now r)
  let ?d = "sha256_hex cr h" and ?st = "expire_all now st"
  note i = canonical_payload_Inr [OF check_create_Inr(2) [OF created(1)]]
  note p = canonical_payload_Inr [OF check_create_Inr(3) [OF created(1)]]
  have "handle_digest r = ?d" "action_status r = Prepared" "input_digest r = idig" "preview_digest r = pdig"
    "record_capability r = cr_capability q" using created(5) by (simp_all add: new_record_def)
  moreover from this have "entry_ok cr ?d r (i, p, None)" using created(6) i p by (simp add: entry_ok_def)
  then have "store_ok cr st'"
    using put_entry_ok [OF store_ok_expire_all [OF assms(1)]] created(2,7) by simp
  moreover have "h' = h" and s: "s = \<lparr>state_record = r, input_value = i, preview_value = p, result_value = JNull\<rparr>"
    using created(7,8) \<open>handle_digest r = ?d\<close> by auto
  moreover have "entry_at st' ?d = Some s"
    using entry_at_put [of ?st ?d r "(i, p, None)" s] created(7) s \<open>handle_digest r = ?d\<close> by simp
  moreover have "entry_at st ?d = None" using created(3) by (simp add: entry_at_def)
  moreover have "keeps (entry_at st d') (entry_at st' d')" if "d' \<noteq> ?d" for d'
    using keeps_trans [OF keeps_expire_all [OF assms(1)] put_entry_frame [OF store_ok_expire_all [OF assms(1)] that]]
      created(7) by simp
  ultimately show ?thesis using i p by simp
qed simp

lemma entry_at_digest: "store_ok cr st \<Longrightarrow> entry_at st d = Some s \<Longrightarrow> handle_digest (state_record s) = d"
  by (auto simp: entry_at_Some state_of_Inr entry_ok_def elim!: store_okD)

interpretation mem: action_store "memory_ops cr" "sha256_hex cr" entry_at "store_ok cr" for cr
proof (unfold_locales, unfold memory_ops_def store_ops.simps, goal_cases)
  case 1
  then show ?case by (rule memory_resolve_law)
next
  case 2
  then show ?case by (rule memory_transition_refused)
next
  case 3
  then show ?case by (rule memory_transition_done)
next
  case 4
  then show ?case by (rule memory_create_refused)
next
  case 5
  then show ?case by (rule memory_create_done)
next
  case 6
  then show ?case by (rule entry_at_digest)
qed

lemma close_store_ok: "store_ok cr st \<Longrightarrow> 0 \<le> max_actions st \<Longrightarrow> store_ok cr (snd (close_store st))"
  by (auto simp: close_store_def store_ok_def)

lemma resolve_action_shows:
  assumes "store_ok cr st" "resolve_action cr st clock h pid sid pack = (Inr s, st')"
  shows "st' = st \<and> entry_at st (sha256_hex cr h) = Some s \<and> binding_matches cr st (state_record s) pid sid pack \<and>
     json_digest cr (input_value s) = Some (input_digest (state_record s)) \<and>
     json_digest cr (preview_value s) = Some (preview_digest (state_record s)) \<and>
     status_in s \<noteq> Expired \<and> (\<exists>now. clock = Some now \<and> now < expires_at (state_record s))"
proof -
  obtain b st1 where b: "resolve_bound cr st clock h pid sid pack = (b, st1)" by fastforce
  have "\<exists>r. b = Inr r \<and> state_of st1 r = Inr s \<and> st' = st1"
    using assms(2) b by (cases b) (auto simp: resolve_action_def)
  then obtain r where r: "b = Inr r" "state_of st1 r = Inr s" "st' = st1" by blast
  note rb = b [unfolded r(1)]
  obtain i p res where e: "st1 = st" "dget (store_records st) (sha256_hex cr h) = Some r"
    "dget (store_payloads st) (sha256_hex cr h) = Some (i, p, res)" "entry_ok cr (sha256_hex cr h) r (i, p, res)"
    "handle_digest r = sha256_hex cr h"
    using resolve_bound_entry [OF assms(1) rb] by metis
  have s: "state_record s = r" "input_value s = i" "preview_value s = p" using r(2) e by (auto simp: state_of_Inr)
  obtain now where "binding_matches cr st r pid sid pack" "clock = Some now" "now < expires_at r" "action_status r \<noteq> Expired"
    using resolve_bound_Inr [OF rb] by metis
  moreover have "json_digest cr i = Some (input_digest r)" "json_digest cr p = Some (preview_digest r)"
    using e(4) by (simp_all add: entry_ok_def)
  moreover have "entry_at st (sha256_hex cr h) = Some s" using r(2) e(1,2) by (simp add: entry_at_def)
  ultimately show ?thesis using e(1) s r(3) by simp
qed

end
