(* ===== verification/Approval.thy ===== *)
theory Approval
  imports ActionStore
begin

text \<open>
  \<^verbatim>\<open>acc_runtime/actions/approval.py\<close>: the binding an approval is given for, the grant, and
  the in-memory authority of one-time approval handles. The protocol class is the record
  \<open>approval_ops\<close>; the locale \<open>approval_authority\<close> states that a grant answers exactly the binding
  asked for and that a handle is spent by its first verification.
\<close>

section \<open>Bindings and grants\<close>

record approval_binding =
  b_action :: string
  b_capability :: string
  b_principal :: string
  b_session :: "string option"
  b_pack :: string
  b_input :: string
  b_preview :: string
  b_expires_at :: rat

text \<open>\<open>ApprovalBinding.__post_init__\<close>\<close>

definition check_binding :: "approval_binding \<Rightarrow> action_error + unit" where
  "check_binding b =
     rbind (validate_digest (b_action b)) (\<lambda>_.
     rbind (exact_identifier (b_capability b)) (\<lambda>_.
     rbind (validate_digest (b_principal b)) (\<lambda>_.
     rbind (case b_session b of None \<Rightarrow> Inr () | Some s \<Rightarrow> validate_digest s) (\<lambda>_.
     rbind (validate_pack_digest (b_pack b)) (\<lambda>_.
     rbind (validate_digest (b_input b)) (\<lambda>_. validate_digest (b_preview b)))))))"

definition binding_from_record :: "action_record \<Rightarrow> action_error + approval_binding" where
  "binding_from_record r =
     (let b = \<lparr>b_action = handle_digest r, b_capability = record_capability r,
               b_principal = principal_digest r, b_session = session_digest r, b_pack = record_pack r,
               b_input = input_digest r, b_preview = preview_digest r, b_expires_at = expires_at r\<rparr>
      in rbind (check_binding b) (\<lambda>_. Inr b))"

record approval_grant =
  approval_digest :: string
  grant_binding :: approval_binding
  approved_at :: rat
  grant_expires_at :: rat
  decision_id :: "string option"
  approver_id :: "string option"

text \<open>\<open>ApprovalGrant.__post_init__\<close>\<close>

definition check_grant :: "approval_grant \<Rightarrow> action_error + unit" where
  "check_grant g =
     rbind (validate_digest (approval_digest g)) (\<lambda>_.
     if grant_expires_at g \<le> approved_at g \<or> b_expires_at (grant_binding g) < grant_expires_at g
     then Inl (PythonError ValueError)
     else if (decision_id g = None) \<noteq> (approver_id g = None) then Inl (PythonError ValueError)
     else
       (case (decision_id g, approver_id g) of
          (Some d, Some a) \<Rightarrow> rbind (exact_identifier d) (\<lambda>_. rbind (exact_identifier a) (\<lambda>_. Inr ()))
        | _ \<Rightarrow> Inr ()))"

section \<open>The in-memory authority\<close>

record approval_record =
  ap_digest :: string
  ap_binding :: approval_binding
  ap_created_at :: rat
  ap_expires_at :: rat

type_synonym memory_authority = "(string, approval_record) dict"

text \<open>\<open>InMemoryApprovalAuthority.__init__\<close>\<close>

definition make_memory_authority :: "bool \<Rightarrow> action_error + memory_authority" where
  "make_memory_authority development_only = (if development_only then Inr [] else Inl (PythonError ValueError))"

definition issue_for_testing ::
    "crypto \<Rightarrow> memory_authority \<Rightarrow> rat option \<Rightarrow> string \<Rightarrow> approval_binding \<Rightarrow> int \<Rightarrow>
     (action_error + string) \<times> memory_authority" where
  "issue_for_testing cr au clock raw b expires_in =
     (if expires_in \<le> 0 then (Inl (PythonError ValueError), au)
      else
        (case finite_time clock of
           Inl e \<Rightarrow> (Inl e, au)
         | Inr now \<Rightarrow>
             let expiry = now + of_int expires_in in
             if b_expires_at b < expiry then (Inl (PythonError ValueError), au)
             else if \<not> is_handle raw then (Inl ApprovalInvalid, au)
             else
               let digest = sha256_hex cr raw in
               if dget au digest \<noteq> None then (Inl ApprovalInvalid, au)
               else (Inr raw,
                     dset au digest \<lparr>ap_digest = digest, ap_binding = b, ap_created_at = now,
                                     ap_expires_at = expiry\<rparr>)))"

text \<open>\<open>_approval_digest\<close>\<close>

definition approval_digest_of :: "crypto \<Rightarrow> string \<Rightarrow> action_error + string" where
  "approval_digest_of cr h = (if is_handle h then Inr (sha256_hex cr h) else Inl ApprovalInvalid)"

text \<open>\<open>verify\<close> removes the record before it looks at it.\<close>

definition verify_approval ::
    "crypto \<Rightarrow> memory_authority \<Rightarrow> rat option \<Rightarrow> string \<Rightarrow> approval_binding \<Rightarrow>
     (action_error + approval_grant) \<times> memory_authority" where
  "verify_approval cr au clock h expected =
     (case approval_digest_of cr h of
        Inl e \<Rightarrow> (Inl e, au)
      | Inr digest \<Rightarrow>
          let au' = dpop au digest in
          (case dget au digest of
             None \<Rightarrow> (Inl ApprovalInvalid, au')
           | Some r \<Rightarrow>
               if ap_binding r \<noteq> expected then (Inl ApprovalInvalid, au')
               else
                 (case finite_time clock of
                    Inl e \<Rightarrow> (Inl e, au')
                  | Inr now \<Rightarrow>
                      if ap_expires_at r \<le> now \<or> b_expires_at expected \<le> now then (Inl ApprovalExpired, au')
                      else
                        let g = \<lparr>approval_digest = ap_digest r, grant_binding = ap_binding r,
                                 approved_at = ap_created_at r, grant_expires_at = ap_expires_at r,
                                 decision_id = None, approver_id = None\<rparr>
                        in (rbind (check_grant g) (\<lambda>_. Inr g), au'))))"

section \<open>The authority interface\<close>

record 'au approval_ops =
  verify_op :: "'au \<Rightarrow> rat option \<Rightarrow> string \<Rightarrow> approval_binding \<Rightarrow> (action_error + approval_grant) \<times> 'au"

definition memory_approval_ops :: "crypto \<Rightarrow> memory_authority approval_ops" where
  "memory_approval_ops cr = \<lparr>verify_op = verify_approval cr\<rparr>"

text \<open>The grants of a sequence of verifications.\<close>

primrec grants ::
    "'au approval_ops \<Rightarrow> (string \<Rightarrow> string) \<Rightarrow> 'au \<Rightarrow> (rat option \<times> string \<times> approval_binding) list \<Rightarrow>
     (string \<times> approval_binding) list" where
  "grants ops key au [] = []"
| "grants ops key au (c # cs) =
     (case c of (clock, h, b) \<Rightarrow>
        (case verify_op ops au clock h b of
           (Inl _, au') \<Rightarrow> grants ops key au' cs
         | (Inr _, au') \<Rightarrow> (key h, b) # grants ops key au' cs))"

text \<open>\<open>live au d\<close>: the binding an unspent handle of digest \<open>d\<close> was issued for.\<close>

locale approval_authority =
  fixes ops :: "'au approval_ops"
    and key :: "string \<Rightarrow> string"
    and live :: "'au \<Rightarrow> string \<Rightarrow> approval_binding option"
  assumes verify_granted: "verify_op ops au clock h b = (Inr g, au') \<Longrightarrow>
        grant_binding g = b \<and> live au (key h) = Some b \<and> live au' (key h) = None"
    and verify_spends: "verify_op ops au clock h b = (res, au') \<Longrightarrow> live au' d = None \<or> live au' d = live au d"
begin

lemma grants_live: "(d, b) \<in> set (grants ops key au cs) \<Longrightarrow> live au d = Some b"
proof (induction cs arbitrary: au)
  case (Cons c cs)
  obtain clock h b' where c: "c = (clock, h, b')" by (cases c)
  obtain res au' where v: "verify_op ops au clock h b' = (res, au')" by fastforce
  note spends = verify_spends [OF v, of d]
  show ?case
  proof (cases res)
    case (Inl e)
    with Cons c v spends show ?thesis by fastforce
  next
    case (Inr g)
    with Cons.prems c v have "(d, b) = (key h, b') \<or> (d, b) \<in> set (grants ops key au' cs)" by simp
    with Cons.IH [of au'] spends verify_granted [OF v [unfolded Inr]] show ?thesis by fastforce
  qed
qed simp

text \<open>A handle is granted at most once.\<close>

lemma grants_once: "distinct (map fst (grants ops key au cs))"
proof (induction cs arbitrary: au)
  case (Cons c cs)
  obtain clock h b' where c: "c = (clock, h, b')" by (cases c)
  obtain res au' where v: "verify_op ops au clock h b' = (res, au')" by fastforce
  show ?case
  proof (cases res)
    case (Inr g)
    have "key h \<notin> fst ` set (grants ops key au' cs)"
      using grants_live [of "key h" _ au' cs] verify_granted [OF v [unfolded Inr]] by fastforce
    with Cons.IH [of au'] c v Inr show ?thesis by simp
  qed (use Cons.IH [of au'] c v in simp)
qed simp

end

definition live_binding :: "memory_authority \<Rightarrow> string \<Rightarrow> approval_binding option" where
  "live_binding au d = map_option ap_binding (dget au d)"

lemma verify_approval_Inr:
  assumes "verify_approval cr au clock h b = (Inr g, au')"
  shows "grant_binding g = b \<and> live_binding au (sha256_hex cr h) = Some b \<and> live_binding au' (sha256_hex cr h) = None"
  using assms
  by (auto simp: verify_approval_def approval_digest_of_def live_binding_def Let_def rbind_Inr_iff
      split: if_splits option.splits sum.splits)

lemma verify_approval_spends:
  assumes "verify_approval cr au clock h b = (res, au')"
  shows "live_binding au' d = None \<or> live_binding au' d = live_binding au d"
proof -
  have "au' = au \<or> au' = dpop au (sha256_hex cr h)"
    using assms by (auto simp: verify_approval_def approval_digest_of_def Let_def
        split: if_splits option.splits sum.splits)
  then show ?thesis by (auto simp: live_binding_def)
qed

interpretation authority: approval_authority "memory_approval_ops cr" "sha256_hex cr" live_binding for cr
proof (unfold_locales, unfold memory_approval_ops_def approval_ops.simps, goal_cases)
  case 1
  then show ?case by (rule verify_approval_Inr)
next
  case 2
  then show ?case by (rule verify_approval_spends)
qed

text \<open>A live grant is within the lifetime of the prepared Action at the moment of verification.\<close>

lemma verify_approval_time:
  assumes "verify_approval cr au clock h b = (Inr g, au')"
  obtains now where "clock = Some now" "now < grant_expires_at g" "grant_expires_at g \<le> b_expires_at b"
  using assms
  by (auto simp: verify_approval_def approval_digest_of_def Let_def rbind_Inr_iff check_grant_def
      finite_time_def not_le not_less split: if_splits option.splits sum.splits)

end
