(* ===== verification/ActionProgram.thy ===== *)
theory ActionProgram
  imports Approval Deployment Principal Workflow
begin

text \<open>
  The coroutines of the Action boundary. A coroutine is a tree of the calls it awaits: each node
  names one awaited call and continues with its reply, so the same definition is run alone or
  interleaved with others at exactly the points where the code awaits. Also the executor's message
  types of \<^verbatim>\<open>coordinator.py\<close> and \<^verbatim>\<open>acc_runtime/actions/audit.py\<close> written in this form.
\<close>

section \<open>Compiled definitions\<close>

fun risk_name :: "risk \<Rightarrow> string" where
  "risk_name Low = ''low''"
| "risk_name Medium = ''medium''"
| "risk_name High = ''high''"
| "risk_name Critical = ''critical''"

lemma risk_of_name_name [simp]: "risk_of_name (risk_name r) = Some r"
  by (cases r) (simp_all add: risk_of_name_def)

text \<open>\<open>ActionProof\<close> of the compiler, as far as the runtime reads it; \<open>proof_ok\<close> is its property \<open>ok\<close>.\<close>

record action_proof =
  proof_ok :: bool
  mutation_operation_ids :: "string list"
  proof_effects :: "effect list"
  maximum_risk :: "risk option"
  proof_scopes :: "string list"
  approval_required :: bool

record compiled_definition =
  def_capability :: capability
  def_proof :: action_proof

fun contract_of :: "capability_body \<Rightarrow> action_contract option" where
  "contract_of (ActionBody c _ _) = Some c"
| "contract_of (ReadBody _) = None"

text \<open>\<open>CompiledActionDefinition.__post_init__\<close>\<close>

definition check_definition :: "compiled_definition \<Rightarrow> py_error + unit" where
  "check_definition d =
     (let p = def_proof d in
      if \<not> proof_ok p then Inl ValueError
      else if mutation_operation_ids p = [] \<or> proof_effects p = [] then Inl ValueError
      else if maximum_risk p = None then Inl ValueError
      else
        (case contract_of (cap_body (def_capability d)) of
           None \<Rightarrow> Inl TypeError
         | Some c \<Rightarrow>
             if approval_mode_required c \<and> \<not> approval_required p then Inl ValueError else Inr ()))"

definition proof_payload :: "compiled_definition \<Rightarrow> json" where
  "proof_payload d =
     (let p = def_proof d in
      JObj [(''capability_id'', JStr (cap_id (def_capability d))),
            (''approval_required'', JBool (approval_required p)),
            (''effects'', JArr (map (\<lambda>e. JStr (effect_name e)) (proof_effects p))),
            (''maximum_risk'', case maximum_risk p of None \<Rightarrow> JNull | Some r \<Rightarrow> JStr (risk_name r)),
            (''mutation_operation_ids'', JArr (map JStr (mutation_operation_ids p))),
            (''required_scopes'', JArr (map JStr (proof_scopes p)))])"

section \<open>Messages of the executor\<close>

record preview_execution =
  pe_value :: json
  pe_token :: json
  pe_token_required :: "bool option"
  pe_terminal :: bool
  pe_result :: json

record commit_execution =
  ex_input :: json
  ex_preview :: json
  ex_token :: json
  ex_key :: string
  ex_terminal :: bool
  ex_result :: json

text \<open>\<open>ActionOutcomeRecovery\<close>: an unresolved recovery carries no result.\<close>

datatype recovery = Unresolved | Resolved json

section \<open>Audit events\<close>

datatype lifecycle = PrepareLifecycle | ApproveLifecycle | CommitLifecycle | StatusLifecycle

datatype result_category =
  Started | Success | Replayed | Denied | Invalid | Internal | CancelledCategory | OutcomeUnknownCategory

record audit_event =
  ae_lifecycle :: lifecycle
  ae_capability :: string
  ae_status :: "action_status option"
  ae_category :: result_category
  ae_pack :: string
  ae_principal :: string
  ae_session :: "string option"
  ae_action :: "string option"
  ae_decision :: "string option"

text \<open>
  \<open>ActionAuditEvent.__post_init__\<close>; the event identifier and the time come from
  \<open>secrets.token_hex(32)\<close> and \<open>time.time\<close>, whose values always pass their two checks.
\<close>

definition check_event :: "audit_event \<Rightarrow> action_error + unit" where
  "check_event e =
     rbind (exact_identifier (ae_capability e)) (\<lambda>_.
     if ae_category e = Started \<and> ae_status e \<noteq> None then Inl (PythonError ValueError)
     else if ae_category e \<in> {Success, Replayed, OutcomeUnknownCategory} \<and> ae_status e = None
     then Inl (PythonError ValueError)
     else
       rbind (validate_pack_digest (ae_pack e)) (\<lambda>_.
       rbind (validate_digest (ae_principal e)) (\<lambda>_.
       rbind (case ae_session e of None \<Rightarrow> Inr () | Some s \<Rightarrow> validate_digest s) (\<lambda>_.
       rbind (case ae_action e of None \<Rightarrow> Inr () | Some a \<Rightarrow> validate_digest a) (\<lambda>_.
       rbind (case ae_decision e of
                None \<Rightarrow> Inr ()
              | Some d \<Rightarrow> rbind (exact_identifier d) (\<lambda>_.
                  if ae_lifecycle e \<noteq> ApproveLifecycle \<or> ae_category e \<noteq> Success
                  then Inl (PythonError ValueError) else Inr ())) (\<lambda>_.
       if ae_action e = None \<and> ae_lifecycle e \<noteq> PrepareLifecycle then Inl (PythonError ValueError)
       else if ae_lifecycle e = PrepareLifecycle \<and>
               ae_category e \<in> {Success, Replayed, OutcomeUnknownCategory} \<and> ae_action e = None
       then Inl (PythonError ValueError)
       else Inr ()))))))"

section \<open>Coroutines\<close>

type_synonym 'a outcome = "action_error + 'a"

datatype 'r prog =
    Return "'r outcome"
  | AwaitResolve string string "string option" string "prepared_state outcome \<Rightarrow> 'r prog"
  | AwaitTransition string string "string option" string action_status action_status json
      "prepared_state outcome \<Rightarrow> 'r prog"
  | AwaitCreate create_request "(string \<times> prepared_state) outcome \<Rightarrow> 'r prog"
  | AwaitVerify string approval_binding "approval_grant outcome \<Rightarrow> 'r prog"
  | AwaitPreview capability json principal_context "preview_execution outcome \<Rightarrow> 'r prog"
  | AwaitExecute string compiled_definition commit_execution principal_context "json outcome \<Rightarrow> 'r prog"
  | AwaitRecover capability commit_execution principal_context "recovery outcome \<Rightarrow> 'r prog"
  | AwaitEmit audit_event "unit outcome \<Rightarrow> 'r prog"
  | AwaitKey "string outcome \<Rightarrow> 'r prog"

text \<open>\<open>then_prog p f\<close> runs \<open>p\<close> and continues with its result or its exception.\<close>

primrec then_prog :: "'a prog \<Rightarrow> ('a outcome \<Rightarrow> 'b prog) \<Rightarrow> 'b prog" where
  "then_prog (Return r) f = f r"
| "then_prog (AwaitResolve h pid sid pack k) f = AwaitResolve h pid sid pack (\<lambda>r. then_prog (k r) f)"
| "then_prog (AwaitTransition h pid sid pack e t v k) f = AwaitTransition h pid sid pack e t v (\<lambda>r. then_prog (k r) f)"
| "then_prog (AwaitCreate q k) f = AwaitCreate q (\<lambda>r. then_prog (k r) f)"
| "then_prog (AwaitVerify h b k) f = AwaitVerify h b (\<lambda>r. then_prog (k r) f)"
| "then_prog (AwaitPreview c v p k) f = AwaitPreview c v p (\<lambda>r. then_prog (k r) f)"
| "then_prog (AwaitExecute h c x p k) f = AwaitExecute h c x p (\<lambda>r. then_prog (k r) f)"
| "then_prog (AwaitRecover c x p k) f = AwaitRecover c x p (\<lambda>r. then_prog (k r) f)"
| "then_prog (AwaitEmit e k) f = AwaitEmit e (\<lambda>r. then_prog (k r) f)"
| "then_prog (AwaitKey k) f = AwaitKey (\<lambda>r. then_prog (k r) f)"

text \<open>Sequencing, and the code between two awaits, which may raise.\<close>

definition bind_prog :: "'a prog \<Rightarrow> ('a \<Rightarrow> 'b prog) \<Rightarrow> 'b prog" where
  "bind_prog p f = then_prog p (\<lambda>r. case r of Inl e \<Rightarrow> Return (Inl e) | Inr x \<Rightarrow> f x)"

definition lift :: "'a outcome \<Rightarrow> ('a \<Rightarrow> 'b prog) \<Rightarrow> 'b prog" where
  "lift r f = (case r of Inl e \<Rightarrow> Return (Inl e) | Inr x \<Rightarrow> f x)"

lemma lift_simps [simp]: "lift (Inl e) f = Return (Inl e)" "lift (Inr x) f = f x"
  by (simp_all add: lift_def)

text \<open>\<open>except BaseException\<close> and \<open>except Exception\<close>; the latter lets a cancellation pass.\<close>

definition catch_all :: "'a prog \<Rightarrow> (action_error \<Rightarrow> 'a prog) \<Rightarrow> 'a prog" where
  "catch_all p f = then_prog p (\<lambda>r. case r of Inl e \<Rightarrow> f e | Inr x \<Rightarrow> Return (Inr x))"

section \<open>Audit spans\<close>

record audit_config =
  sink_present :: bool
  audit_salt :: "string option"
  audit_mode :: audit_mode

text \<open>\<open>_NoopActionAuditSpan\<close> is \<open>None\<close>. A span is finished at most once by its owner.\<close>

record audit_span =
  span_lifecycle :: lifecycle
  span_capability :: string
  span_pack :: string
  span_principal :: string
  span_session :: "string option"
  span_action :: "string option"

definition span_event ::
    "audit_span \<Rightarrow> action_status option \<Rightarrow> result_category \<Rightarrow> string option \<Rightarrow> string option \<Rightarrow> audit_event" where
  "span_event sp st cat act dec =
     \<lparr>ae_lifecycle = span_lifecycle sp, ae_capability = span_capability sp, ae_status = st,
      ae_category = cat, ae_pack = span_pack sp, ae_principal = span_principal sp,
      ae_session = span_session sp, ae_action = act, ae_decision = dec\<rparr>"

definition start_span ::
    "crypto \<Rightarrow> audit_config \<Rightarrow> lifecycle \<Rightarrow> string \<Rightarrow> string \<Rightarrow> string \<Rightarrow> string option \<Rightarrow> string option \<Rightarrow>
     audit_span option prog" where
  "start_span cr cfg lc cap pack pid sid act =
     (if \<not> sink_present cfg then Return (Inr None)
      else
        (case audit_salt cfg of
           None \<Rightarrow> Return (Inl AuditUnavailable)
         | Some salt \<Rightarrow>
             if length salt < 16 then Return (Inl AuditUnavailable)
             else
               lift (exact_identifier cap) (\<lambda>cap'.
               lift (exact_identifier pid) (\<lambda>pid'.
               lift (optional_identifier sid) (\<lambda>sid'.
               let sp = \<lparr>span_lifecycle = lc, span_capability = cap', span_pack = pack,
                         span_principal = binding_digest cr salt ''action-audit-principal'' pid',
                         span_session = map_option (binding_digest cr salt ''action-audit-session'') sid',
                         span_action = act\<rparr>;
                   started = span_event sp None Started act None
               in lift (check_event started) (\<lambda>_.
                  AwaitEmit started (\<lambda>r. case r of
                      Inr _ \<Rightarrow> Return (Inr (Some sp))
                    | Inl Cancelled \<Rightarrow> Return (Inl Cancelled)
                    | Inl _ \<Rightarrow> if audit_mode cfg = AuditRequired then Return (Inl AuditUnavailable)
                              else Return (Inr None))))))))"

definition finish_span ::
    "audit_config \<Rightarrow> audit_span option \<Rightarrow> action_status option \<Rightarrow> result_category \<Rightarrow> string option \<Rightarrow>
     string option \<Rightarrow> unit prog" where
  "finish_span cfg spn st cat act dec =
     (case spn of
        None \<Rightarrow> Return (Inr ())
      | Some sp \<Rightarrow>
          let ev = span_event sp st cat (case act of None \<Rightarrow> span_action sp | Some a \<Rightarrow> Some a) dec
          in lift (check_event ev) (\<lambda>_.
             AwaitEmit ev (\<lambda>r. case r of
                 Inr _ \<Rightarrow> Return (Inr ())
               | Inl Cancelled \<Rightarrow> Return (Inl Cancelled)
               | Inl _ \<Rightarrow> if audit_mode cfg = AuditRequired then Return (Inl AuditUnavailable)
                         else Return (Inr ()))))"

end
