(* ===== verification/Coordinator.thy ===== *)
theory Coordinator
  imports ActionProgram
begin

text \<open>
  \<^verbatim>\<open>acc_runtime/actions/coordinator.py\<close>: prepare, approve, commit and status as coroutines
  over the Store, the approval authority, the executor and the audit sink. The JSON Schema validator
  (the package \<^verbatim>\<open>jsonschema\<close>) is the parameter \<open>schema_valid\<close>.
\<close>

section \<open>The coordinator\<close>

record environment =
  env_crypto :: crypto
  schema_valid :: "json \<Rightarrow> json \<Rightarrow> bool"

record coordinator =
  co_definitions :: "(string, compiled_definition) dict"
  co_pack :: string
  co_policy :: deployment_policy
  co_resolver :: bool
  co_sink :: bool
  co_salt :: "string option"

definition audit_of :: "coordinator \<Rightarrow> audit_config" where
  "audit_of co = \<lparr>sink_present = co_sink co, audit_salt = co_salt co, audit_mode = action_audit_mode (co_policy co)\<rparr>"

text \<open>The loop of \<open>ActionCoordinator.__init__\<close> over the definitions.\<close>

fun check_definitions ::
    "(string \<Rightarrow> action_error + compiled_definition) \<Rightarrow> (string \<times> compiled_definition) list \<Rightarrow>
     (string, compiled_definition) dict \<Rightarrow> action_error + (string, compiled_definition) dict" where
  "check_definitions verified [] checked = Inr checked"
| "check_definitions verified ((cid, d) # ds) checked =
     (if cid \<noteq> cap_id (def_capability d) then Inl (PythonError ValueError)
      else
        (case verified cid of
           Inl _ \<Rightarrow> Inl DeploymentConfiguration
         | Inr v \<Rightarrow>
             if v \<noteq> d then Inl DeploymentConfiguration
             else check_definitions verified ds (dset checked cid v)))"

definition make_coordinator ::
    "(string, compiled_definition) dict \<Rightarrow> string \<Rightarrow> deployment_policy \<Rightarrow> bool \<Rightarrow> bool \<Rightarrow>
     (string \<Rightarrow> action_error + compiled_definition) \<Rightarrow> bool \<Rightarrow> string option \<Rightarrow> action_error + coordinator" where
  "make_coordinator ds pack policy store_is_durable resolver verified sink salt =
     rbind (validate_pack_digest pack) (\<lambda>_.
     if require_durable_action_store policy \<and> \<not> store_is_durable then Inl DeploymentConfiguration
     else if action_audit_mode policy = AuditRequired \<and> \<not> sink then Inl DeploymentConfiguration
     else if sink \<and> (case salt of None \<Rightarrow> True | Some s \<Rightarrow> length s < 16) then Inl DeploymentConfiguration
     else
       rbind (check_definitions verified ds []) (\<lambda>checked.
       Inr \<lparr>co_definitions = checked, co_pack = pack, co_policy = policy, co_resolver = resolver,
            co_sink = sink, co_salt = salt\<rparr>))"

definition lookup_definition :: "coordinator \<Rightarrow> string \<Rightarrow> action_error + compiled_definition" where
  "lookup_definition co cid =
     (case dget (co_definitions co) cid of None \<Rightarrow> Inl CapabilityNotFound | Some d \<Rightarrow> Inr d)"

text \<open>\<open>_authorize\<close>: the deployment ceiling, then the caller's effective scopes.\<close>

definition authorize_definition ::
    "coordinator \<Rightarrow> compiled_definition \<Rightarrow> principal_context \<Rightarrow> action_error + unit" where
  "authorize_definition co d ctx =
     (case maximum_risk (def_proof d) of
        None \<Rightarrow> Inl OtherException
      | Some r \<Rightarrow>
          (case evaluate (co_policy co) (cap_id (def_capability d))
                  (map effect_name (proof_effects (def_proof d))) (risk_name r) of
             Inl e \<Rightarrow> Inl (PythonError e)
           | Inr decision \<Rightarrow>
               if \<not> decision_allowed decision then Inl DeploymentDenied
               else
                 (let missing = filter (\<lambda>s. s \<notin> effective_scopes ctx) (sorted_set (proof_scopes (def_proof d)))
                  in if missing \<noteq> [] then Inl (ScopeDenied missing) else Inr ())))"

definition proof_digest :: "crypto \<Rightarrow> compiled_definition \<Rightarrow> string" where
  "proof_digest cr d = ''sha256:'' @ (case json_digest cr (proof_payload d) of None \<Rightarrow> [] | Some h \<Rightarrow> h)"

definition manifest_entry :: "crypto \<Rightarrow> compiled_definition \<Rightarrow> json" where
  "manifest_entry cr d =
     (let p = def_proof d; c = def_capability d in
      JObj [(''capability_id'', JStr (cap_id c)),
            (''title'', JStr (cap_title c)),
            (''input_schema'', cap_input_schema c),
            (''effects'', JArr (map (\<lambda>e. JStr (effect_name e)) (proof_effects p))),
            (''maximum_risk'', case maximum_risk p of None \<Rightarrow> JNull | Some r \<Rightarrow> JStr (risk_name r)),
            (''approval_required'', JBool (approval_required p)),
            (''proof_digest'', JStr (proof_digest cr d))])"

text \<open>\<open>public_manifest\<close>: the Actions the deployment allows, in the order of their identifiers.\<close>

definition advertised :: "coordinator \<Rightarrow> compiled_definition \<Rightarrow> action_error + bool" where
  "advertised co d =
     (case evaluate (co_policy co) (cap_id (def_capability d)) (map effect_name (proof_effects (def_proof d)))
             (case maximum_risk (def_proof d) of None \<Rightarrow> ''critical'' | Some r \<Rightarrow> risk_name r) of
        Inl e \<Rightarrow> Inl (PythonError e)
      | Inr decision \<Rightarrow> Inr (decision_allowed decision))"

definition public_manifest :: "environment \<Rightarrow> coordinator \<Rightarrow> action_error + json" where
  "public_manifest env co =
     rbind (traverse (\<lambda>p. rbind (advertised co (snd p)) (\<lambda>a.
              Inr (if a then [manifest_entry (env_crypto env) (snd p)] else [])))
            (sorted_items (co_definitions co)))
       (\<lambda>entries. Inr (JObj [(''schema_version'', JStr ''2''), (''pack_digest'', JStr (co_pack co)),
                            (''capabilities'', JArr (concat entries))]))"

section \<open>Values\<close>

definition canonical_or :: "action_error \<Rightarrow> json \<Rightarrow> action_error + json" where
  "canonical_or e v = (case canonical_copy v of None \<Rightarrow> Inl e | Some c \<Rightarrow> Inr c)"

definition sealed_version :: string where
  "sealed_version = ''acc.action.prepared.v1''"

definition seal_preview :: "json \<Rightarrow> json \<Rightarrow> string \<Rightarrow> bool \<Rightarrow> json \<Rightarrow> json" where
  "seal_preview preview token key terminal result =
     JObj [(''version'', JStr sealed_version), (''preview'', preview), (''concurrency_token'', token),
           (''idempotency_key'', JStr key), (''idempotent_terminal'', JBool terminal),
           (''idempotent_result'', result)]"

definition unseal_preview :: "json \<Rightarrow> action_error + json \<times> json \<times> string \<times> bool \<times> json" where
  "unseal_preview v =
     (case v of
        JObj fs \<Rightarrow>
          if dget fs ''version'' \<noteq> Some (JStr sealed_version) then Inl StateConflict
          else
            (case dget fs ''idempotency_key'' of
               Some (JStr key) \<Rightarrow>
                 if key = [] then Inl StateConflict
                 else
                   (case (case dget fs ''idempotent_terminal'' of None \<Rightarrow> JBool False | Some t \<Rightarrow> t) of
                      JBool terminal \<Rightarrow>
                        if \<not> terminal \<and> get_or_null fs ''idempotent_result'' \<noteq> JNull then Inl StateConflict
                        else Inr (get_or_null fs ''preview'', get_or_null fs ''concurrency_token'', key,
                                  terminal, get_or_null fs ''idempotent_result'')
                    | _ \<Rightarrow> Inl StateConflict)
             | _ \<Rightarrow> Inl StateConflict)
      | _ \<Rightarrow> Inl StateConflict)"

definition idempotency_key_ok :: "string \<Rightarrow> bool" where
  "idempotency_key_ok v \<longleftrightarrow>
     v \<noteq> [] \<and> length (utf8 v) \<le> 200 \<and> v = strip v \<and> \<not> list_ex is_control v"

text \<open>What a caller gets back.\<close>

record prepared_public =
  pp_handle :: string
  pp_capability :: string
  pp_status :: action_status
  pp_preview :: json
  pp_approval_required :: bool
  pp_expires_at :: rat

record status_public =
  sp_capability :: string
  sp_status :: action_status
  sp_result :: json

record commit_result =
  cm_capability :: string
  cm_status :: action_status
  cm_result :: json
  cm_replayed :: bool

definition public_status :: "prepared_state \<Rightarrow> json \<Rightarrow> status_public" where
  "public_status s v =
     \<lparr>sp_capability = record_capability (state_record s), sp_status = status_in s, sp_result = v\<rparr>"

text \<open>\<open>_audit_error_category\<close>: Python exceptions are not subclasses of the runtime's error.\<close>

fun audit_error_category :: "action_error \<Rightarrow> result_category" where
  "audit_error_category DeploymentDenied = Denied"
| "audit_error_category (ScopeDenied _) = Denied"
| "audit_error_category (PythonError _) = Internal"
| "audit_error_category PayloadKeyError = Internal"
| "audit_error_category OtherException = Internal"
| "audit_error_category Cancelled = Internal"
| "audit_error_category _ = Invalid"

section \<open>Awaited Store calls\<close>

definition resolve_call :: "coordinator \<Rightarrow> string \<Rightarrow> principal_context \<Rightarrow> prepared_state prog" where
  "resolve_call co h ctx = AwaitResolve h (principal_id ctx) (gateway_session_id ctx) (co_pack co) Return"

definition transition_call ::
    "coordinator \<Rightarrow> string \<Rightarrow> principal_context \<Rightarrow> action_status \<Rightarrow> action_status \<Rightarrow> json \<Rightarrow> prepared_state prog" where
  "transition_call co h ctx e t v =
     AwaitTransition h (principal_id ctx) (gateway_session_id ctx) (co_pack co) e t v Return"

text \<open>\<open>_mark_outcome_unknown\<close> swallows every failure.\<close>

definition mark_outcome_unknown :: "coordinator \<Rightarrow> string \<Rightarrow> principal_context \<Rightarrow> unit prog" where
  "mark_outcome_unknown co h ctx =
     then_prog (transition_call co h ctx Committing OutcomeUnknown JNull) (\<lambda>_. Return (Inr ()))"

definition resolved_status_or_none ::
    "coordinator \<Rightarrow> string \<Rightarrow> principal_context \<Rightarrow> action_status option prog" where
  "resolved_status_or_none co h ctx =
     then_prog (resolve_call co h ctx)
       (\<lambda>r. case r of Inl _ \<Rightarrow> Return (Inr None) | Inr s \<Rightarrow> Return (Inr (Some (status_in s))))"

definition finish_cancelled :: "coordinator \<Rightarrow> audit_span option \<Rightarrow> action_status option \<Rightarrow> unit prog" where
  "finish_cancelled co spn st =
     then_prog (finish_span (audit_of co) spn st CancelledCategory None None) (\<lambda>_. Return (Inr ()))"

section \<open>Prepare\<close>

definition needs_token :: "preview_execution \<Rightarrow> compiled_definition \<Rightarrow> bool" where
  "needs_token pv d =
     (case pe_token_required pv of
        Some b \<Rightarrow> b
      | None \<Rightarrow> list_ex (\<lambda>e. e \<in> {Update, Delete, Transition}) (proof_effects (def_proof d)))"

text \<open>The checks between the preview and the Store call; what it returns is sealed.\<close>

definition check_preview ::
    "preview_execution \<Rightarrow> compiled_definition \<Rightarrow> action_error + json \<times> json \<times> json" where
  "check_preview pv d =
     rbind (canonical_or PreviewInvalid (pe_value pv)) (\<lambda>value.
     rbind (canonical_or PreviewInvalid (pe_token pv)) (\<lambda>token.
     rbind (canonical_or PreviewInvalid (pe_result pv)) (\<lambda>result.
     if \<not> pe_terminal pv \<and> result \<noteq> JNull then Inl PreviewInvalid
     else if needs_token pv d \<and> token = JNull then Inl PreviewInvalid
     else Inr (value, token, result))))"

definition new_idempotency_key :: "string prog" where
  "new_idempotency_key =
     AwaitKey (\<lambda>r. case r of
        Inl _ \<Rightarrow> Return (Inl PreviewInvalid)
      | Inr v \<Rightarrow> if idempotency_key_ok v then Return (Inr v) else Return (Inl PreviewInvalid))"

definition prepared_of :: "compiled_definition \<Rightarrow> string \<Rightarrow> prepared_state \<Rightarrow> json \<Rightarrow> prepared_public prog" where
  "prepared_of d h s preview =
     lift (canonical_or PreviewInvalid preview) (\<lambda>shown.
     Return (Inr \<lparr>pp_handle = h, pp_capability = cap_id (def_capability d), pp_status = status_in s,
                  pp_preview = shown, pp_approval_required = approval_required (def_proof d),
                  pp_expires_at = expires_at (state_record s)\<rparr>))"

definition store_prepared ::
    "coordinator \<Rightarrow> compiled_definition \<Rightarrow> principal_context \<Rightarrow> json \<Rightarrow> json \<Rightarrow> json \<Rightarrow> string \<Rightarrow> bool \<Rightarrow> json \<Rightarrow>
     prepared_public prog" where
  "store_prepared co d ctx input preview token key terminal result =
     AwaitCreate \<lparr>cr_capability = cap_id (def_capability d), cr_principal = principal_id ctx,
             cr_session = gateway_session_id ctx, cr_pack = co_pack co, cr_input = input,
             cr_preview = seal_preview preview token key terminal result,
             cr_expires_in = (case contract_of (cap_body (def_capability d)) of
                None \<Rightarrow> 0 | Some c \<Rightarrow> expires_in_seconds c)\<rparr>
       (\<lambda>r. lift r (\<lambda>(h, s).
          if approval_required (def_proof d) then prepared_of d h s preview
          else bind_prog (transition_call co h ctx Prepared Approved JNull) (\<lambda>s'. prepared_of d h s' preview)))"

definition prepare_body ::
    "environment \<Rightarrow> coordinator \<Rightarrow> string \<Rightarrow> (string, json) dict \<Rightarrow> principal_context \<Rightarrow> prepared_public prog" where
  "prepare_body env co cid arguments ctx =
     lift (lookup_definition co cid) (\<lambda>d.
     lift (authorize_definition co d ctx) (\<lambda>_.
     lift (canonical_or InputInvalid (JObj arguments)) (\<lambda>input.
     if \<not> schema_valid env (cap_input_schema (def_capability d)) input then Return (Inl InputInvalid)
     else
       AwaitPreview (def_capability d) input ctx (\<lambda>r. case r of
         Inl Cancelled \<Rightarrow> Return (Inl Cancelled)
       | Inl _ \<Rightarrow> Return (Inl PreviewInvalid)
       | Inr pv \<Rightarrow>
           lift (check_preview pv d) (\<lambda>(value, token, result).
           bind_prog new_idempotency_key (\<lambda>key.
           store_prepared co d ctx input value token key (pe_terminal pv) result))))))"

definition prepare ::
    "environment \<Rightarrow> coordinator \<Rightarrow> string \<Rightarrow> (string, json) dict \<Rightarrow> principal_context \<Rightarrow> prepared_public prog" where
  "prepare env co cid arguments ctx =
     lift (lookup_definition co cid) (\<lambda>d.
     bind_prog (start_span (env_crypto env) (audit_of co) PrepareLifecycle (cap_id (def_capability d))
                 (co_pack co) (principal_id ctx) (gateway_session_id ctx) None) (\<lambda>spn.
     then_prog (prepare_body env co cid arguments ctx) (\<lambda>r. case r of
         Inl Cancelled \<Rightarrow> bind_prog (finish_cancelled co spn None) (\<lambda>_. Return (Inl Cancelled))
       | Inl e \<Rightarrow> bind_prog (finish_span (audit_of co) spn None (audit_error_category e) None None)
                   (\<lambda>_. Return (Inl e))
       | Inr p \<Rightarrow> bind_prog (finish_span (audit_of co) spn (Some (pp_status p)) Success
                     (Some (sha256_hex (env_crypto env) (pp_handle p))) None) (\<lambda>_. Return (Inr p)))))"

section \<open>Approve\<close>

definition awaiting_approval ::
    "coordinator \<Rightarrow> prepared_state \<Rightarrow> principal_context \<Rightarrow> action_error + approval_binding" where
  "awaiting_approval co s ctx =
     rbind (lookup_definition co (record_capability (state_record s))) (\<lambda>d.
     rbind (authorize_definition co d ctx) (\<lambda>_.
     if \<not> approval_required (def_proof d) then Inl StateConflict
     else if status_in s \<noteq> Prepared then Inl StateConflict
     else binding_from_record (state_record s)))"

definition approval_binding_for_trusted_host ::
    "coordinator \<Rightarrow> string \<Rightarrow> principal_context \<Rightarrow> approval_binding prog" where
  "approval_binding_for_trusted_host co h ctx =
     bind_prog (resolve_call co h ctx) (\<lambda>s. Return (awaiting_approval co s ctx))"

definition approve_body ::
    "coordinator \<Rightarrow> string \<Rightarrow> string \<Rightarrow> principal_context \<Rightarrow> (status_public \<times> string) prog" where
  "approve_body co h approval_handle ctx =
     bind_prog (resolve_call co h ctx) (\<lambda>s.
     lift (awaiting_approval co s ctx) (\<lambda>b.
     AwaitVerify approval_handle b (\<lambda>r. lift r (\<lambda>g.
     bind_prog (transition_call co h ctx Prepared Approved JNull) (\<lambda>s'.
     Return (Inr (public_status s' JNull,
                  case decision_id g of Some d \<Rightarrow> d | None \<Rightarrow> approval_digest g)))))))"

definition approve ::
    "environment \<Rightarrow> coordinator \<Rightarrow> string \<Rightarrow> string \<Rightarrow> principal_context \<Rightarrow> status_public prog" where
  "approve env co h approval_handle ctx =
     bind_prog (resolve_call co h ctx) (\<lambda>existing.
     bind_prog (start_span (env_crypto env) (audit_of co) ApproveLifecycle
                 (record_capability (state_record existing)) (co_pack co) (principal_id ctx)
                 (gateway_session_id ctx) (Some (handle_digest (state_record existing)))) (\<lambda>spn.
     then_prog (approve_body co h approval_handle ctx) (\<lambda>r. case r of
         Inl Cancelled \<Rightarrow> bind_prog (finish_cancelled co spn (Some (status_in existing))) (\<lambda>_. Return (Inl Cancelled))
       | Inl e \<Rightarrow> bind_prog (finish_span (audit_of co) spn (Some (status_in existing)) (audit_error_category e) None None)
                   (\<lambda>_. Return (Inl e))
       | Inr (p, decision) \<Rightarrow> bind_prog (finish_span (audit_of co) spn (Some (sp_status p)) Success None (Some decision))
                   (\<lambda>_. Return (Inr p)))))"

section \<open>Commit\<close>

definition execution_of :: "prepared_state \<Rightarrow> action_error + commit_execution" where
  "execution_of s =
     rbind (unseal_preview (preview_value s)) (\<lambda>(preview, token, key, terminal, result).
     rbind (canonical_or StateConflict (input_value s)) (\<lambda>input.
     Inr \<lparr>ex_input = input, ex_preview = preview, ex_token = token, ex_key = key,
          ex_terminal = terminal, ex_result = result\<rparr>))"

text \<open>The two \<open>except\<close> branches after a failed execution or a failed final transition.\<close>

definition outcome_unknown :: "coordinator \<Rightarrow> string \<Rightarrow> principal_context \<Rightarrow> action_error \<Rightarrow> 'r prog" where
  "outcome_unknown co h ctx e =
     bind_prog (mark_outcome_unknown co h ctx)
       (\<lambda>_. Return (Inl (if e = Cancelled then Cancelled else StateConflict)))"

definition record_success :: "coordinator \<Rightarrow> string \<Rightarrow> principal_context \<Rightarrow> json \<Rightarrow> commit_result prog" where
  "record_success co h ctx v =
     then_prog (transition_call co h ctx Committing Succeeded v) (\<lambda>r. case r of
        Inl e \<Rightarrow> outcome_unknown co h ctx e
      | Inr s \<Rightarrow> Return (Inr \<lparr>cm_capability = record_capability (state_record s), cm_status = status_in s,
                              cm_result = result_value s, cm_replayed = False\<rparr>))"

definition commit_body :: "coordinator \<Rightarrow> string \<Rightarrow> principal_context \<Rightarrow> commit_result prog" where
  "commit_body co h ctx =
     bind_prog (resolve_call co h ctx) (\<lambda>s.
     lift (lookup_definition co (record_capability (state_record s))) (\<lambda>d.
     lift (authorize_definition co d ctx) (\<lambda>_.
     if status_in s = Succeeded
     then Return (Inr \<lparr>cm_capability = record_capability (state_record s), cm_status = Succeeded,
                       cm_result = result_value s, cm_replayed = True\<rparr>)
     else if status_in s \<noteq> Approved then Return (Inl StateConflict)
     else
       bind_prog (transition_call co h ctx Approved Committing JNull) (\<lambda>committing.
       lift (execution_of committing) (\<lambda>ex.
       AwaitExecute h d ex ctx (\<lambda>r.
         case rbind r (canonical_or StateConflict) of
           Inl e \<Rightarrow> outcome_unknown co h ctx e
         | Inr v \<Rightarrow> record_success co h ctx v))))))"

definition commit_error_category :: "action_error \<Rightarrow> action_status option \<Rightarrow> result_category" where
  "commit_error_category e st =
     (if st = Some OutcomeUnknown then OutcomeUnknownCategory else audit_error_category e)"

text \<open>The audit epilogue of \<open>commit\<close>: what follows the \<open>try\<close> around the body.\<close>

definition commit_epilogue ::
    "coordinator \<Rightarrow> string \<Rightarrow> principal_context \<Rightarrow> audit_span option \<Rightarrow> commit_result outcome \<Rightarrow> commit_result prog" where
  "commit_epilogue co h ctx spn r =
     (case r of
        Inl e \<Rightarrow>
          bind_prog (resolved_status_or_none co h ctx) (\<lambda>st.
          if e = Cancelled then bind_prog (finish_cancelled co spn st) (\<lambda>_. Return (Inl Cancelled))
          else bind_prog (finish_span (audit_of co) spn st (commit_error_category e st) None None)
                 (\<lambda>_. Return (Inl e)))
      | Inr c \<Rightarrow>
          then_prog (finish_span (audit_of co) spn (Some (cm_status c))
              (if cm_replayed c then Replayed else Success) None None) (\<lambda>f. case f of
              Inl AuditUnavailable \<Rightarrow> Return (Inl StateConflict)
            | Inl e \<Rightarrow> Return (Inl e)
            | Inr _ \<Rightarrow> Return (Inr c)))"

definition commit :: "environment \<Rightarrow> coordinator \<Rightarrow> string \<Rightarrow> principal_context \<Rightarrow> commit_result prog" where
  "commit env co h ctx =
     bind_prog (resolve_call co h ctx) (\<lambda>existing.
     bind_prog (start_span (env_crypto env) (audit_of co) CommitLifecycle
                 (record_capability (state_record existing)) (co_pack co) (principal_id ctx)
                 (gateway_session_id ctx) (Some (handle_digest (state_record existing)))) (\<lambda>spn.
     then_prog (commit_body co h ctx) (commit_epilogue co h ctx spn)))"

section \<open>Status\<close>

definition published :: "prepared_state \<Rightarrow> status_public prog" where
  "published s = Return (Inr (public_status s (if status_in s = Succeeded then result_value s else JNull)))"

text \<open>A validated recovered result is persisted; a lost race is accepted only if it succeeded.\<close>

definition persist_recovery ::
    "environment \<Rightarrow> coordinator \<Rightarrow> compiled_definition \<Rightarrow> string \<Rightarrow> principal_context \<Rightarrow> json \<Rightarrow> prepared_state prog" where
  "persist_recovery env co d h ctx v =
     lift (canonical_or StateConflict v) (\<lambda>safe.
     if \<not> schema_valid env (cap_output_schema (def_capability d)) safe then Return (Inl StateConflict)
     else
       then_prog (transition_call co h ctx OutcomeUnknown Succeeded safe) (\<lambda>r. case r of
           Inr s \<Rightarrow> Return (Inr s)
         | Inl e \<Rightarrow>
             if e \<noteq> StateConflict then Return (Inl e)
             else bind_prog (resolve_call co h ctx) (\<lambda>s.
                  if status_in s \<noteq> Succeeded then Return (Inl StateConflict) else Return (Inr s))))"

definition status_body :: "environment \<Rightarrow> coordinator \<Rightarrow> string \<Rightarrow> principal_context \<Rightarrow> status_public prog" where
  "status_body env co h ctx =
     bind_prog (resolve_call co h ctx) (\<lambda>s.
     lift (lookup_definition co (record_capability (state_record s))) (\<lambda>d.
     lift (authorize_definition co d ctx) (\<lambda>_.
     if status_in s = OutcomeUnknown \<and> co_resolver co
     then
       lift (execution_of s) (\<lambda>ex.
       AwaitRecover (def_capability d) ex ctx (\<lambda>r. case r of
           Inl Cancelled \<Rightarrow> Return (Inl Cancelled)
         | Inl _ \<Rightarrow> published s
         | Inr Unresolved \<Rightarrow> published s
         | Inr (Resolved v) \<Rightarrow> bind_prog (persist_recovery env co d h ctx v) published))
     else published s)))"

definition status :: "environment \<Rightarrow> coordinator \<Rightarrow> string \<Rightarrow> principal_context \<Rightarrow> status_public prog" where
  "status env co h ctx =
     bind_prog (resolve_call co h ctx) (\<lambda>existing.
     bind_prog (start_span (env_crypto env) (audit_of co) StatusLifecycle
                 (record_capability (state_record existing)) (co_pack co) (principal_id ctx)
                 (gateway_session_id ctx) (Some (handle_digest (state_record existing)))) (\<lambda>spn.
     then_prog (status_body env co h ctx) (\<lambda>r. case r of
         Inl Cancelled \<Rightarrow> bind_prog (finish_cancelled co spn (Some (status_in existing))) (\<lambda>_. Return (Inl Cancelled))
       | Inl e \<Rightarrow> bind_prog (finish_span (audit_of co) spn (Some (status_in existing)) (audit_error_category e) None None)
                   (\<lambda>_. Return (Inl e))
       | Inr p \<Rightarrow> bind_prog (finish_span (audit_of co) spn (Some (sp_status p)) Success None None)
                   (\<lambda>_. Return (Inr p)))))"

section \<open>Constructed coordinators\<close>

text \<open>Definitions sit under their own capability identifier and are what the executor verified.\<close>

definition coordinator_ok :: "coordinator \<Rightarrow> bool" where
  "coordinator_ok co \<longleftrightarrow>
     (\<forall>cid d. dget (co_definitions co) cid = Some d \<longrightarrow> cap_id (def_capability d) = cid)"

lemma check_definitions_Inr:
  "check_definitions verified ds checked = Inr out \<Longrightarrow> dget out cid = Some d \<Longrightarrow>
     dget checked cid = Some d \<or> (cap_id (def_capability d) = cid \<and> verified cid = Inr d)"
proof (induction verified ds checked rule: check_definitions.induct)
  case (2 verified cid' d' ds checked)
  then show ?case by (fastforce split: if_splits sum.splits)
qed simp

lemma make_coordinator_Inr:
  assumes "make_coordinator ds pack policy durable resolver verified sink salt = Inr co"
  shows "coordinator_ok co" "co_pack co = pack" "co_policy co = policy"
    "dget (co_definitions co) cid = Some d \<Longrightarrow> verified cid = Inr d"
    "require_durable_action_store policy \<Longrightarrow> durable"
    "action_audit_mode policy = AuditRequired \<Longrightarrow> co_sink co"
proof -
  from assms obtain checked where c: "check_definitions verified ds [] = Inr checked"
    and co: "co = \<lparr>co_definitions = checked, co_pack = pack, co_policy = policy, co_resolver = resolver,
                  co_sink = sink, co_salt = salt\<rparr>"
    and g: "require_durable_action_store policy \<longrightarrow> durable" "action_audit_mode policy = AuditRequired \<longrightarrow> sink"
    unfolding make_coordinator_def rbind_Inr_iff by (auto simp: rbind_Inr_iff split: if_splits)
  note d = check_definitions_Inr [OF c]
  show "coordinator_ok co" unfolding coordinator_ok_def co using d by fastforce
  show "co_pack co = pack" "co_policy co = policy" by (simp_all add: co)
  show "dget (co_definitions co) cid = Some d \<Longrightarrow> verified cid = Inr d" using d [of cid d] by (simp add: co)
  show "require_durable_action_store policy \<Longrightarrow> durable"
    "action_audit_mode policy = AuditRequired \<Longrightarrow> co_sink co" using g by (simp_all add: co)
qed

lemma authorize_definition_Inr:
  "authorize_definition co d ctx = Inr u \<longleftrightarrow>
     (\<exists>r decision. maximum_risk (def_proof d) = Some r \<and>
        evaluate (co_policy co) (cap_id (def_capability d)) (map effect_name (proof_effects (def_proof d))) (risk_name r)
          = Inr decision \<and> decision_allowed decision) \<and>
     set (proof_scopes (def_proof d)) \<subseteq> effective_scopes ctx"
  unfolding authorize_definition_def Let_def
  by (auto simp: filter_empty_conv split: option.splits sum.splits if_splits)

section \<open>Sealed previews\<close>

lemma sorted_items_seal:
  "sort_keys (seal_preview preview token key terminal result) =
     JObj [(''concurrency_token'', sort_keys token), (''idempotency_key'', JStr key),
           (''idempotent_result'', sort_keys result), (''idempotent_terminal'', JBool terminal),
           (''preview'', sort_keys preview), (''version'', JStr sealed_version)]"
  by (simp add: seal_preview_def sorted_items_def less_list_code list_le_def less_eq_char_def less_char_def)

lemma unseal_seal:
  assumes "key \<noteq> []" "\<not> terminal \<longrightarrow> result = JNull"
  shows "unseal_preview (sort_keys (seal_preview preview token key terminal result)) =
     Inr (sort_keys preview, sort_keys token, key, terminal, sort_keys result)"
  using assms by (auto simp: sorted_items_seal unseal_preview_def get_or_null_def)

end
