(* ===== verification/Interleaving.thy ===== *)
theory Interleaving
  imports Coordinator
begin

text \<open>
  Concurrent use of the coordinator. Any number of requests run as coroutines; a schedule says which
  coroutine is answered next and how: served by the Store or the authority at some clock reading,
  cancelled before or after the call took effect, or replied to by the executor. The log records every
  commit call of the executor and every grant. A weakest precondition over coroutines carries the
  proofs, and the facts below hold for every Store and authority that keep their contracts.
\<close>

section \<open>Worlds and answers\<close>

datatype answer =
    Served "rat option" string
  | Interrupted
  | InterruptedAfter "rat option" string
  | PreviewReply "preview_execution outcome"
  | ExecuteReply "json outcome"
  | RecoverReply "recovery outcome"
  | EmitReply "unit outcome"
  | KeyReply "string outcome"

text \<open>The clock reading and the generated handle with which a Store or authority call is served.\<close>

fun served :: "answer \<Rightarrow> (rat option \<times> string) option" where
  "served (Served c h) = Some (c, h)"
| "served (InterruptedAfter c h) = Some (c, h)"
| "served _ = None"

fun delivered :: "answer \<Rightarrow> 'a outcome \<Rightarrow> 'a outcome" where
  "delivered (InterruptedAfter c h) r = Inl Cancelled"
| "delivered _ r = r"

lemma delivered_Inr: "delivered a r = Inr x \<Longrightarrow> r = Inr x"
  by (cases a) auto

record ('st, 'au) services =
  sv_store :: "'st store_ops"
  sv_authority :: "'au approval_ops"

datatype log_entry =
    Executed string compiled_definition commit_execution principal_context
  | Granted string approval_binding

record ('st, 'au) world =
  w_store :: 'st
  w_authority :: 'au
  w_log :: "log_entry list"

fun step_prog ::
    "('st, 'au) services \<Rightarrow> ('st, 'au) world \<Rightarrow> 'r prog \<Rightarrow> answer \<Rightarrow> 'r prog \<times> ('st, 'au) world" where
  "step_prog sv w (Return r) a = (Return r, w)"
| "step_prog sv w (AwaitResolve h pid sid pack k) a =
     (if a = Interrupted then (k (Inl Cancelled), w)
      else (case served a of
              None \<Rightarrow> (AwaitResolve h pid sid pack k, w)
            | Some (c, _) \<Rightarrow>
                (case resolve_op (sv_store sv) (w_store w) c h pid sid pack of
                   (r, st') \<Rightarrow> (k (delivered a r), w\<lparr>w_store := st'\<rparr>))))"
| "step_prog sv w (AwaitTransition h pid sid pack e t v k) a =
     (if a = Interrupted then (k (Inl Cancelled), w)
      else (case served a of
              None \<Rightarrow> (AwaitTransition h pid sid pack e t v k, w)
            | Some (c, _) \<Rightarrow>
                (case transition_op (sv_store sv) (w_store w) c h pid sid pack e t v of
                   (r, st') \<Rightarrow> (k (delivered a r), w\<lparr>w_store := st'\<rparr>))))"
| "step_prog sv w (AwaitCreate q k) a =
     (if a = Interrupted then (k (Inl Cancelled), w)
      else (case served a of
              None \<Rightarrow> (AwaitCreate q k, w)
            | Some (c, h) \<Rightarrow>
                (case create_op (sv_store sv) (w_store w) c h q of
                   (r, st') \<Rightarrow> (k (delivered a r), w\<lparr>w_store := st'\<rparr>))))"
| "step_prog sv w (AwaitVerify h b k) a =
     (if a = Interrupted then (k (Inl Cancelled), w)
      else (case served a of
              None \<Rightarrow> (AwaitVerify h b k, w)
            | Some (c, _) \<Rightarrow>
                (case verify_op (sv_authority sv) (w_authority w) c h b of
                   (r, au') \<Rightarrow>
                     (k (delivered a r),
                      w\<lparr>w_authority := au',
                        w_log := (case r of Inr _ \<Rightarrow> [Granted h b] | Inl _ \<Rightarrow> []) @ w_log w\<rparr>))))"
| "step_prog sv w (AwaitPreview c v p k) a =
     (case a of
        Interrupted \<Rightarrow> (k (Inl Cancelled), w)
      | PreviewReply r \<Rightarrow> (k r, w)
      | _ \<Rightarrow> (AwaitPreview c v p k, w))"
| "step_prog sv w (AwaitExecute h d x p k) a =
     (case a of
        Interrupted \<Rightarrow> (k (Inl Cancelled), w\<lparr>w_log := Executed h d x p # w_log w\<rparr>)
      | ExecuteReply r \<Rightarrow> (k r, w\<lparr>w_log := Executed h d x p # w_log w\<rparr>)
      | _ \<Rightarrow> (AwaitExecute h d x p k, w))"
| "step_prog sv w (AwaitRecover c x p k) a =
     (case a of
        Interrupted \<Rightarrow> (k (Inl Cancelled), w)
      | RecoverReply r \<Rightarrow> (k r, w)
      | _ \<Rightarrow> (AwaitRecover c x p k, w))"
| "step_prog sv w (AwaitEmit e k) a =
     (case a of
        Interrupted \<Rightarrow> (k (Inl Cancelled), w)
      | EmitReply r \<Rightarrow> (k r, w)
      | _ \<Rightarrow> (AwaitEmit e k, w))"
| "step_prog sv w (AwaitKey k) a =
     (case a of KeyReply r \<Rightarrow> (k r, w) | _ \<Rightarrow> (AwaitKey k, w))"

section \<open>Requests and schedules\<close>

datatype request =
    PrepareRequest string "(string, json) dict" principal_context
  | BindingRequest string principal_context
  | ApproveRequest string string principal_context
  | CommitRequest string principal_context
  | StatusRequest string principal_context

datatype op_result =
    PreparedResult prepared_public
  | BindingResult approval_binding
  | StatusResult status_public
  | CommitResult commit_result

definition map_prog :: "('a \<Rightarrow> 'b) \<Rightarrow> 'a prog \<Rightarrow> 'b prog" where
  "map_prog f p = bind_prog p (\<lambda>x. Return (Inr (f x)))"

fun start_request :: "environment \<Rightarrow> coordinator \<Rightarrow> request \<Rightarrow> op_result prog" where
  "start_request env co (PrepareRequest cid args ctx) = map_prog PreparedResult (prepare env co cid args ctx)"
| "start_request env co (BindingRequest h ctx) =
     map_prog BindingResult (approval_binding_for_trusted_host co h ctx)"
| "start_request env co (ApproveRequest h ah ctx) = map_prog StatusResult (approve env co h ah ctx)"
| "start_request env co (CommitRequest h ctx) = map_prog CommitResult (commit env co h ctx)"
| "start_request env co (StatusRequest h ctx) = map_prog StatusResult (status env co h ctx)"

record ('st, 'au) system =
  s_world :: "('st, 'au) world"
  s_tasks :: "op_result prog list"

datatype event = Begin request | Answer nat answer

fun system_step ::
    "environment \<Rightarrow> coordinator \<Rightarrow> ('st, 'au) services \<Rightarrow> ('st, 'au) system \<Rightarrow> event \<Rightarrow> ('st, 'au) system" where
  "system_step env co sv s (Begin rq) = s\<lparr>s_tasks := s_tasks s @ [start_request env co rq]\<rparr>"
| "system_step env co sv s (Answer i a) =
     (if i < length (s_tasks s)
      then (case step_prog sv (s_world s) (s_tasks s ! i) a of
              (p, w) \<Rightarrow> s\<lparr>s_world := w, s_tasks := (s_tasks s)[i := p]\<rparr>)
      else s)"

definition run_schedule ::
    "environment \<Rightarrow> coordinator \<Rightarrow> ('st, 'au) services \<Rightarrow> ('st, 'au) system \<Rightarrow> event list \<Rightarrow> ('st, 'au) system" where
  "run_schedule env co sv s evs = fold (\<lambda>ev s. system_step env co sv s ev) evs s"

definition fresh_system :: "'st \<Rightarrow> 'au \<Rightarrow> ('st, 'au) system" where
  "fresh_system st au = \<lparr>s_world = \<lparr>w_store = st, w_authority = au, w_log = []\<rparr>, s_tasks = []\<rparr>"

section \<open>Facts a coroutine has learned\<close>

text \<open>
  \<open>owned\<close>: handles this coroutine moved to \<open>Committing\<close> and has not executed yet; \<open>known\<close>: states
  it was shown; \<open>granted\<close>: bindings it was granted.
\<close>

record facts =
  owned :: "string list"
  known :: "(string \<times> prepared_state) set"
  granted :: "approval_binding set"

definition no_facts :: facts where
  "no_facts = \<lparr>owned = [], known = {}, granted = {}\<rparr>"

definition learn :: "string \<Rightarrow> prepared_state \<Rightarrow> facts \<Rightarrow> facts" where
  "learn h s F = F\<lparr>known := insert (h, s) (known F)\<rparr>"

definition consistent :: "facts \<Rightarrow> string \<Rightarrow> prepared_state \<Rightarrow> bool" where
  "consistent F h s \<longleftrightarrow> (\<forall>s1. (h, s1) \<in> known F \<longrightarrow> sealed s1 = sealed s)"

text \<open>The Action needs no approval, or one was granted for exactly its record.\<close>

definition approved_by :: "coordinator \<Rightarrow> approval_binding set \<Rightarrow> prepared_state \<Rightarrow> bool" where
  "approved_by co G s \<longleftrightarrow>
     (\<exists>d. dget (co_definitions co) (record_capability (state_record s)) = Some d \<and>
        (\<not> approval_required (def_proof d) \<or>
         (\<exists>b \<in> G. binding_from_record (state_record s) = Inr b)))"

definition may_approve :: "coordinator \<Rightarrow> facts \<Rightarrow> string \<Rightarrow> bool" where
  "may_approve co F h \<longleftrightarrow> (\<exists>s. (h, s) \<in> known F \<and> approved_by co (granted F) s)"

definition may_execute ::
    "coordinator \<Rightarrow> facts \<Rightarrow> string \<Rightarrow> compiled_definition \<Rightarrow> commit_execution \<Rightarrow> principal_context \<Rightarrow> bool" where
  "may_execute co F h d x ctx \<longleftrightarrow>
     h \<in> set (owned F) \<and> authorize_definition co d ctx = Inr () \<and>
     (\<exists>s. (h, s) \<in> known F \<and> dget (co_definitions co) (record_capability (state_record s)) = Some d \<and>
          execution_of s = Inr x)"

section \<open>Weakest preconditions\<close>

primrec wp :: "coordinator \<Rightarrow> 'r prog \<Rightarrow> facts \<Rightarrow> ('r outcome \<Rightarrow> facts \<Rightarrow> bool) \<Rightarrow> bool" where
  "wp co (Return r) F Q = Q r F"
| "wp co (AwaitResolve h pid sid pack k) F Q =
     ((\<forall>e. wp co (k (Inl e)) F Q) \<and>
      (\<forall>s. consistent F h s \<longrightarrow> wp co (k (Inr s)) (learn h s F) Q))"
| "wp co (AwaitTransition h pid sid pack e t v k) F Q =
     ((e = Prepared \<and> t = Approved \<longrightarrow> may_approve co F h) \<and>
      (\<forall>e'. wp co (k (Inl e')) F Q) \<and>
      (\<forall>s. consistent F h s \<and> status_in s = t \<longrightarrow>
        wp co (k (Inr s))
          (let F' = learn h s F in if e = Approved \<and> t = Committing then F'\<lparr>owned := h # owned F'\<rparr> else F') Q))"
| "wp co (AwaitCreate q k) F Q =
     ((\<forall>e. wp co (k (Inl e)) F Q) \<and>
      (\<forall>h s. record_capability (state_record s) = cr_capability q \<longrightarrow> wp co (k (Inr (h, s))) (learn h s F) Q))"
| "wp co (AwaitVerify h b k) F Q =
     ((\<forall>e. wp co (k (Inl e)) F Q) \<and>
      (\<forall>g. wp co (k (Inr g)) (F\<lparr>granted := insert b (granted F)\<rparr>) Q))"
| "wp co (AwaitPreview c v p k) F Q = (\<forall>r. wp co (k r) F Q)"
| "wp co (AwaitExecute h d x p k) F Q =
     (may_execute co F h d x p \<and> (\<forall>r. wp co (k r) (F\<lparr>owned := remove1 h (owned F)\<rparr>) Q))"
| "wp co (AwaitRecover c x p k) F Q = (\<forall>r. wp co (k r) F Q)"
| "wp co (AwaitEmit e k) F Q = (\<forall>r. wp co (k r) F Q)"
| "wp co (AwaitKey k) F Q = (\<forall>r. wp co (k r) F Q)"

lemma wp_then [simp]: "wp co (then_prog p f) F Q = wp co p F (\<lambda>r F'. wp co (f r) F' Q)"
  by (induction p arbitrary: F) (simp_all add: Let_def)

lemma wp_case_sum:
  "wp co (case r of Inl e \<Rightarrow> f e | Inr x \<Rightarrow> g x) F Q = (case r of Inl e \<Rightarrow> wp co (f e) F Q | Inr x \<Rightarrow> wp co (g x) F Q)"
  by (cases r) auto

lemma wp_bind [simp]:
  "wp co (bind_prog p f) F Q =
     wp co p F (\<lambda>r F'. case r of Inl e \<Rightarrow> Q (Inl e) F' | Inr x \<Rightarrow> wp co (f x) F' Q)"
  by (simp add: bind_prog_def wp_case_sum cong: sum.case_cong)

lemma wp_lift [simp]:
  "wp co (lift r f) F Q = (case r of Inl e \<Rightarrow> Q (Inl e) F | Inr x \<Rightarrow> wp co (f x) F Q)"
  by (simp add: lift_def wp_case_sum cong: sum.case_cong)

text \<open>Awaits that neither use nor give facts.\<close>

lemma wp_start_span: "(\<And>r. Q r F) \<Longrightarrow> wp co (start_span cr cfg lc cap pack pid sid act) F Q"
  unfolding start_span_def Let_def
  by (auto simp: wp_case_sum split: option.splits sum.splits action_error.splits)

lemma wp_finish_span: "(\<And>r. Q r F) \<Longrightarrow> wp co (finish_span cfg spn st cat act dec) F Q"
  unfolding finish_span_def Let_def
  by (auto simp: wp_case_sum split: option.splits sum.splits action_error.splits)

lemma wp_finish_cancelled: "(\<And>r. Q r F) \<Longrightarrow> wp co (finish_cancelled co' spn st) F Q"
  unfolding finish_cancelled_def by (simp add: wp_finish_span)

lemma wp_new_key: "(\<And>r. Q r F) \<Longrightarrow> wp co new_idempotency_key F Q"
  unfolding new_idempotency_key_def by (auto split: sum.splits)

lemma wp_mark_outcome_unknown:
  "(\<And>r F'. Q r F') \<Longrightarrow> wp co (mark_outcome_unknown co' h ctx) F Q"
  unfolding mark_outcome_unknown_def transition_call_def by simp

lemma wp_outcome_unknown: "(\<And>r F'. Q r F') \<Longrightarrow> wp co (outcome_unknown co' h ctx e) F Q"
  unfolding outcome_unknown_def by (auto intro!: wp_mark_outcome_unknown split: sum.splits)

lemma wp_resolved_status: "(\<And>r F'. Q r F') \<Longrightarrow> wp co (resolved_status_or_none co' h ctx) F Q"
  unfolding resolved_status_or_none_def resolve_call_def by simp

section \<open>Every coordinator operation is safe\<close>

lemma wp_commit_body: "(\<And>r F'. Q r F') \<Longrightarrow> wp co (commit_body co h ctx) F Q"
proof -
  assume Q: "\<And>r F'. Q r F'"
  have "may_execute co (let F' = learn h s' (learn h s F) in F'\<lparr>owned := h # owned F'\<rparr>) h d x ctx"
    if "lookup_definition co (record_capability (state_record s)) = Inr d"
      "authorize_definition co d ctx = Inr ()" "consistent (learn h s F) h s'" "execution_of s' = Inr x" for s d s' x
  proof -
    from that(3) have "sealed s = sealed s'" by (simp add: consistent_def learn_def)
    then have "record_capability (state_record s') = record_capability (state_record s)"
      by (auto simp: sealed_def dest!: arg_cong [where f = record_capability])
    with that show ?thesis
      by (auto simp: may_execute_def learn_def Let_def lookup_definition_def split: option.splits)
  qed
  with Q show ?thesis
    unfolding commit_body_def resolve_call_def transition_call_def record_success_def
    by (simp split: sum.split) (auto intro!: wp_outcome_unknown)
qed

lemma wp_prepared_of: "(\<And>r F'. Q r F') \<Longrightarrow> wp co (prepared_of d h s v) F Q"
  by (auto simp: prepared_of_def split: sum.split)

lemma wp_store_prepared:
  assumes "\<And>r F'. Q r F'" "dget (co_definitions co) (cap_id (def_capability d)) = Some d"
  shows "wp co (store_prepared co d ctx input v token key term res) F Q"
  using assms unfolding store_prepared_def transition_call_def
  by (auto simp: may_approve_def approved_by_def learn_def intro!: wp_prepared_of split: sum.split)

lemma wp_prepare_body:
  assumes "\<And>r F'. Q r F'" "coordinator_ok co"
  shows "wp co (prepare_body env co cid args ctx) F Q"
proof -
  have "dget (co_definitions co) (cap_id (def_capability d)) = Some d" if "lookup_definition co cid = Inr d" for d
    using assms(2) that by (auto simp: lookup_definition_def coordinator_ok_def split: option.splits)
  with assms(1) show ?thesis unfolding prepare_body_def
    by (auto split: sum.split action_error.split intro!: wp_new_key wp_store_prepared)
qed

lemma wp_approve_body:
  assumes "\<And>r F'. Q r F'"
  shows "wp co (approve_body co h ah ctx) F Q"
proof -
  have "may_approve co (learn h s F\<lparr>granted := insert b (granted (learn h s F))\<rparr>) h"
    if "awaiting_approval co s ctx = Inr b" for s b
    using that unfolding awaiting_approval_def rbind_Inr_iff
    by (auto simp: rbind_Inr_iff may_approve_def approved_by_def learn_def lookup_definition_def
        split: if_splits option.splits)
  with assms show ?thesis unfolding approve_body_def resolve_call_def transition_call_def
    by (auto split: sum.split)
qed

lemma wp_persist_recovery: "(\<And>r F'. Q r F') \<Longrightarrow> wp co (persist_recovery env co d h ctx v) F Q"
  unfolding persist_recovery_def transition_call_def resolve_call_def by (auto split: sum.split)

lemma wp_status_body: "(\<And>r F'. Q r F') \<Longrightarrow> wp co (status_body env co h ctx) F Q"
  unfolding status_body_def resolve_call_def published_def
  by (auto split: sum.split action_error.split recovery.split intro!: wp_persist_recovery)

lemmas wp_operations =
  wp_start_span wp_finish_span wp_finish_cancelled wp_resolved_status
  wp_prepare_body wp_approve_body wp_commit_body wp_status_body

lemma wp_prepare: "coordinator_ok co \<Longrightarrow> wp co (prepare env co cid args ctx) F (\<lambda>_ _. True)"
  unfolding prepare_def by (auto split: sum.split action_error.split intro!: wp_operations)

lemma wp_approve: "wp co (approve env co h ah ctx) F (\<lambda>_ _. True)"
  unfolding approve_def resolve_call_def
  by (auto split: sum.split action_error.split prod.split intro!: wp_operations)

lemma wp_commit: "wp co (commit env co h ctx) F (\<lambda>_ _. True)"
  unfolding commit_def commit_epilogue_def resolve_call_def
  by (auto split: sum.split action_error.split intro!: wp_operations)

lemma wp_status: "wp co (status env co h ctx) F (\<lambda>_ _. True)"
  unfolding status_def resolve_call_def
  by (auto split: sum.split action_error.split intro!: wp_operations)

text \<open>Every request is safe in a coordinator that was constructed.\<close>

lemma wp_start_request: "coordinator_ok co \<Longrightarrow> wp co (start_request env co rq) F (\<lambda>_ _. True)"
proof -
  have top: "(case r of Inl e \<Rightarrow> True | Inr x \<Rightarrow> True) = True" for r :: "'x outcome" by (cases r) auto
  assume "coordinator_ok co"
  then show ?thesis
    using wp_prepare wp_approve wp_commit wp_status
    by (cases rq) (simp_all add: map_prog_def top approval_binding_for_trusted_host_def resolve_call_def
        cong: sum.case_cong)
qed

section \<open>What the world knows\<close>

text \<open>A Store entry never loses its sealed content and never goes back.\<close>

definition evolves :: "prepared_state option \<Rightarrow> prepared_state option \<Rightarrow> bool" where
  "evolves a b \<longleftrightarrow>
     (\<forall>s. a = Some s \<longrightarrow> (\<exists>t. b = Some t \<and> sealed t = sealed s)) \<and> entry_rank a \<le> entry_rank b"

definition grants_in :: "log_entry list \<Rightarrow> approval_binding set" where
  "grants_in L = {b. \<exists>ah. Granted ah b \<in> set L}"

definition executions :: "(string \<Rightarrow> string) \<Rightarrow> log_entry list \<Rightarrow> string \<Rightarrow> nat" where
  "executions key L d =
     length (filter (\<lambda>e. case e of Executed h _ _ _ \<Rightarrow> key h = d | _ \<Rightarrow> False) L)"

definition tokens :: "(string \<Rightarrow> string) \<Rightarrow> facts \<Rightarrow> string \<Rightarrow> nat" where
  "tokens key F d = count_list (map key (owned F)) d"

definition facts_hold ::
    "coordinator \<Rightarrow> (string \<Rightarrow> string) \<Rightarrow> (string \<Rightarrow> prepared_state option) \<Rightarrow> log_entry list \<Rightarrow> facts \<Rightarrow> bool" where
  "facts_hold co key V L F \<longleftrightarrow>
     (\<forall>h s1. (h, s1) \<in> known F \<longrightarrow> (\<exists>s. V (key h) = Some s \<and> sealed s = sealed s1)) \<and>
     granted F \<subseteq> grants_in L \<and>
     (\<forall>h \<in> set (owned F). \<exists>s. V (key h) = Some s \<and> approved_by co (grants_in L) s)"

text \<open>An executor commit call is authorized, uses the prepared values, and was approved.\<close>

definition good_execution ::
    "coordinator \<Rightarrow> (string \<Rightarrow> string) \<Rightarrow> (string \<Rightarrow> prepared_state option) \<Rightarrow> approval_binding set \<Rightarrow>
     string \<Rightarrow> compiled_definition \<Rightarrow> commit_execution \<Rightarrow> principal_context \<Rightarrow> bool" where
  "good_execution co key V G h d x ctx \<longleftrightarrow>
     authorize_definition co d ctx = Inr () \<and>
     (\<exists>s. V (key h) = Some s \<and> dget (co_definitions co) (record_capability (state_record s)) = Some d \<and>
          execution_of s = Inr x \<and> approved_by co G s)"

definition log_good ::
    "coordinator \<Rightarrow> (string \<Rightarrow> string) \<Rightarrow> (string \<Rightarrow> prepared_state option) \<Rightarrow> log_entry list \<Rightarrow> bool" where
  "log_good co key V L \<longleftrightarrow>
     (\<forall>h d x ctx. Executed h d x ctx \<in> set L \<longrightarrow> good_execution co key V (grants_in L) h d x ctx)"

definition entries_approved :: "coordinator \<Rightarrow> (string \<Rightarrow> prepared_state option) \<Rightarrow> log_entry list \<Rightarrow> bool" where
  "entries_approved co V L \<longleftrightarrow>
     (\<forall>d s. V d = Some s \<longrightarrow> status_in s \<notin> {Prepared, Expired} \<longrightarrow> approved_by co (grants_in L) s)"

lemma sealed_fields:
  assumes "sealed s = sealed t"
  shows "record_capability (state_record s) = record_capability (state_record t)"
    "binding_from_record (state_record s) = binding_from_record (state_record t)"
    "execution_of s = execution_of t"
proof -
  from assms have r: "(state_record s)\<lparr>action_status := Prepared\<rparr> = (state_record t)\<lparr>action_status := Prepared\<rparr>"
    and v: "input_value s = input_value t" "preview_value s = preview_value t" by (auto simp: sealed_def)
  have b: "binding_from_record (u\<lparr>action_status := Prepared\<rparr>) = binding_from_record u" for u
    by (simp add: binding_from_record_def)
  show "record_capability (state_record s) = record_capability (state_record t)"
    using arg_cong [OF r, of record_capability] by simp
  show "binding_from_record (state_record s) = binding_from_record (state_record t)"
    using b r by metis
  show "execution_of s = execution_of t" by (simp add: execution_of_def v)
qed

lemma approved_by_sealed: "sealed s = sealed t \<Longrightarrow> approved_by co G s \<longleftrightarrow> approved_by co G t"
  by (simp add: approved_by_def sealed_fields [of s t])

lemma approved_by_mono: "approved_by co G s \<Longrightarrow> G \<subseteq> H \<Longrightarrow> approved_by co H s"
  by (auto simp: approved_by_def)

lemma grants_in_mono: "set L \<subseteq> set L' \<Longrightarrow> grants_in L \<subseteq> grants_in L'"
  by (auto simp: grants_in_def)

lemma evolves_refl [simp, intro]: "evolves a a"
  by (simp add: evolves_def)

lemma evolves_SomeD: "evolves (Some s) b \<Longrightarrow> \<exists>t. b = Some t \<and> sealed t = sealed s"
  by (simp add: evolves_def)

lemma keeps_evolves: "keeps a b \<Longrightarrow> evolves a b"
  by (auto simp: evolves_def keeps_rank dest: keeps_SomeD)

lemma facts_hold_mono:
  assumes F: "facts_hold co key V L F" and V: "\<And>d. evolves (V d) (V' d)" and L: "set L \<subseteq> set L'"
  shows "facts_hold co key V' L' F"
proof -
  have G: "grants_in L \<subseteq> grants_in L'" by (rule grants_in_mono [OF L])
  have k: "\<exists>t. V' (key h) = Some t \<and> sealed t = sealed s1" if k1: "(h, s1) \<in> known F" for h s1
  proof -
    obtain s where "V (key h) = Some s" "sealed s = sealed s1" using F k1 unfolding facts_hold_def by blast
    then show ?thesis using V [of "key h"] by (auto dest: evolves_SomeD)
  qed
  have o: "\<exists>t. V' (key h) = Some t \<and> approved_by co (grants_in L') t" if o1: "h \<in> set (owned F)" for h
  proof -
    obtain s where s: "V (key h) = Some s" "approved_by co (grants_in L) s"
      using F o1 unfolding facts_hold_def by blast
    obtain t where "V' (key h) = Some t" "sealed t = sealed s" using V [of "key h"] s(1) by (auto dest: evolves_SomeD)
    then show ?thesis using s(2) approved_by_mono [OF _ G] approved_by_sealed [of t s] by blast
  qed
  from F G k o show ?thesis unfolding facts_hold_def by blast
qed

lemma good_execution_mono:
  assumes "good_execution co key V G h d x ctx" "\<And>d. evolves (V d) (V' d)" "G \<subseteq> H"
  shows "good_execution co key V' H h d x ctx"
proof -
  from assms(1) obtain s where s: "V (key h) = Some s"
    "dget (co_definitions co) (record_capability (state_record s)) = Some d"
    "execution_of s = Inr x" "approved_by co G s" and a: "authorize_definition co d ctx = Inr ()"
    unfolding good_execution_def by blast
  obtain t where t: "V' (key h) = Some t" "sealed t = sealed s"
    using assms(2) [of "key h"] s(1) by (auto dest: evolves_SomeD)
  with s a approved_by_mono [OF s(4) assms(3)] approved_by_sealed [OF t(2)] sealed_fields [OF t(2)] show ?thesis
    unfolding good_execution_def by auto
qed

lemma log_good_mono:
  assumes "log_good co key V L" "\<And>d. evolves (V d) (V' d)"
  shows "log_good co key V' L"
  using assms good_execution_mono unfolding log_good_def by blast

text \<open>Entries that did not move stay approved.\<close>

lemma entries_approved_step:
  assumes E: "entries_approved co V L"
    and step: "\<And>d. keeps (V d) (V' d) \<or> (\<exists>t. V' d = Some t \<and> (status_in t = Prepared \<or> approved_by co (grants_in L) t))"
  shows "entries_approved co V' L"
  unfolding entries_approved_def
proof (intro allI impI)
  fix d t assume t: "V' d = Some t" "status_in t \<notin> {Prepared, Expired}"
  show "approved_by co (grants_in L) t"
  proof (cases "keeps (V d) (V' d)")
    case True
    with t obtain s where "V d = Some s" by (cases "V d") auto
    with True t have "V d = Some t" by (auto dest: keeps_SomeD)
    with E t(2) show ?thesis unfolding entries_approved_def by blast
  next
    case False
    with step [of d] t show ?thesis by auto
  qed
qed

lemma entries_approved_keeps:
  "entries_approved co V L \<Longrightarrow> (\<And>d. keeps (V d) (V' d)) \<Longrightarrow> entries_approved co V' L"
  by (rule entries_approved_step) auto

lemma entries_approved_log:
  "entries_approved co V L \<Longrightarrow> set L \<subseteq> set L' \<Longrightarrow> entries_approved co V L'"
  unfolding entries_approved_def using approved_by_mono grants_in_mono by meson

section \<open>One step\<close>

definition world_step_ok ::
    "coordinator \<Rightarrow> (string \<Rightarrow> string) \<Rightarrow> (string \<Rightarrow> prepared_state option) \<Rightarrow> log_entry list \<Rightarrow> facts \<Rightarrow>
     (string \<Rightarrow> prepared_state option) \<Rightarrow> log_entry list \<Rightarrow> facts \<Rightarrow> bool" where
  "world_step_ok co key V L F V' L' F' \<longleftrightarrow>
     (\<forall>d. evolves (V d) (V' d)) \<and> set L \<subseteq> set L' \<and> facts_hold co key V' L' F' \<and>
     entries_approved co V' L' \<and> log_good co key V' L' \<and>
     (\<forall>d. executions key L' d + tokens key F' d \<le> executions key L d + tokens key F d +
        (if entry_rank (V d) < 2 \<and> 2 \<le> entry_rank (V' d) then 1 else 0))"

definition world_good ::
    "coordinator \<Rightarrow> (string \<Rightarrow> string) \<Rightarrow> (string \<Rightarrow> prepared_state option) \<Rightarrow> log_entry list \<Rightarrow> bool" where
  "world_good co key V L \<longleftrightarrow> entries_approved co V L \<and> log_good co key V L"

lemma step_ok_quiet:
  assumes "world_good co key V L" "facts_hold co key V L F" "\<And>d. keeps (V d) (V' d)"
  shows "world_step_ok co key V L F V' L F"
  using assms facts_hold_mono [OF assms(2) keeps_evolves [OF assms(3)] subset_refl]
    entries_approved_keeps [OF _ assms(3)] log_good_mono [OF _ keeps_evolves [OF assms(3)]]
  unfolding world_step_ok_def world_good_def by (auto intro: keeps_evolves)

lemma step_ok_same: "world_good co key V L \<Longrightarrow> facts_hold co key V L F \<Longrightarrow> world_step_ok co key V L F V L F"
  by (rule step_ok_quiet) auto

lemma tokens_learn [simp]: "tokens key (learn h s F) d = tokens key F d"
  by (simp add: tokens_def learn_def)

lemma facts_hold_learn: "facts_hold co key V L F \<Longrightarrow> V (key h) = Some s \<Longrightarrow> facts_hold co key V L (learn h s F)"
  by (auto simp: facts_hold_def learn_def)

lemma step_ok_learn:
  "world_step_ok co key V L F V' L' F' \<Longrightarrow> V' (key h) = Some s \<Longrightarrow> world_step_ok co key V L F V' L' (learn h s F')"
  unfolding world_step_ok_def by (simp add: facts_hold_learn)

lemma facts_consistent: "facts_hold co key V L F \<Longrightarrow> V (key h) = Some s \<Longrightarrow> consistent F h s"
  by (fastforce simp: facts_hold_def consistent_def)

text \<open>Granted approval handles are pairwise different and spent.\<close>

definition grant_keys :: "(string \<Rightarrow> string) \<Rightarrow> log_entry list \<Rightarrow> string list" where
  "grant_keys akey L = [akey h. Granted h b \<leftarrow> L]"

definition grants_spent ::
    "(string \<Rightarrow> string) \<Rightarrow> ('au \<Rightarrow> string \<Rightarrow> approval_binding option) \<Rightarrow> 'au \<Rightarrow> log_entry list \<Rightarrow> bool" where
  "grants_spent akey live au L \<longleftrightarrow>
     distinct (grant_keys akey L) \<and> (\<forall>h b. Granted h b \<in> set L \<longrightarrow> live au (akey h) = None)"

lemma grants_spent_Executed [simp]:
  "grants_spent akey live au (Executed h d x ctx # L) = grants_spent akey live au L"
  by (simp add: grants_spent_def grant_keys_def)

lemma facts_hold_no_facts [simp]: "facts_hold co key V L no_facts"
  by (simp add: facts_hold_def no_facts_def)

lemma tokens_no_facts [simp]: "tokens key no_facts d = 0"
  by (simp add: tokens_def no_facts_def)

definition system_good ::
    "coordinator \<Rightarrow> (string \<Rightarrow> string) \<Rightarrow> ('st \<Rightarrow> string \<Rightarrow> prepared_state option) \<Rightarrow> ('st \<Rightarrow> bool) \<Rightarrow>
     (string \<Rightarrow> string) \<Rightarrow> ('au \<Rightarrow> string \<Rightarrow> approval_binding option) \<Rightarrow> ('st, 'au) system \<Rightarrow> bool" where
  "system_good co key view valid akey live s \<longleftrightarrow>
     valid (w_store (s_world s)) \<and>
     world_good co key (view (w_store (s_world s))) (w_log (s_world s)) \<and>
     grants_spent akey live (w_authority (s_world s)) (w_log (s_world s)) \<and>
     (\<exists>Fs. length Fs = length (s_tasks s) \<and>
        (\<forall>i < length Fs. wp co (s_tasks s ! i) (Fs ! i) (\<lambda>_ _. True)) \<and>
        (\<forall>F \<in> set Fs. facts_hold co key (view (w_store (s_world s))) (w_log (s_world s)) F) \<and>
        (\<forall>d. executions key (w_log (s_world s)) d + (\<Sum>F \<leftarrow> Fs. tokens key F d) \<le>
           (if 2 \<le> entry_rank (view (w_store (s_world s)) d) then 1 else 0)))"

lemma budget_step:
  fixes a b E E' S S' t t' :: nat
  assumes "S' + t = S + t'" "E' + t' \<le> E + t + (if a < 2 \<and> 2 \<le> b then 1 else 0)" "a \<le> b"
    "E + S \<le> (if 2 \<le> a then 1 else 0)"
  shows "E' + S' \<le> (if 2 \<le> b then 1 else 0)"
  using assms by (simp split: if_splits)

lemma count_list_remove1:
  "h \<in> set xs \<Longrightarrow> count_list (map f xs) d = count_list (map f (remove1 h xs)) d + (if f h = d then 1 else 0)"
proof (induction xs)
  case (Cons y ys)
  then show ?case by (cases "y = h") (simp_all split: if_split)
qed simp

locale action_boundary = action_store ops key view inv + approval_authority aops akey live
  for ops :: "'st store_ops" and key and view and inv and aops :: "'au approval_ops" and akey and live
begin

abbreviation "services \<equiv> \<lparr>sv_store = ops, sv_authority = aops\<rparr>"

lemma step_resolve:
  assumes I: "inv (w_store w)" and G: "world_good co key (view (w_store w)) (w_log w)"
    and F: "facts_hold co key (view (w_store w)) (w_log w) F"
    and W: "wp co (AwaitResolve h pid sid pack k) F (\<lambda>_ _. True)"
    and S: "step_prog services w (AwaitResolve h pid sid pack k) a = (p', w')"
  shows "\<exists>F'. wp co p' F' (\<lambda>_ _. True) \<and> inv (w_store w') \<and>
      world_step_ok co key (view (w_store w)) (w_log w) F (view (w_store w')) (w_log w') F'"
proof (cases "a = Interrupted \<or> served a = None")
  case True
  with S W I step_ok_same [OF G F] show ?thesis by (auto split: if_splits)
next
  case False
  then obtain c hh where a: "a \<noteq> Interrupted" "served a = Some (c, hh)" by auto
  obtain r st' where r: "resolve_op ops (w_store w) c h pid sid pack = (r, st')" by fastforce
  note law = resolve_law [OF I r]
  have w': "w' = w\<lparr>w_store := st'\<rparr>" and p': "p' = k (delivered a r)" using S a r by auto
  have ok: "world_step_ok co key (view (w_store w)) (w_log w) F (view st') (w_log w) F"
    by (rule step_ok_quiet [OF G F]) (use law in blast)
  show ?thesis
  proof (cases "delivered a r")
    case (Inl e)
    with W p' have "wp co p' F (\<lambda>_ _. True)" by simp
    with w' law ok show ?thesis by (intro exI [of _ F]) simp
  next
    case (Inr s)
    have v: "view st' (key h) = Some s" using law delivered_Inr [OF Inr] by simp
    have "facts_hold co key (view st') (w_log w) F" using ok by (simp add: world_step_ok_def)
    then have "consistent F h s" using v by (rule facts_consistent)
    with W p' Inr have "wp co p' (learn h s F) (\<lambda>_ _. True)" by simp
    with step_ok_learn [OF ok v] w' law show ?thesis by (intro exI [of _ "learn h s F"]) simp
  qed
qed

lemma step_create:
  assumes I: "inv (w_store w)" and G: "world_good co key (view (w_store w)) (w_log w)"
    and F: "facts_hold co key (view (w_store w)) (w_log w) F"
    and W: "wp co (AwaitCreate q k) F (\<lambda>_ _. True)"
    and S: "step_prog services w (AwaitCreate q k) a = (p', w')"
  shows "\<exists>F'. wp co p' F' (\<lambda>_ _. True) \<and> inv (w_store w') \<and>
      world_step_ok co key (view (w_store w)) (w_log w) F (view (w_store w')) (w_log w') F'"
proof (cases "a = Interrupted \<or> served a = None")
  case True
  with S W I step_ok_same [OF G F] show ?thesis by (auto split: if_splits)
next
  case False
  then obtain c h where a: "a \<noteq> Interrupted" "served a = Some (c, h)" by auto
  obtain r st' where r: "create_op ops (w_store w) c h q = (r, st')" by fastforce
  have w': "w' = w\<lparr>w_store := st'\<rparr>" and p': "p' = k (delivered a r)" using S a r by auto
  show ?thesis
  proof (cases r)
    case (Inl e)
    note law = create_refused [OF I r [unfolded Inl]]
    have ok: "world_step_ok co key (view (w_store w)) (w_log w) F (view st') (w_log w) F"
      by (rule step_ok_quiet [OF G F]) (use law in blast)
    obtain e' where "delivered a r = Inl e'" using Inl by (cases a) auto
    with W p' have "wp co p' F (\<lambda>_ _. True)" by simp
    with w' law ok show ?thesis by (intro exI [of _ F]) simp
  next
    case (Inr x)
    obtain h' s where x: "x = (h', s)" by (cases x)
    note law = create_done [OF I r [unfolded Inr x]]
    have ev: "evolves (view (w_store w) d) (view st' d)" for d
      using law keeps_evolves by (cases "d = key h") (auto simp: evolves_def)
    have ea: "entries_approved co (view st') (w_log w)"
    proof (rule entries_approved_step)
      show "entries_approved co (view (w_store w)) (w_log w)" using G by (simp add: world_good_def)
      show "keeps (view (w_store w) d) (view st' d) \<or> (\<exists>t. view st' d = Some t \<and>
          (status_in t = Prepared \<or> approved_by co (grants_in (w_log w)) t))" for d
        using law by (cases "d = key h") auto
    qed
    have ok: "world_step_ok co key (view (w_store w)) (w_log w) F (view st') (w_log w) F"
      unfolding world_step_ok_def
      using ev ea facts_hold_mono [OF F ev subset_refl] log_good_mono [OF _ ev] G
      by (auto simp: world_good_def)
    show ?thesis
    proof (cases "delivered a r")
      case (Inl e)
      with W p' have "wp co p' F (\<lambda>_ _. True)" by simp
    with w' law ok show ?thesis by (intro exI [of _ F]) simp
    next
      case (Inr y)
      then have "y = (h, s)" using delivered_Inr [OF Inr] \<open>r = Inr x\<close> x law by simp
      then have "wp co p' (learn h s F) (\<lambda>_ _. True)" using W p' Inr law by simp
      with step_ok_learn [OF ok, of h s] w' law show ?thesis by (intro exI [of _ "learn h s F"]) simp
    qed
  qed
qed

lemma step_transition:
  assumes I: "inv (w_store w)" and G: "world_good co key (view (w_store w)) (w_log w)"
    and F: "facts_hold co key (view (w_store w)) (w_log w) F"
    and W: "wp co (AwaitTransition h pid sid pack e t v k) F (\<lambda>_ _. True)"
    and S: "step_prog services w (AwaitTransition h pid sid pack e t v k) a = (p', w')"
  shows "\<exists>F'. wp co p' F' (\<lambda>_ _. True) \<and> inv (w_store w') \<and>
      world_step_ok co key (view (w_store w)) (w_log w) F (view (w_store w')) (w_log w') F'"
proof (cases "a = Interrupted \<or> served a = None")
  case True
  with S W I step_ok_same [OF G F] show ?thesis by (auto split: if_splits)
next
  case False
  then obtain c hh where a: "a \<noteq> Interrupted" "served a = Some (c, hh)" by auto
  obtain r st' where r: "transition_op ops (w_store w) c h pid sid pack e t v = (r, st')" by fastforce
  have w': "w' = w\<lparr>w_store := st'\<rparr>" and p': "p' = k (delivered a r)" using S a r by auto
  show ?thesis
  proof (cases r)
    case (Inl err)
    note law = transition_refused [OF I r [unfolded Inl]]
    have ok: "world_step_ok co key (view (w_store w)) (w_log w) F (view st') (w_log w) F"
      by (rule step_ok_quiet [OF G F]) (use law in blast)
    obtain e' where "delivered a r = Inl e'" using Inl by (cases a) auto
    with W p' have "wp co p' F (\<lambda>_ _. True)" by simp
    with w' law ok show ?thesis by (intro exI [of _ F]) simp
  next
    case (Inr s)
    note law = transition_done [OF I r [unfolded Inr]]
    note rank = transition_rank [OF I r [unfolded Inr]]
    from law obtain s0 where s0: "view (w_store w) (key h) = Some s0" "status_in s0 = e" "sealed s = sealed s0" by blast
    have vs: "view st' (key h) = Some s" "status_in s = t" "t \<in> allowed_transitions e" using law by auto
    have ev: "evolves (view (w_store w) d) (view st' d)" for d
    proof (cases "d = key h")
      case True
      then show ?thesis using s0 vs rank by (simp add: evolves_def)
    next
      case False
      then show ?thesis using law keeps_evolves by blast
    qed
    have approved: "approved_by co (grants_in (w_log w)) s"
    proof (cases "e = Prepared")
      case True
      with vs(3) have "may_approve co F h" using W by simp
      then obtain s1 where s1: "(h, s1) \<in> known F" "approved_by co (granted F) s1"
        unfolding may_approve_def by blast
      then have "sealed s1 = sealed s0" using facts_consistent [OF F s0(1)] by (simp add: consistent_def)
      moreover have "granted F \<subseteq> grants_in (w_log w)" using F by (simp add: facts_hold_def)
      ultimately show ?thesis using s1(2) approved_by_mono approved_by_sealed s0(3) by metis
    next
      case False
      have "e \<noteq> Expired" using vs(3) by (cases e) auto
      with False have "approved_by co (grants_in (w_log w)) s0"
        using G s0 unfolding world_good_def entries_approved_def by blast
      then show ?thesis using approved_by_sealed [OF s0(3)] by blast
    qed
    have ea: "entries_approved co (view st') (w_log w)"
    proof (rule entries_approved_step)
      show "entries_approved co (view (w_store w)) (w_log w)" using G by (simp add: world_good_def)
      show "keeps (view (w_store w) d) (view st' d) \<or> (\<exists>t. view st' d = Some t \<and>
          (status_in t = Prepared \<or> approved_by co (grants_in (w_log w)) t))" for d
        using law approved vs(1) by (cases "d = key h") auto
    qed
    have ok: "world_step_ok co key (view (w_store w)) (w_log w) F (view st') (w_log w) F"
      unfolding world_step_ok_def
      using ev ea facts_hold_mono [OF F ev subset_refl] log_good_mono [OF _ ev] G
      by (auto simp: world_good_def)
    have F': "facts_hold co key (view st') (w_log w) F" using ok by (simp add: world_step_ok_def)
    show ?thesis
    proof (cases "delivered a r")
      case (Inl e)
      with W p' have "wp co p' F (\<lambda>_ _. True)" by simp
      with w' law ok show ?thesis by (intro exI [of _ F]) simp
    next
      case (Inr s')
      then have s': "s' = s" using delivered_Inr [OF Inr] \<open>r = Inr s\<close> by simp
      have c: "consistent F h s" using facts_consistent [OF F' vs(1)] .
      define F1 where "F1 = learn h s F"
      define F2 where "F2 = F1\<lparr>owned := h # owned F1\<rparr>"
      have ok1: "world_step_ok co key (view (w_store w)) (w_log w) F (view st') (w_log w) F1"
        unfolding F1_def by (rule step_ok_learn [OF ok vs(1)])
      show ?thesis
      proof (cases "e = Approved \<and> t = Committing")
        case True
        have "facts_hold co key (view st') (w_log w) F2"
          using ok1 approved vs(1) by (auto simp: world_step_ok_def facts_hold_def F2_def)
        moreover have "tokens key F2 d = tokens key F d + (if d = key h then 1 else 0)" for d
          by (simp add: F2_def F1_def tokens_def learn_def)
        moreover have "entry_rank (view (w_store w) (key h)) < 2" "2 \<le> entry_rank (view st' (key h))"
          using True s0 vs by auto
        ultimately have "world_step_ok co key (view (w_store w)) (w_log w) F (view st') (w_log w) F2"
          using ok unfolding world_step_ok_def by auto
        moreover have "wp co p' F2 (\<lambda>_ _. True)"
          using W p' Inr s' c vs(2) True by (simp add: F1_def F2_def Let_def)
        ultimately show ?thesis using w' law by (intro exI [of _ F2]) simp
      next
        case False
        then have "wp co p' F1 (\<lambda>_ _. True)" using W p' Inr s' c vs(2) by (auto simp: F1_def Let_def)
        with ok1 w' law show ?thesis by (intro exI [of _ F1]) simp
      qed
    qed
  qed
qed

text \<open>A longer log with the same Store.\<close>

lemma step_ok_log:
  assumes G: "world_good co key V L" and F: "facts_hold co key V L F" and L: "set L \<subseteq> set L'"
    and new: "\<And>h d x ctx. Executed h d x ctx \<in> set L' \<Longrightarrow> Executed h d x ctx \<notin> set L \<Longrightarrow>
        good_execution co key V (grants_in L') h d x ctx"
    and F': "facts_hold co key V L' F'"
    and count: "\<And>d. executions key L' d + tokens key F' d \<le> executions key L d + tokens key F d"
  shows "world_step_ok co key V L F V L' F'"
proof -
  have "log_good co key V L'"
    unfolding log_good_def
  proof (intro allI impI)
    fix h d x ctx assume e: "Executed h d x ctx \<in> set L'"
    show "good_execution co key V (grants_in L') h d x ctx"
    proof (cases "Executed h d x ctx \<in> set L")
      case True
      then have "good_execution co key V (grants_in L) h d x ctx"
        using G unfolding world_good_def log_good_def by blast
      then show ?thesis using good_execution_mono [OF _ evolves_refl grants_in_mono [OF L]] by blast
    qed (rule new [OF e])
  qed
  moreover have "entries_approved co V L'"
    using G entries_approved_log [OF _ L] unfolding world_good_def by blast
  ultimately show ?thesis using L F' count unfolding world_step_ok_def by (simp add: add_increasing2)
qed

lemma step_verify:
  assumes G: "world_good co key (view (w_store w)) (w_log w)"
    and F: "facts_hold co key (view (w_store w)) (w_log w) F"
    and W: "wp co (AwaitVerify h b k) F (\<lambda>_ _. True)"
    and S: "step_prog services w (AwaitVerify h b k) a = (p', w')"
  shows "\<exists>F'. wp co p' F' (\<lambda>_ _. True) \<and> w_store w' = w_store w \<and>
      world_step_ok co key (view (w_store w)) (w_log w) F (view (w_store w)) (w_log w') F'"
proof (cases "a = Interrupted \<or> served a = None")
  case True
  with S W step_ok_same [OF G F] show ?thesis by (auto split: if_splits)
next
  case False
  then obtain c hh where a: "a \<noteq> Interrupted" "served a = Some (c, hh)" by auto
  obtain r au' where r: "verify_op aops (w_authority w) c h b = (r, au')" by fastforce
  define L' where "L' = (case r of Inr _ \<Rightarrow> [Granted h b] | Inl _ \<Rightarrow> []) @ w_log w"
  have w': "w_store w' = w_store w" "w_log w' = L'" and p': "p' = k (delivered a r)"
    using S a r by (auto simp: L'_def)
  have ex: "executions key L' d = executions key (w_log w) d" for d
    by (cases r) (simp_all add: L'_def executions_def)
  have sub: "set (w_log w) \<subseteq> set L'" by (auto simp: L'_def)
  have ok: "world_step_ok co key (view (w_store w)) (w_log w) F (view (w_store w)) L' F'"
    if "facts_hold co key (view (w_store w)) L' F'" "\<And>d. tokens key F' d = tokens key F d" for F'
  proof (rule step_ok_log [OF G F sub _ that(1)])
    show "executions key L' d + tokens key F' d \<le> executions key (w_log w) d + tokens key F d" for d
      by (simp add: ex that(2))
  qed (auto simp: L'_def split: sum.splits)
  have F1: "facts_hold co key (view (w_store w)) L' F"
    by (rule facts_hold_mono [OF F _ sub]) simp
  show ?thesis
  proof (cases "delivered a r")
    case (Inl e)
    with W p' have "wp co p' F (\<lambda>_ _. True)" by simp
    with ok [OF F1] w' show ?thesis by (intro exI [of _ F]) simp
  next
    case (Inr g)
    then have "r = Inr g" by (rule delivered_Inr)
    then have "b \<in> grants_in L'" by (auto simp: L'_def grants_in_def)
    with F1 have "facts_hold co key (view (w_store w)) L' (F\<lparr>granted := insert b (granted F)\<rparr>)"
      by (auto simp: facts_hold_def)
    from ok [OF this] W p' Inr w' show ?thesis
      by (intro exI [of _ "F\<lparr>granted := insert b (granted F)\<rparr>"]) (simp add: tokens_def)
  qed
qed

lemma step_execute:
  assumes G: "world_good co key (view (w_store w)) (w_log w)"
    and F: "facts_hold co key (view (w_store w)) (w_log w) F"
    and W: "wp co (AwaitExecute h d x ctx k) F (\<lambda>_ _. True)"
    and S: "step_prog services w (AwaitExecute h d x ctx k) a = (p', w')"
  shows "\<exists>F'. wp co p' F' (\<lambda>_ _. True) \<and> w_store w' = w_store w \<and>
      world_step_ok co key (view (w_store w)) (w_log w) F (view (w_store w)) (w_log w') F'"
proof (cases "(p', w') = (AwaitExecute h d x ctx k, w)")
  case True
  with W step_ok_same [OF G F] show ?thesis by (intro exI [of _ F]) simp
next
  case False
  then have w': "w_store w' = w_store w" "w_log w' = Executed h d x ctx # w_log w" and p': "\<exists>r. p' = k r"
    using S by (auto split: answer.splits)
  define F' where "F' = F\<lparr>owned := remove1 h (owned F)\<rparr>"
  let ?V = "view (w_store w)" and ?L' = "Executed h d x ctx # w_log w"
  from W have m: "may_execute co F h d x ctx" and W': "wp co p' F' (\<lambda>_ _. True)"
    using p' by (auto simp: F'_def)
  from m obtain s1 where s1: "(h, s1) \<in> known F"
    "dget (co_definitions co) (record_capability (state_record s1)) = Some d" "execution_of s1 = Inr x"
    and own: "h \<in> set (owned F)" and auth: "authorize_definition co d ctx = Inr ()"
    unfolding may_execute_def by blast
  from own F obtain s where s: "?V (key h) = Some s" "approved_by co (grants_in (w_log w)) s"
    unfolding facts_hold_def by blast
  have "sealed s1 = sealed s" using facts_consistent [OF F s(1)] s1(1) by (simp add: consistent_def)
  note same = sealed_fields [OF this]
  have g: "grants_in ?L' = grants_in (w_log w)" by (auto simp: grants_in_def)
  have good: "good_execution co key ?V (grants_in ?L') h d x ctx"
    unfolding good_execution_def using auth s s1 same by (auto simp: g)
  have F1: "facts_hold co key ?V ?L' F" by (rule facts_hold_mono [OF F]) auto
  then have F2: "facts_hold co key ?V ?L' F'"
    by (auto simp: facts_hold_def F'_def dest: notin_set_remove1 set_remove1_subset [THEN subsetD])
  have "executions key ?L' dd + tokens key F' dd \<le> executions key (w_log w) dd + tokens key F dd" for dd
    using count_list_remove1 [OF own, of key dd] by (simp add: executions_def F'_def tokens_def)
  with step_ok_log [OF G F, of ?L' F'] good F2
  have "world_step_ok co key ?V (w_log w) F ?V ?L' F'" by auto
  with W' w' show ?thesis by (intro exI [of _ F']) simp
qed

lemma step_any:
  assumes I: "inv (w_store w)" and G: "world_good co key (view (w_store w)) (w_log w)"
    and F: "facts_hold co key (view (w_store w)) (w_log w) F"
    and W: "wp co p F (\<lambda>_ _. True)" and S: "step_prog services w p a = (p', w')"
  shows "\<exists>F'. wp co p' F' (\<lambda>_ _. True) \<and> inv (w_store w') \<and>
      world_step_ok co key (view (w_store w)) (w_log w) F (view (w_store w')) (w_log w') F'"
proof -
  have idle: ?thesis if "w' = w" "wp co p' F (\<lambda>_ _. True)"
    using that I step_ok_same [OF G F] by (intro exI [of _ F]) simp
  show ?thesis
  proof (cases p)
    case (AwaitResolve h pid sid pack k)
    then show ?thesis using step_resolve [OF I G F] W S by blast
  next
    case (AwaitTransition h pid sid pack e t v k)
    then show ?thesis using step_transition [OF I G F] W S by blast
  next
    case (AwaitCreate q k)
    then show ?thesis using step_create [OF I G F] W S by blast
  next
    case (AwaitVerify h b k)
    then show ?thesis using step_verify [OF G F W [unfolded AwaitVerify] S [unfolded AwaitVerify]] I by metis
  next
    case (AwaitExecute h d x ctx k)
    then show ?thesis using step_execute [OF G F W [unfolded AwaitExecute] S [unfolded AwaitExecute]] I by metis
  qed (use idle W S in \<open>auto split: answer.splits\<close>)
qed

lemma step_grants:
  assumes "step_prog services w p a = (p', w')" "grants_spent akey live (w_authority w) (w_log w)"
  shows "grants_spent akey live (w_authority w') (w_log w')"
proof (cases p)
  case (AwaitVerify h b k)
  show ?thesis
  proof (cases "a = Interrupted \<or> served a = None")
    case True
    with assms AwaitVerify show ?thesis by (auto split: if_splits)
  next
    case False
    then obtain c hh where a: "a \<noteq> Interrupted" "served a = Some (c, hh)" by auto
    obtain r au' where r: "verify_op aops (w_authority w) c h b = (r, au')" by fastforce
    have w': "w_authority w' = au'" "w_log w' = (case r of Inr _ \<Rightarrow> [Granted h b] | Inl _ \<Rightarrow> []) @ w_log w"
      using assms(1) AwaitVerify a r by auto
    have old: "\<forall>h b. Granted h b \<in> set (w_log w) \<longrightarrow> live au' (akey h) = None"
      using assms(2) verify_spends [OF r] unfolding grants_spent_def by metis
    show ?thesis
    proof (cases r)
      case (Inl e)
      with w' old assms(2) show ?thesis by (simp add: grants_spent_def)
    next
      case (Inr g)
      note law = verify_granted [OF r [unfolded Inr]]
      have "\<forall>h' b'. Granted h' b' \<in> set (w_log w) \<longrightarrow> akey h' \<noteq> akey h"
        using law assms(2) unfolding grants_spent_def by fastforce
      with w' old assms(2) Inr law show ?thesis
        by (auto simp: grants_spent_def grant_keys_def split: log_entry.splits)
    qed
  qed
qed (use assms in \<open>auto split: answer.splits if_splits option.splits prod.splits\<close>)

section \<open>All schedules\<close>

lemma step_system:
  assumes "system_good co key view inv akey live s" and constructed: "coordinator_ok co"
  shows "system_good co key view inv akey live (system_step env co services s ev)"
proof (cases ev)
  case (Begin rq)
  from assms(1) obtain Fs where Fs: "length Fs = length (s_tasks s)"
    "\<forall>i < length Fs. wp co (s_tasks s ! i) (Fs ! i) (\<lambda>_ _. True)"
    "\<forall>F \<in> set Fs. facts_hold co key (view (w_store (s_world s))) (w_log (s_world s)) F"
    "\<forall>d. executions key (w_log (s_world s)) d + (\<Sum>F \<leftarrow> Fs. tokens key F d) \<le>
       (if 2 \<le> entry_rank (view (w_store (s_world s)) d) then 1 else 0)"
    unfolding system_good_def by blast
  have I: "inv (w_store (s_world s))" "world_good co key (view (w_store (s_world s))) (w_log (s_world s))"
    "grants_spent akey live (w_authority (s_world s)) (w_log (s_world s))"
    using assms(1) by (simp_all add: system_good_def)
  let ?Fs = "Fs @ [no_facts]"
  have "wp co ((s_tasks s @ [start_request env co rq]) ! i) (?Fs ! i) (\<lambda>_ _. True)" if "i < length ?Fs" for i
    using Fs(1,2) that wp_start_request [OF constructed] by (cases "i < length Fs") (auto simp: nth_append)
  then show ?thesis
    unfolding system_good_def Begin system_step.simps
    by (intro conjI exI [of _ ?Fs]) (use I Fs(1,3,4) in simp_all)
next
  case (Answer i a)
  show ?thesis
  proof (cases "i < length (s_tasks s)")
    case True
    let ?w = "s_world s"
    obtain p' w' where st: "step_prog services ?w (s_tasks s ! i) a = (p', w')" by fastforce
    from assms(1) obtain Fs where Fs: "length Fs = length (s_tasks s)"
      "\<forall>i < length Fs. wp co (s_tasks s ! i) (Fs ! i) (\<lambda>_ _. True)"
      "\<forall>F \<in> set Fs. facts_hold co key (view (w_store ?w)) (w_log ?w) F"
      "\<forall>d. executions key (w_log ?w) d + (\<Sum>F \<leftarrow> Fs. tokens key F d) \<le>
         (if 2 \<le> entry_rank (view (w_store ?w) d) then 1 else 0)"
      and I: "inv (w_store ?w)" and G: "world_good co key (view (w_store ?w)) (w_log ?w)"
      and gs: "grants_spent akey live (w_authority ?w) (w_log ?w)"
      unfolding system_good_def by blast
    have i: "i < length Fs" using True Fs(1) by simp
    from step_any [OF I G _ _ st, of "Fs ! i"] Fs i obtain F' where F':
      "wp co p' F' (\<lambda>_ _. True)" "inv (w_store w')"
      "world_step_ok co key (view (w_store ?w)) (w_log ?w) (Fs ! i) (view (w_store w')) (w_log w') F'"
      by (metis nth_mem)
    note ok = F'(3) [unfolded world_step_ok_def]
    let ?Fs = "Fs[i := F']"
    have w: "\<forall>j < length ?Fs. wp co ((s_tasks s)[i := p'] ! j) (?Fs ! j) (\<lambda>_ _. True)"
    proof (intro allI impI)
      fix j assume "j < length ?Fs"
      then show "wp co ((s_tasks s)[i := p'] ! j) (?Fs ! j) (\<lambda>_ _. True)"
        using Fs(1,2) F'(1) by (cases "j = i") auto
    qed
    have f: "\<forall>F \<in> set ?Fs. facts_hold co key (view (w_store w')) (w_log w') F"
    proof
      fix F assume "F \<in> set ?Fs"
      then have "F = F' \<or> F \<in> set Fs" using set_update_subset_insert by fastforce
      then show "facts_hold co key (view (w_store w')) (w_log w') F"
        using ok Fs(3) facts_hold_mono by blast
    qed
    have "executions key (w_log w') d + (\<Sum>F \<leftarrow> ?Fs. tokens key F d) \<le>
        (if 2 \<le> entry_rank (view (w_store w') d) then 1 else 0)" for d
    proof -
      have "(\<Sum>F \<leftarrow> ?Fs. tokens key F d) + tokens key (Fs ! i) d = (\<Sum>F \<leftarrow> Fs. tokens key F d) + tokens key F' d"
        using sum_list_update_nat [OF i] .
      moreover have "executions key (w_log w') d + tokens key F' d \<le>
          executions key (w_log ?w) d + tokens key (Fs ! i) d +
          (if entry_rank (view (w_store ?w) d) < 2 \<and> 2 \<le> entry_rank (view (w_store w') d) then 1 else 0)"
        using ok by blast
      moreover have "entry_rank (view (w_store ?w) d) \<le> entry_rank (view (w_store w') d)"
        using ok by (auto simp: evolves_def)
      ultimately show ?thesis using spec [OF Fs(4), of d] by (rule budget_step)
    qed
    with w f F'(2) ok step_grants [OF st gs] Fs(1) st True Answer show ?thesis
      unfolding system_good_def world_good_def by (intro conjI exI [of _ ?Fs]) auto
  next
    case False
    with assms Answer show ?thesis by simp
  qed
qed

lemma run_good:
  "coordinator_ok co \<Longrightarrow> system_good co key view inv akey live s \<Longrightarrow>
     system_good co key view inv akey live (run_schedule env co services s evs)"
  unfolding run_schedule_def by (induction evs arbitrary: s) (simp_all add: step_system)

lemma fresh_good:
  "inv st \<Longrightarrow> (\<And>d. view st d = None) \<Longrightarrow> system_good co key view inv akey live (fresh_system st au)"
  by (simp add: system_good_def fresh_system_def world_good_def entries_approved_def log_good_def
      grants_spent_def grant_keys_def executions_def)

end

section \<open>What every schedule guarantees\<close>

text \<open>
  \<open>executions_safe\<close>: for every prepared Action the executor's commit was called at most once, and
  every such call was authorized under the deployment policy and the caller's scopes, used the sealed
  input, preview and key of that Action, and was approved for exactly that Action when its proof
  requires approval; every approval handle answered at most one verification.
\<close>

definition executions_safe ::
    "coordinator \<Rightarrow> (string \<Rightarrow> string) \<Rightarrow> (string \<Rightarrow> prepared_state option) \<Rightarrow> (string \<Rightarrow> string) \<Rightarrow> log_entry list \<Rightarrow> bool" where
  "executions_safe co key V akey L \<longleftrightarrow>
     (\<forall>d. executions key L d \<le> 1) \<and> log_good co key V L \<and> distinct (grant_keys akey L)"

lemma system_good_safe:
  assumes "system_good co key view valid akey live s"
  shows "executions_safe co key (view (w_store (s_world s))) akey (w_log (s_world s))"
proof -
  have "executions key (w_log (s_world s)) d \<le> 1" for d
  proof -
    from assms obtain n where "executions key (w_log (s_world s)) d + n \<le>
        (if 2 \<le> entry_rank (view (w_store (s_world s)) d) then 1 else 0)"
      unfolding system_good_def by blast
    then show ?thesis by (simp split: if_splits)
  qed
  with assms show ?thesis by (simp add: executions_safe_def system_good_def world_good_def grants_spent_def)
qed

interpretation boundary:
  action_boundary "memory_ops cr" "sha256_hex cr" entry_at "store_ok cr" "memory_approval_ops cr" "sha256_hex cr" live_binding
  for cr
  by unfold_locales

definition memory_services :: "crypto \<Rightarrow> (memory_store, memory_authority) services" where
  "memory_services cr = \<lparr>sv_store = memory_ops cr, sv_authority = memory_approval_ops cr\<rparr>"

lemma make_memory_store_empty: "make_memory_store b salt n = Inr st \<Longrightarrow> entry_at st d = None"
  by (auto simp: make_memory_store_def entry_at_def split: if_splits)

lemma memory_run_good:
  assumes "coordinator_ok co" "make_memory_store b salt n = Inr st"
  shows "system_good co (sha256_hex cr) entry_at (store_ok cr) (sha256_hex cr) live_binding
     (run_schedule env co (memory_services cr) (fresh_system st au) evs)"
  unfolding memory_services_def
  by (intro boundary.run_good boundary.fresh_good assms make_memory_store_ok [OF assms(2)]
      make_memory_store_empty [OF assms(2)])

end
