(* ===== verification/CommitOutcome.thy ===== *)
theory CommitOutcome
  imports Interleaving
begin

text \<open>
  One coordinator call run alone against the in-memory Store: what a commit returns and what the Store
  holds afterwards when the executor succeeds, fails or is cancelled, and when the prepared Action
  expires while it executes.
\<close>

section \<open>Running one coroutine\<close>

primrec run_alone ::
    "('st, 'au) services \<Rightarrow> ('st, 'au) world \<Rightarrow> 'r prog \<Rightarrow> answer list \<Rightarrow> 'r prog \<times> ('st, 'au) world" where
  "run_alone sv w p [] = (p, w)"
| "run_alone sv w p (a # as) = (case step_prog sv w p a of (p', w') \<Rightarrow> run_alone sv w' p' as)"

text \<open>A handle the caller may use now: well formed, bound to the caller and not expired.\<close>

definition live_for ::
    "crypto \<Rightarrow> memory_store \<Rightarrow> rat \<Rightarrow> string \<Rightarrow> string \<Rightarrow> string option \<Rightarrow> string \<Rightarrow> prepared_state \<Rightarrow> bool" where
  "live_for cr st now h pid sid pack s \<longleftrightarrow>
     store_ok cr st \<and> entry_at st (sha256_hex cr h) = Some s \<and> \<not> store_closed st \<and> is_handle h \<and>
     exact_identifier pid = Inr pid \<and> optional_identifier sid = Inr sid \<and> is_pack_digest pack \<and>
     binding_matches cr st (state_record s) pid sid pack \<and>
     now < expires_at (state_record s) \<and> status_in s \<noteq> Expired"

lemma live_for_record:
  assumes "live_for cr st now h pid sid pack s"
  shows "dget (store_records st) (sha256_hex cr h) = Some (state_record s)"
    "state_of st (state_record s) = Inr s"
proof -
  from assms obtain r where "dget (store_records st) (sha256_hex cr h) = Some r" "state_of st r = Inr s"
    by (auto simp: live_for_def entry_at_Some)
  moreover from this have "state_record s = r" by (auto simp: state_of_Inr)
  ultimately show "dget (store_records st) (sha256_hex cr h) = Some (state_record s)"
    "state_of st (state_record s) = Inr s" by simp_all
qed

lemma resolve_bound_live:
  assumes "live_for cr st now h pid sid pack s"
  shows "resolve_bound cr st (Some now) h pid sid pack = (Inr (state_record s), st)"
  using assms live_for_record [OF assms]
  by (simp add: live_for_def resolve_bound_def handle_digest_of_def finite_time_def validate_pack_digest_def ensure_def)

lemma resolve_action_live:
  assumes "live_for cr st now h pid sid pack s"
  shows "resolve_action cr st (Some now) h pid sid pack = (Inr s, st)"
  using live_for_record [OF assms] by (simp add: resolve_action_def resolve_bound_live [OF assms])

text \<open>The state after a transition.\<close>

definition moved :: "prepared_state \<Rightarrow> action_status \<Rightarrow> json \<Rightarrow> prepared_state" where
  "moved s t v =
     s\<lparr>state_record := (state_record s)\<lparr>action_status := t\<rparr>,
       result_value := (if t = Succeeded then sort_keys v else result_value s)\<rparr>"

lemma moved_fields [simp]:
  "status_in (moved s t v) = t" "expires_at (state_record (moved s t v)) = expires_at (state_record s)"
  "record_capability (state_record (moved s t v)) = record_capability (state_record s)"
  "preview_value (moved s t v) = preview_value s" "input_value (moved s t v) = input_value s"
  "result_value (moved s Succeeded v) = sort_keys v"
  by (simp_all add: moved_def)

lemma execution_of_moved [simp]: "execution_of (moved s t v) = execution_of s"
  by (simp add: execution_of_def)

lemma canonical_payload_finite: "json_finite v \<Longrightarrow> \<exists>d. canonical_payload cr v = Inr (sort_keys v, d)"
  using json_text_None_iff [of "float_repr cr" v]
  by (auto simp: canonical_payload_def canonical_copy_def json_digest_def)

lemma transition_action_live:
  assumes L: "live_for cr st now h pid sid pack s" and e: "status_in s = e" "t \<in> allowed_transitions e"
    and v: "if t = Succeeded then json_finite v else v = JNull"
  obtains st' where "transition_action cr st (Some now) h pid sid pack e t v = (Inr (moved s t v), st')"
    "\<And>now'. now' < expires_at (state_record s) \<Longrightarrow> live_for cr st' now' h pid sid pack (moved s t v)"
    "store_ok cr st'" "entry_at st' (sha256_hex cr h) = Some (moved s t v)"
proof -
  let ?d = "sha256_hex cr h" and ?r = "state_record s"
  have ok: "store_ok cr st" and eat: "entry_at st ?d = Some s" using L by (simp_all add: live_for_def)
  have hd: "handle_digest ?r = ?d" using entry_at_digest [OF ok eat] .
  from live_for_record(2) [OF L] obtain i p old where pl: "dget (store_payloads st) ?d = Some (i, p, old)"
    and s: "s = \<lparr>state_record = ?r, input_value = i, preview_value = p, result_value = (case old of None \<Rightarrow> JNull | Some x \<Rightarrow> x)\<rparr>"
    unfolding state_of_Inr hd by blast
  define res where "res = (if t = Succeeded then Some (sort_keys v) else old)"
  define st' where "st' = put_entry st ?d (?r\<lparr>action_status := t\<rparr>) (i, p, res)"
  have res: "(if t = Succeeded then rbind (canonical_payload cr v) (\<lambda>(c, _). Inr (Some c)) else Inr old) = Inr res"
    using v canonical_payload_finite [of v cr] by (auto simp: res_def)
  have so: "state_of st' (?r\<lparr>action_status := t\<rparr>) = Inr (moved s t v)"
    unfolding st'_def using hd by (subst s) (auto simp: moved_def res_def)
  have tr: "transition_action cr st (Some now) h pid sid pack e t v = (Inr (moved s t v), st')"
    using resolve_bound_live [OF L] e v pl hd res so
    by (cases "t = Succeeded") (simp_all add: transition_action_def Let_def put_entry_def st'_def)
  note post = memory_transition_done [OF ok tr]
  have "live_for cr st' now' h pid sid pack (moved s t v)" if "now' < expires_at ?r" for now'
  proof -
    have "t \<noteq> Expired" using e(2) by (cases e) auto
    moreover have "binding_matches cr st' (state_record (moved s t v)) pid sid pack"
      using L by (simp add: live_for_def binding_matches_def moved_def st'_def put_entry_def)
    ultimately show ?thesis using L post that by (simp add: live_for_def st'_def put_entry_def)
  qed
  then show ?thesis using that tr post by blast
qed

section \<open>The audit of a commit\<close>

text \<open>
  A coordinator whose audit can write well-formed events: when it has a sink, it has the salt that
  \<open>ActionCoordinator.__init__\<close> asks for.
\<close>

definition audit_ready :: "environment \<Rightarrow> coordinator \<Rightarrow> bool" where
  "audit_ready env co \<longleftrightarrow>
     crypto_ok (env_crypto env) \<and> (co_sink co \<longrightarrow> (\<exists>salt. co_salt co = Some salt \<and> 16 \<le> length salt))"

lemma make_coordinator_audit_ready:
  "make_coordinator ds pack policy durable resolver verified sink salt = Inr co \<Longrightarrow> crypto_ok (env_crypto env) \<Longrightarrow>
     audit_ready env co"
  by (cases salt) (auto simp: make_coordinator_def audit_ready_def rbind_Inr_iff split: if_splits)

text \<open>
  What a span makes of the sink's reply: a cancellation passes, a failure counts only when the audit is
  required. The sink is asked when the coordinator has one, at the end only if the start was recorded.
\<close>

definition reported :: "coordinator \<Rightarrow> unit outcome \<Rightarrow> unit outcome" where
  "reported co r =
     (case r of
        Inr _ \<Rightarrow> Inr ()
      | Inl Cancelled \<Rightarrow> Inl Cancelled
      | Inl _ \<Rightarrow> if action_audit_mode (co_policy co) = AuditRequired then Inl AuditUnavailable else Inr ())"

definition start_answers :: "coordinator \<Rightarrow> unit outcome \<Rightarrow> answer list" where
  "start_answers co r0 = (if co_sink co then [EmitReply r0] else [])"

definition audit_started :: "coordinator \<Rightarrow> unit outcome \<Rightarrow> bool" where
  "audit_started co r0 \<longleftrightarrow> (co_sink co \<longrightarrow> reported co r0 = Inr ())"

definition end_answers :: "coordinator \<Rightarrow> unit outcome \<Rightarrow> unit outcome \<Rightarrow> answer list" where
  "end_answers co r0 r1 = (if co_sink co \<and> \<not> isl r0 then [EmitReply r1] else [])"

definition audit_ended :: "coordinator \<Rightarrow> unit outcome \<Rightarrow> unit outcome \<Rightarrow> unit outcome" where
  "audit_ended co r0 r1 = (if co_sink co \<and> \<not> isl r0 then reported co r1 else Inr ())"

text \<open>
  What the caller gets: a required audit that fails at the end turns a success into a state conflict and
  replaces an error, but never a cancellation.
\<close>

definition audited_return :: "coordinator \<Rightarrow> unit outcome \<Rightarrow> unit outcome \<Rightarrow> 'r \<Rightarrow> 'r outcome" where
  "audited_return co r0 r1 c =
     (case audit_ended co r0 r1 of
        Inr _ \<Rightarrow> Inr c | Inl e \<Rightarrow> if e = AuditUnavailable then Inl StateConflict else Inl e)"

definition audited_error :: "coordinator \<Rightarrow> unit outcome \<Rightarrow> unit outcome \<Rightarrow> action_error \<Rightarrow> 'r outcome" where
  "audited_error co r0 r1 e =
     (if e = Cancelled then Inl Cancelled else case audit_ended co r0 r1 of Inr _ \<Rightarrow> Inl e | Inl e' \<Rightarrow> Inl e')"

lemma audited_silent:
  assumes "\<not> co_sink co"
  shows "start_answers co r0 = []" "end_answers co r0 r1 = []" "audit_started co r0"
    "audited_return co r0 r1 c = Inr c" "audited_error co r0 r1 e = Inl e"
  using assms by (simp_all add: start_answers_def end_answers_def audit_started_def audited_return_def
      audited_error_def audit_ended_def)

lemma audited_recorded:
  assumes "co_sink co"
  shows "start_answers co (Inr ()) = [EmitReply (Inr ())]" "end_answers co (Inr ()) r1 = [EmitReply r1]"
    "audit_started co (Inr ())"
    "audited_return co (Inr ()) (Inr ()) c = Inr c" "audited_error co (Inr ()) (Inr ()) e = Inl e"
  using assms by (simp_all add: start_answers_def end_answers_def audit_started_def audited_return_def
      audited_error_def audit_ended_def reported_def)

lemma audited_failed:
  assumes "co_sink co" "action_audit_mode (co_policy co) = AuditRequired" "e \<noteq> Cancelled"
  shows "audited_return co (Inr ()) (Inl e) c = Inl StateConflict"
    "audited_error co (Inr ()) (Inl e) e' = Inl (if e' = Cancelled then Cancelled else AuditUnavailable)"
  using assms by (cases e; simp add: audited_return_def audited_error_def audit_ended_def reported_def)+

text \<open>The span of a commit and its events.\<close>

definition auditable :: "environment \<Rightarrow> coordinator \<Rightarrow> principal_context \<Rightarrow> action_record \<Rightarrow> bool" where
  "auditable env co ctx r \<longleftrightarrow>
     audit_ready env co \<and> check_record r = Inr () \<and> exact_identifier (principal_id ctx) = Inr (principal_id ctx) \<and>
     optional_identifier (gateway_session_id ctx) = Inr (gateway_session_id ctx) \<and> is_pack_digest (co_pack co)"

definition commit_span :: "environment \<Rightarrow> coordinator \<Rightarrow> principal_context \<Rightarrow> action_record \<Rightarrow> unit outcome \<Rightarrow> audit_span option" where
  "commit_span env co ctx r r0 =
     (if co_sink co \<and> \<not> isl r0
      then Some \<lparr>span_lifecycle = CommitLifecycle, span_capability = record_capability r, span_pack = co_pack co,
                 span_principal = binding_digest (env_crypto env) (the (co_salt co)) ''action-audit-principal'' (principal_id ctx),
                 span_session = map_option (binding_digest (env_crypto env) (the (co_salt co)) ''action-audit-session'')
                    (gateway_session_id ctx),
                 span_action = Some (handle_digest r)\<rparr>
      else None)"

lemma check_record_Inr:
  "check_record r = Inr () \<Longrightarrow> is_digest (handle_digest r) \<and> exact_identifier (record_capability r) = Inr (record_capability r)"
  by (auto simp: check_record_def validate_digest_def ensure_def exact_identifier_def rbind_Inr_iff split: if_splits)

lemma commit_event_checks:
  assumes "auditable env co ctx r"
    and "cat = Started \<longrightarrow> st = None" "cat \<in> {Success, Replayed, OutcomeUnknownCategory} \<longrightarrow> st \<noteq> None"
  shows "check_event \<lparr>ae_lifecycle = CommitLifecycle, ae_capability = record_capability r, ae_status = st, ae_category = cat,
     ae_pack = co_pack co, ae_principal = binding_digest (env_crypto env) salt ns (principal_id ctx),
     ae_session = map_option (binding_digest (env_crypto env) salt ns') (gateway_session_id ctx),
     ae_action = Some (handle_digest r), ae_decision = None\<rparr> = Inr ()"
  using assms check_record_Inr [of r]
  by (auto simp: auditable_def audit_ready_def crypto_ok_def check_event_def validate_digest_def validate_pack_digest_def
      ensure_def binding_digest_def split: option.splits)

lemma run_start_span:
  assumes A: "auditable env co ctx r" and st: "audit_started co r0"
  shows "run_alone sv w (bind_prog (start_span (env_crypto env) (audit_of co) CommitLifecycle (record_capability r) (co_pack co)
       (principal_id ctx) (gateway_session_id ctx) (Some (handle_digest r))) f) (start_answers co r0 @ as) =
     run_alone sv w (f (commit_span env co ctx r r0)) as"
proof (cases "co_sink co")
  case False
  then show ?thesis by (simp add: start_span_def audit_of_def bind_prog_def start_answers_def commit_span_def)
next
  case True
  with A obtain salt where salt: "co_salt co = Some salt" "\<not> length salt < 16"
    by (auto simp: auditable_def audit_ready_def)
  have cap: "exact_identifier (record_capability r) = Inr (record_capability r)"
    using A check_record_Inr by (simp add: auditable_def)
  show ?thesis using True st A salt cap commit_event_checks [OF A, of Started None]
    by (cases r0) (auto simp: start_span_def audit_of_def bind_prog_def start_answers_def commit_span_def audit_started_def
      reported_def auditable_def Let_def span_event_def split: action_error.splits if_splits)
qed

lemma run_finish_span:
  assumes A: "auditable env co ctx r" and st: "cat \<noteq> Started" "cat \<in> {Success, Replayed, OutcomeUnknownCategory} \<longrightarrow> st \<noteq> None"
  shows "run_alone sv w (then_prog (finish_span (audit_of co) (commit_span env co ctx r r0) st cat None None) k)
       (end_answers co r0 r1 @ as) = run_alone sv w (k (audit_ended co r0 r1)) as"
  using commit_event_checks [OF A, of cat st] st
  by (cases r1) (auto simp: finish_span_def commit_span_def end_answers_def audit_ended_def audit_of_def Let_def span_event_def
      reported_def split: action_error.splits)

section \<open>Outcomes of a commit\<close>

text \<open>An approved Action that the caller may commit now, at a coordinator with or without an audit sink.\<close>

definition commit_ready :: "crypto \<Rightarrow> coordinator \<Rightarrow> memory_store \<Rightarrow> rat \<Rightarrow> string \<Rightarrow> principal_context \<Rightarrow>
    prepared_state \<Rightarrow> compiled_definition \<Rightarrow> commit_execution \<Rightarrow> bool" where
  "commit_ready cr co st now h ctx s d x \<longleftrightarrow>
     live_for cr st now h (principal_id ctx) (gateway_session_id ctx) (co_pack co) s \<and>
     status_in s = Approved \<and>
     dget (co_definitions co) (record_capability (state_record s)) = Some d \<and>
     authorize_definition co d ctx = Inr () \<and> execution_of s = Inr x"

lemma step_memory_resolve:
  "live_for cr (w_store w) t h pid sid pack s \<Longrightarrow>
     step_prog (memory_services cr) w (AwaitResolve h pid sid pack k) (Served (Some t) g) = (k (Inr s), w)"
  by (simp add: memory_services_def memory_ops_def resolve_action_live)

lemma live_for_time:
  "live_for cr st now h pid sid pack s \<Longrightarrow> t < expires_at (state_record s) \<Longrightarrow> live_for cr st t h pid sid pack s"
  by (simp add: live_for_def)

lemma run_alone_append:
  "run_alone sv w p (as @ bs) = (case run_alone sv w p as of (p', w') \<Rightarrow> run_alone sv w' p' bs)"
  by (induction as arbitrary: w p) (auto split: prod.splits)

text \<open>The Store's part of an answered step.\<close>

lemma run_transition:
  assumes "transition_action cr st c h pid sid pack e t v = (r, st')" "w_store w = st"
  shows "run_alone (memory_services cr) w (AwaitTransition h pid sid pack e t v k) (Served c g # as) =
     run_alone (memory_services cr) (w\<lparr>w_store := st'\<rparr>) (k r) as"
  using assms by (simp add: memory_services_def memory_ops_def)

lemma run_resolve:
  assumes "resolve_action cr st c h pid sid pack = (r, st')" "w_store w = st"
  shows "run_alone (memory_services cr) w (AwaitResolve h pid sid pack k) (Served c g # as) =
     run_alone (memory_services cr) (w\<lparr>w_store := st'\<rparr>) (k r) as"
  using assms by (simp add: memory_services_def memory_ops_def)

lemma run_live:
  assumes "live_for cr (w_store w) t h pid sid pack s"
  shows "run_alone (memory_services cr) w (AwaitResolve h pid sid pack k) (Served (Some t) g # as) =
     run_alone (memory_services cr) w (k (Inr s)) as"
  unfolding run_resolve [OF resolve_action_live [OF assms] refl] by (rule arg_cong2 [where f = "\<lambda>w p. run_alone _ w p as"]) simp_all

lemmas run_store_steps = run_transition run_resolve run_live

lemma then_prog_assoc: "then_prog (then_prog p f) g = then_prog p (\<lambda>r. then_prog (f r) g)"
  by (induction p) simp_all

text \<open>What the commit coroutine does once the executor has answered.\<close>

definition executor_answered ::
    "coordinator \<Rightarrow> string \<Rightarrow> principal_context \<Rightarrow> audit_span option \<Rightarrow> json outcome \<Rightarrow> commit_result prog" where
  "executor_answered co h ctx spn r =
     then_prog (case rbind r (canonical_or StateConflict) of
                  Inl e \<Rightarrow> outcome_unknown co h ctx e
                | Inr v \<Rightarrow> record_success co h ctx v) (commit_epilogue co h ctx spn)"

lemma live_auditable:
  assumes "live_for cr st now h (principal_id ctx) (gateway_session_id ctx) (co_pack co) s" "audit_ready env co"
  shows "auditable env co ctx (state_record s)"
proof -
  have ok: "store_ok cr st" using assms(1) by (simp add: live_for_def)
  from store_okD [OF this live_for_record(1) [OF assms(1)]] have "check_record (state_record s) = Inr ()"
    by (auto simp: entry_ok_def)
  with assms show ?thesis by (simp add: auditable_def live_for_def)
qed

text \<open>The first resolution and the start of the audit.\<close>

lemma run_commit_start:
  assumes L: "live_for cr (w_store w) t0 h (principal_id ctx) (gateway_session_id ctx) (co_pack co) s"
    and a: "audit_ready env co" "audit_started co r0"
  shows "run_alone (memory_services cr) w (commit env co h ctx) (Served (Some t0) g # start_answers co r0 @ as) =
     run_alone (memory_services cr) w
       (then_prog (commit_body co h ctx) (commit_epilogue co h ctx (commit_span env co ctx (state_record s) r0))) as"
  unfolding commit_def resolve_call_def bind_prog_def [of "AwaitResolve h pid sid pack k" for pid sid pack k] then_prog.simps
  by (simp add: run_live [OF L] run_start_span [OF live_auditable [OF L a(1)] a(2)] del: run_alone.simps(2))

lemma commit_ready_run:
  assumes R: "commit_ready cr co (w_store w) now h ctx s d x"
    and aud: "audit_ready env co" "audit_started co r0"
    and t: "t0 < expires_at (state_record s)" "t1 < expires_at (state_record s)" "t2 < expires_at (state_record s)"
  obtains st' where
    "\<And>as. run_alone (memory_services cr) w (commit env co h ctx)
        (Served (Some t0) g # start_answers co r0 @ Served (Some t1) g # Served (Some t2) g # ExecuteReply r # as) =
       run_alone (memory_services cr) (w\<lparr>w_store := st', w_log := Executed h d x ctx # w_log w\<rparr>)
         (executor_answered co h ctx (commit_span env co ctx (state_record s) r0) r) as"
    "store_ok cr st'"
    "\<And>t. t < expires_at (state_record s) \<Longrightarrow>
       live_for cr st' t h (principal_id ctx) (gateway_session_id ctx) (co_pack co) (moved s Committing JNull)"
proof -
  let ?live = "\<lambda>st t. live_for cr st t h (principal_id ctx) (gateway_session_id ctx) (co_pack co)"
  from R have L: "?live (w_store w) now s" and st: "status_in s = Approved"
    and d: "dget (co_definitions co) (record_capability (state_record s)) = Some d"
    and a: "authorize_definition co d ctx = Inr ()" and x: "execution_of s = Inr x"
    by (simp_all add: commit_ready_def)
  note L0 = live_for_time [OF L t(1)] and L1 = live_for_time [OF L t(2)] and L2 = live_for_time [OF L t(3)]
  obtain st' where tr: "transition_action cr (w_store w) (Some t2) h (principal_id ctx) (gateway_session_id ctx) (co_pack co)
        Approved Committing JNull = (Inr (moved s Committing JNull), st')"
    and post: "\<And>t. t < expires_at (state_record s) \<Longrightarrow> ?live st' t (moved s Committing JNull)" "store_ok cr st'"
    by (rule transition_action_live [OF L2 st, where t = Committing and v = JNull]) auto
  have "run_alone (memory_services cr) w (commit env co h ctx)
        (Served (Some t0) g # start_answers co r0 @ Served (Some t1) g # Served (Some t2) g # ExecuteReply r # as) =
       run_alone (memory_services cr) (w\<lparr>w_store := st', w_log := Executed h d x ctx # w_log w\<rparr>)
         (executor_answered co h ctx (commit_span env co ctx (state_record s) r0) r) as" for as
    unfolding run_commit_start [OF L0 aud]
    using resolve_action_live [OF L1] tr st d a x
    by (simp add: bind_prog_def resolve_call_def transition_call_def commit_body_def memory_services_def memory_ops_def
        lookup_definition_def executor_answered_def)
  with post that show ?thesis by blast
qed

text \<open>The epilogue.\<close>

lemma run_epilogue_Inr:
  assumes "auditable env co ctx r"
  shows "run_alone sv w (commit_epilogue co h ctx (commit_span env co ctx r r0) (Inr c)) (end_answers co r0 r1) =
     (Return (audited_return co r0 r1 c), w)"
proof -
  note run = run_finish_span [OF assms, of "if cm_replayed c then Replayed else Success" "Some (cm_status c)" sv w r0 _ r1 "[]",
      unfolded append_Nil2]
  show ?thesis unfolding commit_epilogue_def sum.case
    by (subst run) (auto simp: audited_return_def split: sum.split action_error.split)
qed

lemma error_category_plain: "audit_error_category e \<notin> {Started, Success, Replayed, OutcomeUnknownCategory}"
  by (cases e) simp_all

lemma run_epilogue_Inl:
  assumes A: "auditable env co ctx r" and res: "resolve_action cr (w_store w) c h (principal_id ctx) (gateway_session_id ctx)
      (co_pack co) = (q, st')"
  shows "run_alone (memory_services cr) w (commit_epilogue co h ctx (commit_span env co ctx r r0) (Inl e))
       (Served c g # end_answers co r0 r1) = (Return (audited_error co r0 r1 e), w\<lparr>w_store := st'\<rparr>)"
proof -
  define st where "st = (case q of Inl _ \<Rightarrow> None | Inr s \<Rightarrow> Some (status_in s))"
  have cat: "commit_error_category e st \<noteq> Started"
    "commit_error_category e st \<in> {Success, Replayed, OutcomeUnknownCategory} \<longrightarrow> st \<noteq> None"
    using error_category_plain [of e] by (auto simp: commit_error_category_def)
  have epilogue: "commit_epilogue co h ctx spn (Inl e) =
      AwaitResolve h (principal_id ctx) (gateway_session_id ctx) (co_pack co) (\<lambda>q.
        let st = (case q of Inl _ \<Rightarrow> None | Inr s \<Rightarrow> Some (status_in s)) in
        if e = Cancelled then then_prog (finish_span (audit_of co) spn st CancelledCategory None None) (\<lambda>_. Return (Inl Cancelled))
        else then_prog (finish_span (audit_of co) spn st (commit_error_category e st) None None)
           (\<lambda>f. case f of Inl e' \<Rightarrow> Return (Inl e') | Inr _ \<Rightarrow> Return (Inl e)))" for spn
    by (auto intro!: ext arg_cong [where f = "then_prog _"] simp: commit_epilogue_def resolved_status_or_none_def resolve_call_def
        bind_prog_def finish_cancelled_def then_prog_assoc Let_def split: sum.split)
  note run = run_finish_span [OF A cat, where as = "[]", unfolded append_Nil2]
    run_finish_span [OF A, of CancelledCategory st, where as = "[]", simplified append_Nil2]
  show ?thesis unfolding epilogue run_resolve [OF res refl] Let_def st_def [symmetric]
    by (cases "e = Cancelled") (simp_all add: run audited_error_def split: sum.split)
qed

lemma executor_success:
  assumes "json_finite v"
  shows "executor_answered co h ctx spn (Inr v) =
     AwaitTransition h (principal_id ctx) (gateway_session_id ctx) (co_pack co) Committing Succeeded (sort_keys v)
       (\<lambda>r. case r of
           Inl e \<Rightarrow> then_prog (outcome_unknown co h ctx e) (commit_epilogue co h ctx spn)
         | Inr s \<Rightarrow> commit_epilogue co h ctx spn
             (Inr \<lparr>cm_capability = record_capability (state_record s), cm_status = status_in s,
                   cm_result = result_value s, cm_replayed = False\<rparr>))"
  using assms
  by (auto intro!: ext simp: executor_answered_def canonical_or_def canonical_copy_def record_success_def
      transition_call_def split: sum.split)

lemma outcome_unknown_epilogue:
  "then_prog (outcome_unknown co h ctx e) (commit_epilogue co h ctx spn) =
     AwaitTransition h (principal_id ctx) (gateway_session_id ctx) (co_pack co) Committing OutcomeUnknown JNull
       (\<lambda>_. commit_epilogue co h ctx spn (Inl (if e = Cancelled then Cancelled else StateConflict)))"
  by (simp add: outcome_unknown_def mark_outcome_unknown_def transition_call_def bind_prog_def)

lemma executor_failure:
  "executor_answered co h ctx spn (Inl e) =
     AwaitTransition h (principal_id ctx) (gateway_session_id ctx) (co_pack co) Committing OutcomeUnknown JNull
       (\<lambda>_. commit_epilogue co h ctx spn (Inl (if e = Cancelled then Cancelled else StateConflict)))"
  by (simp add: executor_answered_def outcome_unknown_epilogue)

text \<open>An expired handle: every call raises, and the record is expired.\<close>

lemma resolve_bound_expired:
  assumes L: "live_for cr st t0 h pid sid pack s" and t: "expires_at (state_record s) \<le> t"
  shows "resolve_bound cr st (Some t) h pid sid pack =
     (Inl ActionExpired,
      st\<lparr>store_records := dset (store_records st) (sha256_hex cr h) (expire_record (state_record s))\<rparr>)"
  using L live_for_record [OF L] t
  by (simp add: live_for_def resolve_bound_def handle_digest_of_def finite_time_def validate_pack_digest_def ensure_def)

lemma transition_action_expired:
  assumes L: "live_for cr st t0 h pid sid pack s" and t: "expires_at (state_record s) \<le> t"
  obtains st' s' where "transition_action cr st (Some t) h pid sid pack e tg v = (Inl ActionExpired, st')"
    "store_ok cr st'" "entry_at st' (sha256_hex cr h) = Some s'" "status_in s' = Expired" "sealed s' = sealed s"
proof -
  define st' where "st' = st\<lparr>store_records := dset (store_records st) (sha256_hex cr h) (expire_record (state_record s))\<rparr>"
  have tr: "transition_action cr st (Some t) h pid sid pack e tg v = (Inl ActionExpired, st')"
    by (simp add: transition_action_def resolve_bound_expired [OF assms] st'_def)
  have "store_ok cr st" using L by (simp add: live_for_def)
  note post = memory_transition_refused [OF this tr]
  have eat: "entry_at st (sha256_hex cr h) = Some s" using L by (simp add: live_for_def)
  with post have "keeps (Some s) (entry_at st' (sha256_hex cr h))" by metis
  then obtain s' where s': "entry_at st' (sha256_hex cr h) = Some s'" "sealed s' = sealed s"
    by (auto dest: keeps_SomeD)
  have "state_record s' = expire_record (state_record s)"
    using s'(1) by (auto simp: entry_at_Some state_of_Inr st'_def)
  then have "status_in s' = Expired" by (simp add: expire_record_def)
  with tr post s' that show ?thesis by blast
qed

text \<open>A call on any entry keeps an expired entry expired.\<close>

lemma expired_stays:
  assumes "keeps (entry_at st d) (entry_at st' d)" "entry_at st d = Some s" "status_in s = Expired"
  shows "\<exists>s'. entry_at st' d = Some s' \<and> status_in s' = Expired \<and> sealed s' = sealed s"
  using assms by (auto dest: keeps_SomeD)

text \<open>The executor answers with a finite value in time: the result is stored and returned.\<close>

lemma commit_succeeds:
  assumes R: "commit_ready cr co (w_store w) now h ctx s d x"
    and aud: "audit_ready env co" "audit_started co r0"
    and t: "t0 < expires_at (state_record s)" "t1 < expires_at (state_record s)"
      "t2 < expires_at (state_record s)" "t3 < expires_at (state_record s)"
    and v: "json_finite v"
  shows "\<exists>st'. run_alone (memory_services cr) w (commit env co h ctx)
        (Served (Some t0) g # start_answers co r0 @
         Served (Some t1) g # Served (Some t2) g # ExecuteReply (Inr v) # Served (Some t3) g # end_answers co r0 r1) =
       (Return (audited_return co r0 r1 \<lparr>cm_capability = record_capability (state_record s), cm_status = Succeeded,
                     cm_result = sort_keys v, cm_replayed = False\<rparr>),
        w\<lparr>w_store := st', w_log := Executed h d x ctx # w_log w\<rparr>) \<and>
       (\<forall>t < expires_at (state_record s).
          live_for cr st' t h (principal_id ctx) (gateway_session_id ctx) (co_pack co)
            (moved (moved s Committing JNull) Succeeded (sort_keys v)))"
proof -
  let ?live = "\<lambda>st t. live_for cr st t h (principal_id ctx) (gateway_session_id ctx) (co_pack co)"
  let ?m = "moved s Committing JNull"
  have A: "auditable env co ctx (state_record s)" using R aud live_auditable by (auto simp: commit_ready_def)
  obtain st1 where run: "\<And>as. run_alone (memory_services cr) w (commit env co h ctx)
        (Served (Some t0) g # start_answers co r0 @ Served (Some t1) g # Served (Some t2) g # ExecuteReply (Inr v) # as) =
       run_alone (memory_services cr) (w\<lparr>w_store := st1, w_log := Executed h d x ctx # w_log w\<rparr>)
         (executor_answered co h ctx (commit_span env co ctx (state_record s) r0) (Inr v)) as"
    and live: "\<And>t. t < expires_at (state_record s) \<Longrightarrow> ?live st1 t ?m"
    using commit_ready_run [OF R aud t(1-3)] by metis
  obtain st2 where tr: "transition_action cr st1 (Some t3) h (principal_id ctx) (gateway_session_id ctx) (co_pack co)
        Committing Succeeded (sort_keys v) = (Inr (moved ?m Succeeded (sort_keys v)), st2)"
    and post: "\<And>t. t < expires_at (state_record ?m) \<Longrightarrow> ?live st2 t (moved ?m Succeeded (sort_keys v))"
    by (rule transition_action_live [OF live [OF t(4)], where t = Succeeded and v = "sort_keys v"]) (use v in auto)
  show ?thesis
    unfolding run executor_success [OF v]
    by (rule exI [of _ st2]) (use post in \<open>simp add: run_transition [OF tr] run_epilogue_Inr [OF A] del: run_alone.simps(2)\<close>)
qed

text \<open>The executor fails or is cancelled in time: the outcome is recorded as unknown.\<close>

lemma commit_fails:
  assumes R: "commit_ready cr co (w_store w) now h ctx s d x"
    and aud: "audit_ready env co" "audit_started co r0"
    and t: "t0 < expires_at (state_record s)" "t1 < expires_at (state_record s)"
      "t2 < expires_at (state_record s)" "t3 < expires_at (state_record s)" "t4 < expires_at (state_record s)"
  shows "\<exists>st'. run_alone (memory_services cr) w (commit env co h ctx)
        (Served (Some t0) g # start_answers co r0 @
         Served (Some t1) g # Served (Some t2) g # ExecuteReply (Inl e) # Served (Some t3) g # Served (Some t4) g #
         end_answers co r0 r1) =
       (Return (audited_error co r0 r1 (if e = Cancelled then Cancelled else StateConflict)),
        w\<lparr>w_store := st', w_log := Executed h d x ctx # w_log w\<rparr>) \<and>
       entry_at st' (sha256_hex cr h) = Some (moved (moved s Committing JNull) OutcomeUnknown JNull)"
proof -
  let ?live = "\<lambda>st t. live_for cr st t h (principal_id ctx) (gateway_session_id ctx) (co_pack co)"
  let ?m = "moved s Committing JNull"
  have A: "auditable env co ctx (state_record s)" using R aud live_auditable by (auto simp: commit_ready_def)
  obtain st1 where run: "\<And>as. run_alone (memory_services cr) w (commit env co h ctx)
        (Served (Some t0) g # start_answers co r0 @ Served (Some t1) g # Served (Some t2) g # ExecuteReply (Inl e) # as) =
       run_alone (memory_services cr) (w\<lparr>w_store := st1, w_log := Executed h d x ctx # w_log w\<rparr>)
         (executor_answered co h ctx (commit_span env co ctx (state_record s) r0) (Inl e)) as"
    and live: "\<And>t. t < expires_at (state_record s) \<Longrightarrow> ?live st1 t ?m"
    using commit_ready_run [OF R aud t(1-3)] by metis
  obtain st2 where tr: "transition_action cr st1 (Some t3) h (principal_id ctx) (gateway_session_id ctx) (co_pack co)
        Committing OutcomeUnknown JNull = (Inr (moved ?m OutcomeUnknown JNull), st2)"
    and post: "\<And>t. t < expires_at (state_record ?m) \<Longrightarrow> ?live st2 t (moved ?m OutcomeUnknown JNull)"
      "entry_at st2 (sha256_hex cr h) = Some (moved ?m OutcomeUnknown JNull)"
    by (rule transition_action_live [OF live [OF t(4)], where t = OutcomeUnknown and v = JNull]) auto
  have L4: "?live st2 t4 (moved ?m OutcomeUnknown JNull)" using post(1) t(5) by simp
  show ?thesis
    unfolding run executor_failure
    by (rule exI [of _ st2])
      (use post(2) L4 in \<open>simp add: run_transition [OF tr] run_epilogue_Inl [OF A resolve_action_live] del: run_alone.simps(2)\<close>)
qed

text \<open>A second commit of a successful Action replays the stored result and executes nothing.\<close>

lemma commit_replays:
  assumes L: "live_for cr (w_store w) now h (principal_id ctx) (gateway_session_id ctx) (co_pack co) s"
    and s: "status_in s = Succeeded" and aud: "audit_ready env co" "audit_started co r0"
    and d: "dget (co_definitions co) (record_capability (state_record s)) = Some d"
      "authorize_definition co d ctx = Inr ()"
    and t: "t0 < expires_at (state_record s)" "t1 < expires_at (state_record s)"
  shows "run_alone (memory_services cr) w (commit env co h ctx)
       (Served (Some t0) g # start_answers co r0 @ Served (Some t1) g # end_answers co r0 r1) =
     (Return (audited_return co r0 r1 \<lparr>cm_capability = record_capability (state_record s), cm_status = Succeeded,
                   cm_result = result_value s, cm_replayed = True\<rparr>), w)"
  unfolding run_commit_start [OF live_for_time [OF L t(1)] aud] commit_body_def resolve_call_def bind_prog_def then_prog.simps
  using s d
  by (simp add: run_live [OF live_for_time [OF L t(2)]] lookup_definition_def run_epilogue_Inr [OF live_auditable [OF L aud(1)]]
      del: run_alone.simps(2))

text \<open>
  The prepared Action expires while it executes: the executor has acted, the caller is told the
  outcome is unknown, and the record ends as expired, whatever the later clock readings are.
\<close>

lemma commit_expires:
  assumes R: "commit_ready cr co (w_store w) now h ctx s d x"
    and aud: "audit_ready env co" "audit_started co r0"
    and t: "t0 < expires_at (state_record s)" "t1 < expires_at (state_record s)" "t2 < expires_at (state_record s)"
      "expires_at (state_record s) \<le> t3"
    and v: "json_finite v"
  shows "\<exists>w'. run_alone (memory_services cr) w (commit env co h ctx)
        (Served (Some t0) g # start_answers co r0 @
         Served (Some t1) g # Served (Some t2) g # ExecuteReply (Inr v) # Served (Some t3) g #
         Served (Some t4) g # Served (Some t5) g # end_answers co r0 r1) = (Return (audited_error co r0 r1 StateConflict), w') \<and>
       w_log w' = Executed h d x ctx # w_log w \<and>
       (\<exists>s'. entry_at (w_store w') (sha256_hex cr h) = Some s' \<and> status_in s' = Expired \<and> sealed s' = sealed s)"
proof -
  let ?live = "\<lambda>st t. live_for cr st t h (principal_id ctx) (gateway_session_id ctx) (co_pack co)"
  let ?m = "moved s Committing JNull" and ?d = "sha256_hex cr h"
  have A: "auditable env co ctx (state_record s)" using R aud live_auditable by (auto simp: commit_ready_def)
  obtain st1 where run: "\<And>as. run_alone (memory_services cr) w (commit env co h ctx)
        (Served (Some t0) g # start_answers co r0 @ Served (Some t1) g # Served (Some t2) g # ExecuteReply (Inr v) # as) =
       run_alone (memory_services cr) (w\<lparr>w_store := st1, w_log := Executed h d x ctx # w_log w\<rparr>)
         (executor_answered co h ctx (commit_span env co ctx (state_record s) r0) (Inr v)) as"
    and live: "\<And>t. t < expires_at (state_record s) \<Longrightarrow> ?live st1 t ?m"
    using commit_ready_run [OF R aud t(1-3)] by metis
  obtain st2 s2 where tr: "transition_action cr st1 (Some t3) h (principal_id ctx) (gateway_session_id ctx) (co_pack co)
        Committing Succeeded (sort_keys v) = (Inl ActionExpired, st2)"
    and s2: "store_ok cr st2" "entry_at st2 ?d = Some s2" "status_in s2 = Expired" "sealed s2 = sealed ?m"
    by (rule transition_action_expired [OF live [OF t(1)]]) (use t(4) in auto)
  obtain r3 st3 where tr3: "transition_action cr st2 (Some t4) h (principal_id ctx) (gateway_session_id ctx) (co_pack co)
        Committing OutcomeUnknown JNull = (r3, st3)" by fastforce
  have keep3: "store_ok cr st3 \<and> keeps (entry_at st2 ?d) (entry_at st3 ?d)"
  proof (cases r3)
    case (Inl e)
    with memory_transition_refused [OF s2(1)] tr3 show ?thesis by blast
  next
    case (Inr s3)
    with memory_transition_done [OF s2(1)] tr3 s2(2,3) show ?thesis by fastforce
  qed
  obtain r4 st4 where r4: "resolve_action cr st3 (Some t5) h (principal_id ctx) (gateway_session_id ctx) (co_pack co)
      = (r4, st4)" by fastforce
  have keep4: "keeps (entry_at st3 ?d) (entry_at st4 ?d)" using memory_resolve_law [OF _ r4] keep3 by blast
  have "keeps (entry_at st2 ?d) (entry_at st4 ?d)" using keep3 keep4 keeps_trans by blast
  with expired_stays [OF this s2(2,3)] s2(4)
  have "\<exists>s'. entry_at st4 ?d = Some s' \<and> status_in s' = Expired \<and> sealed s' = sealed s"
    by (auto simp: sealed_def moved_def)
  then show ?thesis
    unfolding run executor_success [OF v]
    by (intro exI [of _ "w\<lparr>w_store := st4, w_log := Executed h d x ctx # w_log w\<rparr>"])
      (simp add: run_transition [OF tr] run_transition [OF tr3] outcome_unknown_epilogue run_epilogue_Inl [OF A, of cr _ "Some t5"] r4
        del: run_alone.simps(2))
qed

text \<open>A required audit whose start cannot be recorded stops a commit before anything is done.\<close>

lemma commit_unrecorded:
  assumes L: "live_for cr (w_store w) t0 h (principal_id ctx) (gateway_session_id ctx) (co_pack co) s"
    and aud: "audit_ready env co" "co_sink co" "action_audit_mode (co_policy co) = AuditRequired" "isl r0"
  shows "run_alone (memory_services cr) w (commit env co h ctx) [Served (Some t0) g, EmitReply r0] =
     (Return (Inl (if r0 = Inl Cancelled then Cancelled else AuditUnavailable)), w)"
proof -
  note A = live_auditable [OF L aud(1)]
  then obtain salt where salt: "co_salt co = Some salt" "\<not> length salt < 16"
    using aud(2) by (auto simp: auditable_def audit_ready_def)
  have cap: "exact_identifier (record_capability (state_record s)) = Inr (record_capability (state_record s))"
    using A check_record_Inr by (simp add: auditable_def)
  show ?thesis unfolding commit_def resolve_call_def bind_prog_def then_prog.simps run_live [OF L]
    using aud A salt cap commit_event_checks [OF A, of Started None]
    by (cases r0) (auto simp: start_span_def audit_of_def auditable_def Let_def span_event_def split: action_error.splits)
qed

end
