(* ===== verification/Examples.thy ===== *)
theory Examples
  imports Callability PolicyEnforcer CommitOutcome
begin

text \<open>
  Concrete values on which the properties are evaluated: a deployed Action that needs approval, a
  caller, a Store, an authority, and a schedule in which two commits of one prepared Action race.
\<close>

section \<open>A deployed Action\<close>

definition demo_pack :: string where
  "demo_pack = ''sha256:'' @ replicate 64 (CHR ''c'')"

definition demo_handle :: string where
  "demo_handle = replicate 43 (CHR ''A'')"

definition demo_approval :: string where
  "demo_approval = replicate 44 (CHR ''B'')"

definition demo_capability :: capability where
  "demo_capability =
     \<lparr>cap_id = ''order.cancel'', cap_title = ''Cancel an order'', cap_input_schema = JObj [], cap_output_schema = JObj [],
      cap_policy = ''orders'',
      cap_body = ActionBody \<lparr>execution_mode = Single, approval_mode_required = True, expires_in_seconds = 600,
                             local_development_state_guard = None\<rparr> [] []\<rparr>"

definition demo_definition :: compiled_definition where
  "demo_definition =
     \<lparr>def_capability = demo_capability,
      def_proof = \<lparr>proof_ok = True, mutation_operation_ids = [''orders.cancel''], proof_effects = [Update],
                   maximum_risk = Some Medium, proof_scopes = [''orders:write''], approval_required = True\<rparr>\<rparr>"

definition demo_policy :: deployment_policy where
  "demo_policy = default_policy\<lparr>allowed_effects := {Read, Update}, max_risk := High,
     require_durable_action_store := False, action_audit_mode := AuditBestEffort\<rparr>"

definition demo_coordinator :: coordinator where
  "demo_coordinator =
     \<lparr>co_definitions = [(''order.cancel'', demo_definition)], co_pack = demo_pack, co_policy = demo_policy,
      co_resolver = False, co_sink = False, co_salt = None\<rparr>"

definition demo_env :: environment where
  "demo_env = \<lparr>env_crypto = demo_crypto, schema_valid = (\<lambda>_ _. True)\<rparr>"

definition demo_context :: principal_context where
  "demo_context =
     \<lparr>principal_id = ''alice'', gateway_session_id = None, target_system_id = ''shop'', source_scopes = None,
      scope_ceiling = {''orders:write''}, effective_scopes = {''orders:write''}, tenant_context = None,
      auth_state_handle = ''auth''\<rparr>"

definition demo_store :: memory_store where
  "demo_store =
     \<lparr>store_salt = ''0123456789abcdef'', max_actions = 10, store_records = [], store_payloads = [], store_closed = False\<rparr>"

lemma demo_coordinator_ok: "coordinator_ok demo_coordinator"
  by (simp add: coordinator_ok_def demo_coordinator_def demo_definition_def demo_capability_def)

lemma demo_store_made: "make_memory_store True ''0123456789abcdef'' 10 = Inr demo_store"
  by (simp add: make_memory_store_def demo_store_def)

section \<open>A prepared Action\<close>

definition demo_preview :: preview_execution where
  "demo_preview = \<lparr>pe_value = JStr ''will cancel'', pe_token = JInt 7, pe_token_required = None, pe_terminal = False, pe_result = JNull\<rparr>"

definition demo_request :: create_request where
  "demo_request =
     \<lparr>cr_capability = ''order.cancel'', cr_principal = ''alice'', cr_session = None, cr_pack = demo_pack,
      cr_input = JObj [(''id'', JInt 5)],
      cr_preview = seal_preview (JStr ''will cancel'') (JInt 7) ''key-1'' False JNull,
      cr_expires_in = 600\<rparr>"

definition demo_record :: action_record where
  "demo_record =
     (case create_action demo_crypto demo_store (Some 0) demo_handle demo_request of
        (Inr (_, s), _) \<Rightarrow> state_record s)"

definition demo_binding :: approval_binding where
  "demo_binding = (case binding_from_record demo_record of Inr b \<Rightarrow> b)"

definition demo_authority :: memory_authority where
  "demo_authority = snd (issue_for_testing demo_crypto [] (Some 0) demo_approval demo_binding 300)"

text \<open>Prepare, approve, and two commits that both see the approved Action before either claims it.\<close>

definition at_time :: "rat \<Rightarrow> answer" where
  "at_time t = Served (Some t) demo_handle"

definition demo_schedule :: "event list" where
  "demo_schedule =
     [Begin (PrepareRequest ''order.cancel'' [(''id'', JInt 5)] demo_context),
      Answer 0 (PreviewReply (Inr demo_preview)), Answer 0 (KeyReply (Inr ''key-1'')), Answer 0 (at_time 0),
      Begin (ApproveRequest demo_handle demo_approval demo_context),
      Answer 1 (at_time 1), Answer 1 (at_time 1), Answer 1 (at_time 1), Answer 1 (at_time 1),
      Begin (CommitRequest demo_handle demo_context), Begin (CommitRequest demo_handle demo_context),
      Answer 2 (at_time 2), Answer 3 (at_time 2), Answer 2 (at_time 2), Answer 3 (at_time 2),
      Answer 3 (at_time 3), Answer 2 (at_time 3), Answer 2 (at_time 3),
      Answer 3 (ExecuteReply (Inr (JStr ''cancelled''))), Answer 3 (at_time 4)]"

definition demo_end :: "(memory_store, memory_authority) system" where
  "demo_end = run_schedule demo_env demo_coordinator (memory_services demo_crypto)
     (fresh_system demo_store demo_authority) demo_schedule"

lemma demo_executions:
  "executions (sha256_hex demo_crypto) (w_log (s_world demo_end)) (sha256_hex demo_crypto demo_handle) = 1"
  by code_simp

section \<open>The approved Action\<close>

definition demo_digest :: string where
  "demo_digest = sha256_hex demo_crypto demo_handle"

definition demo_input :: json where
  "demo_input = JObj [(''id'', JInt 5)]"

definition demo_sealed :: json where
  "demo_sealed = sort_keys (seal_preview (JStr ''will cancel'') (JInt 7) ''key-1'' False JNull)"

definition demo_approved :: action_record where
  "demo_approved = demo_record\<lparr>action_status := Approved\<rparr>"

definition demo_state :: prepared_state where
  "demo_state = \<lparr>state_record = demo_approved, input_value = demo_input, preview_value = demo_sealed, result_value = JNull\<rparr>"

definition demo_world :: "(memory_store, memory_authority) world" where
  "demo_world = \<lparr>w_store = put_entry demo_store demo_digest demo_approved (demo_input, demo_sealed, None),
     w_authority = [], w_log = []\<rparr>"

definition demo_execution :: commit_execution where
  "demo_execution =
     \<lparr>ex_input = demo_input, ex_preview = JStr ''will cancel'', ex_token = JInt 7, ex_key = ''key-1'',
      ex_terminal = False, ex_result = JNull\<rparr>"

lemma demo_record_value:
  "demo_record =
     \<lparr>handle_digest = replicate 63 (CHR ''0'') @ ''b'', record_capability = ''order.cancel'',
      principal_digest = replicate 63 (CHR ''1'') @ ''b'', session_digest = None, record_pack = demo_pack,
      input_digest = replicate 63 (CHR ''0'') @ ''a'', preview_digest = replicate 63 (CHR ''0'') @ ''b'',
      created_at = 0, expires_at = 600, action_status = Prepared\<rparr>"
  by code_simp

lemma demo_entry: "entry_ok demo_crypto demo_digest demo_approved (demo_input, demo_sealed, None)"
  unfolding demo_approved_def demo_record_value by code_simp

lemma demo_world_ok: "store_ok demo_crypto (w_store demo_world)"
  unfolding demo_world_def
  using put_entry_ok [OF make_memory_store_ok [OF demo_store_made] demo_entry] by (simp add: demo_store_def)

lemma demo_binding_matches:
  "binding_matches demo_crypto (w_store demo_world) demo_approved ''alice'' None demo_pack"
  unfolding demo_approved_def demo_record_value by code_simp

lemma demo_checks:
  "is_handle demo_handle" "exact_identifier ''alice'' = Inr ''alice''" "is_pack_digest demo_pack"
  "authorize_definition demo_coordinator demo_definition demo_context = Inr ()"
  "execution_of demo_state = Inr demo_execution" "handle_digest demo_record = demo_digest"
  unfolding demo_record_value demo_state_def demo_approved_def by code_simp+

lemma demo_state_facts [simp]:
  "status_in demo_state = Approved" "expires_at (state_record demo_state) = 600"
  "record_capability (state_record demo_state) = ''order.cancel''" "state_record demo_state = demo_approved"
  by (simp_all add: demo_state_def demo_approved_def demo_record_value)

lemma demo_entry_at: "entry_at (w_store demo_world) (sha256_hex demo_crypto demo_handle) = Some demo_state"
  using demo_checks(6)
  by (simp add: demo_world_def entry_at_def put_entry_def state_of_def demo_state_def demo_approved_def
      flip: demo_digest_def)

lemma demo_live: "t < 600 \<Longrightarrow> live_for demo_crypto (w_store demo_world) t demo_handle ''alice'' None demo_pack demo_state"
  using demo_state_facts(1,2)
  by (simp add: live_for_def demo_world_ok demo_entry_at demo_checks optional_identifier_def demo_binding_matches)
    (simp add: demo_world_def put_entry_def demo_store_def)

lemma demo_ready:
  "commit_ready demo_crypto demo_coordinator (w_store demo_world) 2 demo_handle demo_context demo_state demo_definition demo_execution"
  using demo_live [of 2] demo_state_facts demo_checks
  by (simp add: commit_ready_def) (simp add: demo_coordinator_def demo_context_def)

text \<open>The same deployment with a required audit.\<close>

definition audited_coordinator :: coordinator where
  "audited_coordinator =
     demo_coordinator\<lparr>co_sink := True, co_salt := Some ''0123456789abcdef'',
       co_policy := demo_policy\<lparr>action_audit_mode := AuditRequired\<rparr>\<rparr>"

lemma audited_facts [simp]:
  "co_sink audited_coordinator" "co_policy audited_coordinator = demo_policy\<lparr>action_audit_mode := AuditRequired\<rparr>"
  "co_pack audited_coordinator = demo_pack" "action_audit_mode (co_policy audited_coordinator) = AuditRequired"
  by (simp_all add: audited_coordinator_def demo_coordinator_def)

lemma demo_fields:
  "principal_id demo_context = ''alice''" "gateway_session_id demo_context = None" "co_pack demo_coordinator = demo_pack"
  "dget (co_definitions demo_coordinator) ''order.cancel'' = Some demo_definition"
  by (simp_all add: demo_context_def demo_coordinator_def)

lemma demo_silent: "\<not> co_sink demo_coordinator"
  by (simp add: demo_coordinator_def)

lemma demo_audit_ready: "audit_ready demo_env demo_coordinator" "audit_ready demo_env audited_coordinator"
  using demo_crypto_ok by (simp_all add: audit_ready_def demo_env_def demo_coordinator_def audited_coordinator_def)

lemma audited_ready:
  "commit_ready demo_crypto audited_coordinator (w_store demo_world) 2 demo_handle demo_context demo_state demo_definition demo_execution"
proof -
  have "authorize_definition audited_coordinator demo_definition demo_context = Inr ()" by code_simp
  with demo_live [of 2] demo_state_facts demo_checks show ?thesis
    by (simp add: commit_ready_def) (simp add: audited_coordinator_def demo_coordinator_def demo_context_def)
qed

lemma demo_grant:
  "\<exists>g au'. verify_approval demo_crypto demo_authority (Some 5) demo_approval demo_binding = (Inr g, au')"
proof -
  have "\<not> isl (fst (verify_approval demo_crypto demo_authority (Some 5) demo_approval demo_binding))"
    unfolding demo_authority_def demo_binding_def demo_record_value by code_simp
  then show ?thesis by (metis prod.collapse sum.collapse(2))
qed

section \<open>Policies, scopes and principals\<close>

definition demo_disclosure_policy :: policy where
  "demo_disclosure_policy =
     \<lparr>policy_id = ''orders'', required_scopes = [''orders:read''], tenant_mode = TenantNone, tenant_field = None,
      readable_fields = [''$.a.b''], denied_fields = [''a.c''], redaction_rules = []\<rparr>"

lemma demo_denied: "\<exists>d. evaluate default_policy ''c'' [''delete''] ''high'' = Inr d \<and> \<not> decision_allowed d"
proof -
  have "(case evaluate default_policy ''c'' [''delete''] ''high'' of Inl _ \<Rightarrow> False | Inr d \<Rightarrow> \<not> decision_allowed d)"
    by code_simp
  then show ?thesis by (simp split: sum.splits)
qed

definition demo_operation :: "string \<Rightarrow> operation" where
  "demo_operation s =
     \<lparr>op_id = s, op_kind = ReadKind, op_input_schema = JObj [], op_output_schema = JObj [],
      http_contract =
        \<lparr>http_method = GET, http_path = ''/x'', path_parameters = [], query_parameters = [], http_request = None,
         http_success = \<lparr>statuses = [200], success_body = BodyJson\<rparr>, http_scopes = [s], timeout_seconds = 5,
         max_response_bytes = 1000,
         http_safety = \<lparr>effect_of = Read, risk_of = Low, reversibility_of = Reversible, retry_of = RetryNever,
           idempotency_of = IdemUnsupported, concurrency_of = ConcNotSupported\<rparr>,
         unsafe_read_evidence = None\<rparr>,
      context_bindings = [], op_evidence = []\<rparr>"

definition demo_operations :: operations where
  "demo_operations = [(''a'', demo_operation ''a''), (''b'', demo_operation ''b'')]"

text \<open>Calls \<open>a\<close>, then \<open>b\<close> on one side of a branch.\<close>

definition demo_read :: capability where
  "demo_read =
     \<lparr>cap_id = ''report'', cap_title = ''Report'', cap_input_schema = JObj [], cap_output_schema = JObj [], cap_policy = ''p'',
      cap_body = ReadBody [CallStep None ''a'' [],
                           BranchStep None (CondRef ''$.input.x'') [CallStep None ''b'' []] []]\<rparr>"

lemma demo_analysis:
  "\<exists>r. analyze_capability demo_read [''p''] demo_operations = Inr r \<and> always_required r = {''a'', ''p''} \<and>
     dim_status (dimension_of r (Some {''a'', ''p''})) = Conditional"
proof -
  have "(case analyze_capability demo_read [''p''] demo_operations of Inl _ \<Rightarrow> False
     | Inr r \<Rightarrow> always_required r = {''a'', ''p''} \<and> dim_status (dimension_of r (Some {''a'', ''p''})) = Conditional)"
    by code_simp
  then show ?thesis by (simp split: sum.splits)
qed

lemma demo_context_made:
  "\<exists>c. make_principal_context ''alice'' (Some ''s1'') ''shop'' (Some [''admin'']) [''read''] None ''h''
      [(''admin'', [''read'', ''write''])] = Inr c"
proof -
  have "(case make_principal_context ''alice'' (Some ''s1'') ''shop'' (Some [''admin'']) [''read''] None ''h''
      [(''admin'', [''read'', ''write''])] of Inl _ \<Rightarrow> False | Inr c \<Rightarrow> True)" by code_simp
  then show ?thesis by (simp split: sum.splits)
qed

lemma demo_occurs_raw:
  "occurs (JObj [(''a'', JObj [(''b'', JInt 1), (''c'', JInt 2)]), (''d'', JInt 3)]) [''a'', ''b''] (JInt 1)"
  by (rule occurs.field [where w = "JObj [(''b'', JInt 1), (''c'', JInt 2)]"], simp,
      rule occurs.field [where w = "JInt 1"], simp, rule occurs.here)

lemma demo_occurs_out:
  "occurs (JObj [(''a'', JObj [(''b'', JInt 1)])]) [''a'', ''b''] (JInt 1)"
  by (rule occurs.field [where w = "JObj [(''b'', JInt 1)]"], simp,
      rule occurs.field [where w = "JInt 1"], simp, rule occurs.here)

end
