(* ===== verification/Executor.thy ===== *)
theory Executor
  imports Workflow
begin

text \<open>
  \<^verbatim>\<open>acc_runtime/execution/executor.py\<close>: the interpreter of compiled workflows. It reads the
  compiled IR as plain JSON, so steps, conditions and operands are \<open>json\<close> values here and every
  shape check of the code is a branch. An operation call and \<open>asyncio.gather\<close> are nodes of a
  process tree (\<open>proc\<close>); theory \<open>Execution\<close> interleaves them. The JSON Schema library is a
  pair of parameters. Details and messages of errors are not modelled, their codes are.
\<close>

section \<open>Errors\<close>

datatype exec_code =
    ExecInputInvalid | ExecOutputInvalid | ExecIrInvalid | ExecCapabilityNotFound
  | ExecFinalEmitRequired | ExecStepInvalid | ExecBoundExceeded | ExecOperationNotFound
  | ExecOperationInputInvalid | ExecOperationFailed | ExecOperationOutputInvalid
  | ExecReferenceInvalid | ExecReferenceUnavailable | ExecValueTypeInvalid | ExecAssertionFailed

text \<open>
  \<open>RuntimeRaised\<close> is an \<open>AccRuntimeError\<close> of the operation caller, which passes unchanged;
  \<open>ExecTypeError\<close> is Python's \<open>TypeError\<close> for an unhashable operator.
\<close>

datatype exec_error =
    ExecutionError exec_code
  | RuntimeRaised string
  | ExecTypeError
  | ExecCancelled

definition required_mapping :: "exec_code \<Rightarrow> json \<Rightarrow> exec_error + (string, json) dict" where
  "required_mapping code v = (case v of JObj fs \<Rightarrow> Inr fs | _ \<Rightarrow> Inl (ExecutionError code))"

definition required_list :: "exec_code \<Rightarrow> json \<Rightarrow> exec_error + json list" where
  "required_list code v = (case v of JArr xs \<Rightarrow> Inr xs | _ \<Rightarrow> Inl (ExecutionError code))"

lemma required_simps [simp]:
  "required_mapping code (JObj fs) = Inr fs" "required_list code (JArr xs) = Inr xs"
  by (simp_all add: required_mapping_def required_list_def)

fun is_field_name :: "json \<Rightarrow> bool" where
  "is_field_name (JStr s) = (s \<noteq> [])"
| "is_field_name _ = False"

fun string_of :: "json \<Rightarrow> string" where
  "string_of (JStr s) = s"
| "string_of _ = []"

definition required_string_list :: "json \<Rightarrow> exec_error + string list" where
  "required_string_list v =
     (case v of
        JArr xs \<Rightarrow> if xs \<noteq> [] \<and> list_all is_field_name xs then Inr (map string_of xs)
                   else Inl (ExecutionError ExecStepInvalid)
      | _ \<Rightarrow> Inl (ExecutionError ExecStepInvalid))"

text \<open>\<open>_copy_json\<close>\<close>

fun copy_json :: "exec_code \<Rightarrow> json \<Rightarrow> exec_error + json" where
  "copy_json code (JFloat f) = (if float_finite f then Inr (JFloat f) else Inl (ExecutionError code))"
| "copy_json code (JArr xs) = rbind (traverse (copy_json code) xs) (\<lambda>ys. Inr (JArr ys))"
| "copy_json code (JObj fs) =
     rbind (traverse (\<lambda>p. rbind (copy_json code (snd p)) (\<lambda>w. Inr (fst p, w))) fs) (\<lambda>gs. Inr (JObj gs))"
| "copy_json code v = Inr v"

section \<open>References\<close>

text \<open>\<open>_REFERENCE_PATTERN\<close>\<close>

datatype reference = InputRef "string list" | ItemRef "string list" | StepRef string "string list"

definition is_segment :: "string \<Rightarrow> bool" where
  "is_segment s = (case s of [] \<Rightarrow> False | c # r \<Rightarrow> ident_start c \<and> list_all is_urlsafe r)"

definition parse_reference :: "string \<Rightarrow> reference option" where
  "parse_reference s =
     (case split_on (CHR ''.'') s of
        r # base # path \<Rightarrow>
          if r \<noteq> ''$'' \<or> \<not> list_all is_segment path then None
          else if base = ''input'' then Some (InputRef path)
          else if base = ''item'' then Some (ItemRef path)
          else if base = ''steps'' then (case path of [] \<Rightarrow> None | st # rest \<Rightarrow> Some (StepRef st rest))
          else None
      | _ \<Rightarrow> None)"

text \<open>\<open>value.startswith("$") or "$." in value or "${" in value\<close>\<close>

definition looks_dynamic :: "string \<Rightarrow> bool" where
  "looks_dynamic s \<longleftrightarrow> prefix ''$'' s \<or> sublist ''$.'' s \<or> sublist ''${'' s"

record exec_context =
  ctx_input :: json
  ctx_steps :: "(string, json) dict"
  ctx_item :: "json option"

fun walk_path :: "json \<Rightarrow> string list \<Rightarrow> exec_error + json" where
  "walk_path v [] = Inr v"
| "walk_path v (s # ss) =
     (case jget v s of None \<Rightarrow> Inl (ExecutionError ExecReferenceUnavailable) | Some w \<Rightarrow> walk_path w ss)"

text \<open>\<open>_resolve_match\<close>\<close>

fun reference_root :: "exec_context \<Rightarrow> reference \<Rightarrow> json option" where
  "reference_root ctx (InputRef path) = Some (ctx_input ctx)"
| "reference_root ctx (ItemRef path) = ctx_item ctx"
| "reference_root ctx (StepRef st path) = dget (ctx_steps ctx) st"

fun reference_path :: "reference \<Rightarrow> string list" where
  "reference_path (InputRef path) = path"
| "reference_path (ItemRef path) = path"
| "reference_path (StepRef st path) = path"

definition resolve_match :: "exec_context \<Rightarrow> reference \<Rightarrow> exec_error + json" where
  "resolve_match ctx r =
     (case reference_root ctx r of
        None \<Rightarrow> Inl (ExecutionError ExecReferenceUnavailable)
      | Some v \<Rightarrow> rbind (walk_path v (reference_path r)) (copy_json ExecReferenceInvalid))"

text \<open>\<open>_resolve_value\<close>\<close>

fun resolve_value :: "exec_context \<Rightarrow> json \<Rightarrow> exec_error + json" where
  "resolve_value ctx (JStr s) =
     (case parse_reference s of
        Some r \<Rightarrow> resolve_match ctx r
      | None \<Rightarrow> if looks_dynamic s then Inl (ExecutionError ExecReferenceInvalid) else Inr (JStr s))"
| "resolve_value ctx (JArr xs) = rbind (traverse (resolve_value ctx) xs) (\<lambda>ys. Inr (JArr ys))"
| "resolve_value ctx (JObj fs) =
     rbind (traverse (\<lambda>p. rbind (resolve_value ctx (snd p)) (\<lambda>w. Inr (fst p, w))) fs) (\<lambda>gs. Inr (JObj gs))"
| "resolve_value ctx v = copy_json ExecStepInvalid v"

definition resolve_required_reference :: "exec_context \<Rightarrow> json \<Rightarrow> exec_error + json" where
  "resolve_required_reference ctx v =
     (case v of
        JStr s \<Rightarrow> if parse_reference s = None then Inl (ExecutionError ExecReferenceInvalid)
                  else resolve_value ctx v
      | _ \<Rightarrow> Inl (ExecutionError ExecReferenceInvalid))"

section \<open>Conditions\<close>

text \<open>\<open>_resolve_condition_operand\<close>\<close>

definition resolve_condition_operand :: "exec_context \<Rightarrow> json \<Rightarrow> exec_error + json" where
  "resolve_condition_operand ctx raw =
     rbind (required_mapping ExecStepInvalid raw) (\<lambda>operand.
     if set (dkeys operand) \<noteq> {''kind'', ''value''} then Inl (ExecutionError ExecStepInvalid)
     else if get_or_null operand ''kind'' = JStr ''reference''
     then resolve_required_reference ctx (get_or_null operand ''value'')
     else if get_or_null operand ''kind'' = JStr ''literal''
     then copy_json ExecStepInvalid (get_or_null operand ''value'')
     else Inl (ExecutionError ExecStepInvalid))"

definition compare_operands :: "exec_context \<Rightarrow> string \<Rightarrow> (string, json) dict \<Rightarrow> exec_error + bool" where
  "compare_operands ctx operator condition =
     (let (left_key, right_key) = (if operator = ''eq'' then (''left'', ''right'') else (''item'', ''values''))
      in if set (dkeys condition) \<noteq> {''operator'', left_key, right_key}
         then Inl (ExecutionError ExecStepInvalid)
         else
           rbind (resolve_condition_operand ctx (get_or_null condition left_key)) (\<lambda>l.
           rbind (resolve_condition_operand ctx (get_or_null condition right_key)) (\<lambda>r.
           if operator = ''eq'' then Inr (json_equal l r)
           else (case r of JArr xs \<Rightarrow> Inr (list_ex (json_equal l) xs)
                 | _ \<Rightarrow> Inl (ExecutionError ExecStepInvalid)))))"

text \<open>
  \<open>_evaluate_condition\<close>: the one-element list \<open>budget\<close> is threaded as an integer. The children
  of \<open>all\<close> and \<open>any\<close> are all evaluated. An operator that is an array or an object is unhashable.
\<close>

function (sequential) evaluate_condition :: "exec_context \<Rightarrow> json \<Rightarrow> nat \<Rightarrow> int \<Rightarrow> exec_error + bool \<times> int"
  and evaluate_conditions :: "exec_context \<Rightarrow> json list \<Rightarrow> nat \<Rightarrow> int \<Rightarrow> exec_error + bool list \<times> int" where
  "evaluate_condition ctx (JStr s) depth remaining =
     rbind (resolve_required_reference ctx (JStr s)) (\<lambda>v. Inr (truthy v, remaining))"
| "evaluate_condition ctx (JObj condition) depth remaining =
     (if 16 < depth \<or> remaining - 1 < 0 then Inl (ExecutionError ExecBoundExceeded)
      else
        (case get_or_null condition ''operator'' of
           JStr operator \<Rightarrow>
             if operator = ''eq'' \<or> operator = ''in''
             then rbind (compare_operands ctx operator condition) (\<lambda>b. Inr (b, remaining - 1))
             else if operator = ''all'' \<or> operator = ''any''
             then
               if set (dkeys condition) \<noteq> {''operator'', ''conditions''} then Inl (ExecutionError ExecStepInvalid)
               else
                 (case dget condition ''conditions'' of
                    Some (JArr children) \<Rightarrow>
                      if \<not> (1 \<le> length children \<and> length children \<le> 16)
                      then Inl (ExecutionError ExecBoundExceeded)
                      else
                        rbind (evaluate_conditions ctx children (Suc depth) (remaining - 1)) (\<lambda>(results, left).
                        Inr (if operator = ''all'' then list_all (\<lambda>b. b) results
                             else list_ex (\<lambda>b. b) results, left))
                  | _ \<Rightarrow> Inl (ExecutionError ExecStepInvalid))
             else if operator = ''not''
             then
               if set (dkeys condition) \<noteq> {''operator'', ''condition''} then Inl (ExecutionError ExecStepInvalid)
               else
                 (case dget condition ''condition'' of
                    Some child \<Rightarrow>
                      rbind (evaluate_condition ctx child (Suc depth) (remaining - 1)) (\<lambda>(b, left).
                      Inr (\<not> b, left))
                  | None \<Rightarrow> Inl (ExecutionError ExecStepInvalid))
             else Inl (ExecutionError ExecStepInvalid)
         | JArr _ \<Rightarrow> Inl ExecTypeError
         | JObj _ \<Rightarrow> Inl ExecTypeError
         | _ \<Rightarrow> Inl (ExecutionError ExecStepInvalid)))"
| "evaluate_condition ctx raw depth remaining =
     Inl (ExecutionError (if 16 < depth \<or> remaining - 1 < 0 then ExecBoundExceeded else ExecStepInvalid))"
| "evaluate_conditions ctx [] depth remaining = Inr ([], remaining)"
| "evaluate_conditions ctx (c # cs) depth remaining =
     rbind (evaluate_condition ctx c depth remaining) (\<lambda>(b, left).
     rbind (evaluate_conditions ctx cs depth left) (\<lambda>(bs, left').
     Inr (b # bs, left')))"
  by pat_completeness auto
termination
  by (relation "measure (case_sum (\<lambda>(ctx, raw, d, n). size raw) (\<lambda>(ctx, cs, d, n). size_list size cs))",
      rule wf_measure, simp_all only: in_measure sum.case split_conv)
    (erule json_size_list_field json_size_field | simp)+

declare evaluate_condition.simps [simp del]

section \<open>Steps without calls\<close>

text \<open>\<open>_bounded_items\<close>\<close>

definition bounded_items :: "json \<Rightarrow> json \<Rightarrow> exec_error + json list" where
  "bounded_items v raw_limit =
     (case raw_limit of
        JInt limit \<Rightarrow>
          if \<not> (1 \<le> limit \<and> limit \<le> 100) then Inl (ExecutionError ExecBoundExceeded)
          else
            (case v of
               JArr xs \<Rightarrow> if limit < int (length xs) then Inl (ExecutionError ExecBoundExceeded) else Inr xs
             | _ \<Rightarrow> Inl (ExecutionError ExecValueTypeInvalid))
      | _ \<Rightarrow> Inl (ExecutionError ExecStepInvalid))"

text \<open>\<open>context.isolated(item=item)\<close>; the deep copy of the steps is the same value.\<close>

definition isolated :: "exec_context \<Rightarrow> json \<Rightarrow> exec_context" where
  "isolated ctx item = ctx\<lparr>ctx_item := Some item\<rparr>"

definition pick_step :: "exec_context \<Rightarrow> json \<Rightarrow> exec_error + json" where
  "pick_step ctx raw =
     rbind (required_mapping ExecStepInvalid raw) (\<lambda>action.
     rbind (resolve_value ctx (get_or_null action ''value'')) (\<lambda>v.
     rbind (required_mapping ExecValueTypeInvalid v) (\<lambda>source.
     rbind (required_string_list (get_or_null action ''fields'')) (\<lambda>fields.
     Inr (JObj (foldl (\<lambda>d f. case dget source f of None \<Rightarrow> d | Some w \<Rightarrow> dset d f w) [] fields))))))"

definition redact_step :: "exec_context \<Rightarrow> json \<Rightarrow> exec_error + json" where
  "redact_step ctx raw =
     rbind (required_mapping ExecStepInvalid raw) (\<lambda>action.
     rbind (resolve_value ctx (get_or_null action ''value'')) (\<lambda>v.
     rbind (required_mapping ExecValueTypeInvalid v) (\<lambda>source.
     rbind (required_string_list (get_or_null action ''fields'')) (\<lambda>fields.
     Inr (JObj (filter (\<lambda>p. fst p \<notin> set fields) source))))))"

definition collection_of :: "exec_context \<Rightarrow> (string, json) dict \<Rightarrow> exec_error + json list" where
  "collection_of ctx action =
     rbind (resolve_value ctx (get_or_null action ''items'')) (\<lambda>items.
     bounded_items items (get_or_null action ''max_items''))"

definition map_step :: "exec_context \<Rightarrow> json \<Rightarrow> exec_error + json" where
  "map_step ctx raw =
     rbind (required_mapping ExecStepInvalid raw) (\<lambda>action.
     rbind (collection_of ctx action) (\<lambda>items.
     rbind (traverse (\<lambda>item. resolve_required_reference (isolated ctx item) (get_or_null action ''expression'')) items)
       (\<lambda>ys. Inr (JArr ys))))"

definition filter_step :: "exec_context \<Rightarrow> json \<Rightarrow> exec_error + json" where
  "filter_step ctx raw =
     rbind (required_mapping ExecStepInvalid raw) (\<lambda>action.
     rbind (collection_of ctx action) (\<lambda>items.
     rbind (traverse (\<lambda>item. rbind (resolve_required_reference (isolated ctx item) (get_or_null action ''condition''))
                (\<lambda>c. Inr (if truthy c then [item] else []))) items)
       (\<lambda>kept. Inr (JArr (concat kept)))))"

definition assert_step :: "exec_context \<Rightarrow> json \<Rightarrow> exec_error + json" where
  "assert_step ctx raw =
     rbind (required_mapping ExecStepInvalid raw) (\<lambda>action.
     rbind (resolve_required_reference ctx (get_or_null action ''condition'')) (\<lambda>c.
     if truthy c then Inr JNull else Inl (ExecutionError ExecAssertionFailed)))"

definition emit_step :: "exec_context \<Rightarrow> json \<Rightarrow> exec_error + json" where
  "emit_step ctx raw =
     rbind (required_mapping ExecStepInvalid raw) (\<lambda>action. resolve_value ctx (get_or_null action ''value''))"

section \<open>Processes\<close>

text \<open>
  A running workflow: finished, waiting for the operation caller, or waiting for the tasks that
  \<open>asyncio.gather\<close> started. The first component of \<open>Calls\<close> is the identifier under which the
  operation was looked up. No handler of the code catches an error of a gather, so only its list of
  results has a continuation.
\<close>

datatype call_reply = Replied json | RaisedRuntime string | RaisedException | CallCancelled

datatype proc =
    Finished "exec_error + json"
  | Calls string "(string, json) dict" json "call_reply \<Rightarrow> proc"
  | Gather "proc list" "json list \<Rightarrow> proc"

primrec pbind :: "proc \<Rightarrow> (json \<Rightarrow> proc) \<Rightarrow> proc" where
  "pbind (Finished r) f = (case r of Inl e \<Rightarrow> Finished (Inl e) | Inr v \<Rightarrow> f v)"
| "pbind (Calls oid op args k) f = Calls oid op args (\<lambda>r. pbind (k r) f)"
| "pbind (Gather ps k) f = Gather ps (\<lambda>vs. pbind (k vs) f)"

definition plift :: "exec_error + 'a \<Rightarrow> ('a \<Rightarrow> proc) \<Rightarrow> proc" where
  "plift r f = (case r of Inl e \<Rightarrow> Finished (Inl e) | Inr x \<Rightarrow> f x)"

lemma plift_simps [simp]: "plift (Inl e) f = Finished (Inl e)" "plift (Inr x) f = f x"
  by (simp_all add: plift_def)

text \<open>
  The JSON Schema library and the two switches of \<open>WorkflowExecutor\<close>: \<open>check_schema\<close> accepts a
  schema, \<open>instance_ok\<close> says that a value has no validation error.
\<close>

record exec_env =
  check_schema :: "(string, json) dict \<Rightarrow> bool"
  instance_ok :: "(string, json) dict \<Rightarrow> json \<Rightarrow> bool"
  validates_output :: bool
  validates_operation_input :: bool

definition validate_schema :: "exec_env \<Rightarrow> exec_code \<Rightarrow> json \<Rightarrow> json \<Rightarrow> exec_error + unit" where
  "validate_schema env code raw_schema v =
     rbind (required_mapping ExecIrInvalid raw_schema) (\<lambda>schema.
     if \<not> check_schema env schema then Inl (ExecutionError ExecIrInvalid)
     else if \<not> instance_ok env schema v then Inl (ExecutionError code)
     else Inr ())"

section \<open>Operation calls\<close>

definition call_result :: "exec_env \<Rightarrow> (string, json) dict \<Rightarrow> call_reply \<Rightarrow> exec_error + json" where
  "call_result env op r =
     (case r of
        RaisedRuntime e \<Rightarrow> Inl (RuntimeRaised e)
      | RaisedException \<Rightarrow> Inl (ExecutionError ExecOperationFailed)
      | CallCancelled \<Rightarrow> Inl ExecCancelled
      | Replied raw \<Rightarrow>
          rbind (copy_json ExecOperationOutputInvalid raw) (\<lambda>v.
          rbind (validate_schema env ExecOperationOutputInvalid (get_or_null op ''output_schema'') v)
            (\<lambda>_. Inr v)))"

text \<open>What \<open>_call\<close> computes before it awaits: the operation and the checked arguments.\<close>

definition check_arguments ::
    "exec_env \<Rightarrow> (string, json) dict \<Rightarrow> exec_context \<Rightarrow> (string, json) dict \<Rightarrow> exec_error + json" where
  "check_arguments env op ctx action =
     rbind (resolve_value ctx (get_or_null action ''arguments'')) (\<lambda>raw_arguments.
     rbind (required_mapping ExecOperationInputInvalid raw_arguments) (\<lambda>arguments.
     rbind (copy_json ExecOperationInputInvalid (JObj arguments)) (\<lambda>safe.
     rbind (if validates_operation_input env
            then validate_schema env ExecOperationInputInvalid (get_or_null op ''input_schema'') safe
            else Inr ()) (\<lambda>_. Inr safe))))"

definition operation_id_of :: "(string, json) dict \<Rightarrow> exec_error + string" where
  "operation_id_of action =
     (case get_or_null action ''operation'' of
        JStr oid \<Rightarrow> if oid = [] then Inl (ExecutionError ExecStepInvalid) else Inr oid
      | _ \<Rightarrow> Inl (ExecutionError ExecStepInvalid))"

definition prepare_call ::
    "exec_env \<Rightarrow> (string, json) dict \<Rightarrow> exec_context \<Rightarrow> json \<Rightarrow> exec_error + string \<times> (string, json) dict \<times> json" where
  "prepare_call env operations ctx raw =
     rbind (required_mapping ExecStepInvalid raw) (\<lambda>action.
     rbind (operation_id_of action) (\<lambda>oid.
     rbind (required_mapping ExecOperationNotFound (get_or_null operations oid)) (\<lambda>op.
     rbind (check_arguments env op ctx action) (\<lambda>safe.
     Inr (oid, op, safe)))))"

definition call_step :: "exec_env \<Rightarrow> (string, json) dict \<Rightarrow> exec_context \<Rightarrow> json \<Rightarrow> proc" where
  "call_step env operations ctx raw =
     plift (prepare_call env operations ctx raw) (\<lambda>(oid, op, safe).
       Calls oid op safe (\<lambda>r. Finished (call_result env op r)))"

section \<open>Workflows\<close>

definition known_actions :: "string list" where
  "known_actions = [''call'', ''pick'', ''map'', ''filter'', ''assert'', ''redact'', ''branch'', ''parallel'',
                    ''foreach'', ''emit'']"

text \<open>\<open>context.steps[step_id] = result\<close> when the step has an identifier\<close>

definition keep_result :: "json \<Rightarrow> exec_context \<Rightarrow> json \<Rightarrow> exec_context" where
  "keep_result sid ctx v =
     (case sid of JStr i \<Rightarrow> ctx\<lparr>ctx_steps := dset (ctx_steps ctx) i v\<rparr> | _ \<Rightarrow> ctx)"

fun is_step_id :: "json \<Rightarrow> bool" where
  "is_step_id JNull = True"
| "is_step_id (JStr _) = True"
| "is_step_id _ = False"

fun step_fields :: "json \<Rightarrow> (string, json) dict option" where
  "step_fields (JObj fs) = Some fs"
| "step_fields _ = None"

lemma step_fields_Some [simp]: "step_fields raw = Some fs \<longleftrightarrow> raw = JObj fs"
  by (cases raw) auto

lemma step_fields_size: "step_fields raw = Some fs \<Longrightarrow> size (JObj fs) < size_list size (raw # rest)"
  by simp

text \<open>\<open>_run_workflow\<close> and \<open>_run_step\<close>\<close>

function run_workflow ::
    "exec_env \<Rightarrow> (string, json) dict \<Rightarrow> exec_context \<Rightarrow> json list \<Rightarrow> json \<Rightarrow> proc"
  and run_step :: "exec_env \<Rightarrow> (string, json) dict \<Rightarrow> exec_context \<Rightarrow> (string, json) dict \<Rightarrow> proc" where
  "run_workflow env operations ctx [] result = Finished (Inr result)"
| "run_workflow env operations ctx (raw # rest) result =
     (case step_fields raw of
        None \<Rightarrow> Finished (Inl (ExecutionError ExecStepInvalid))
      | Some step \<Rightarrow>
          if \<not> is_step_id (get_or_null step ''id'') then Finished (Inl (ExecutionError ExecStepInvalid))
          else pbind (run_step env operations ctx step) (\<lambda>v.
            run_workflow env operations (keep_result (get_or_null step ''id'') ctx v) rest v))"
| "run_step env operations ctx step =
     (case filter (\<lambda>a. dget step a \<noteq> None) known_actions of
        [a] \<Rightarrow>
          (case dget step a of
             None \<Rightarrow> Finished (Inl (ExecutionError ExecStepInvalid))
           | Some action \<Rightarrow>
               if a = ''call'' then call_step env operations ctx action
               else if a = ''pick'' then Finished (pick_step ctx action)
               else if a = ''map'' then Finished (map_step ctx action)
               else if a = ''filter'' then Finished (filter_step ctx action)
               else if a = ''assert'' then Finished (assert_step ctx action)
               else if a = ''redact'' then Finished (redact_step ctx action)
               else if a = ''branch''
               then
                 (case action of
                    JObj branch \<Rightarrow>
                      plift (evaluate_condition ctx (get_or_null branch ''condition'') 1 64) (\<lambda>(holds, _).
                      (case dget branch (if holds then ''then'' else ''else'') of
                         Some (JArr workflow) \<Rightarrow> run_workflow env operations ctx workflow JNull
                       | _ \<Rightarrow> Finished (Inl (ExecutionError ExecStepInvalid))))
                  | _ \<Rightarrow> Finished (Inl (ExecutionError ExecStepInvalid)))
               else if a = ''parallel''
               then
                 (case action of
                    JArr children \<Rightarrow>
                      if \<not> (1 \<le> length children \<and> length children \<le> 8)
                      then Finished (Inl (ExecutionError ExecBoundExceeded))
                      else Gather (map (\<lambda>child. run_workflow env operations ctx [child] JNull) children)
                             (\<lambda>vs. Finished (Inr (JArr vs)))
                  | _ \<Rightarrow> Finished (Inl (ExecutionError ExecStepInvalid)))
               else if a = ''foreach''
               then
                 (case action of
                    JObj foreach \<Rightarrow>
                      plift (collection_of ctx foreach) (\<lambda>items.
                      (case dget foreach ''workflow'' of
                         Some (JArr workflow) \<Rightarrow>
                           Gather (map (\<lambda>item. run_workflow env operations (isolated ctx item) workflow JNull) items)
                             (\<lambda>vs. Finished (Inr (JArr vs)))
                       | _ \<Rightarrow> Finished (Inl (ExecutionError ExecStepInvalid))))
                  | _ \<Rightarrow> Finished (Inl (ExecutionError ExecStepInvalid)))
               else Finished (emit_step ctx action))
      | _ \<Rightarrow> Finished (Inl (ExecutionError ExecStepInvalid)))"
  by pat_completeness auto
termination
  apply (relation "measure (case_sum (\<lambda>(env, operations, ctx, ws, r). size_list size ws)
      (\<lambda>(env, operations, ctx, step). size (JObj step)))")
  apply (rule wf_measure)
  apply (simp_all only: in_measure sum.case split_conv)
  apply (erule step_fields_size | erule (1) json_size_nested_list | erule (1) json_size_child | simp)+
  done

declare run_step.simps [simp del]

section \<open>Capabilities\<close>

definition capability_definition :: "(string, json) dict \<Rightarrow> string \<Rightarrow> exec_error + (string, json) dict" where
  "capability_definition ir cid =
     rbind (required_mapping ExecIrInvalid (get_or_null ir ''capabilities'')) (\<lambda>capabilities.
     rbind (required_mapping ExecCapabilityNotFound (get_or_null capabilities cid)) (\<lambda>compiled.
     required_mapping ExecIrInvalid (get_or_null compiled ''definition'')))"

definition ends_with_emit :: "json list \<Rightarrow> bool" where
  "ends_with_emit workflow \<longleftrightarrow>
     workflow \<noteq> [] \<and> (case last workflow of JObj step \<Rightarrow> dget step ''emit'' \<noteq> None | _ \<Rightarrow> False)"

text \<open>What \<open>execute\<close> checks before the workflow runs: the input, the capability, its workflow and the operations.\<close>

definition prepare_execution ::
    "exec_env \<Rightarrow> (string, json) dict \<Rightarrow> string \<Rightarrow> json \<Rightarrow>
     exec_error + json \<times> (string, json) dict \<times> json list \<times> (string, json) dict" where
  "prepare_execution env ir cid input =
     rbind (copy_json ExecInputInvalid input) (\<lambda>safe.
     rbind (capability_definition ir cid) (\<lambda>capability.
     rbind (validate_schema env ExecInputInvalid (get_or_null capability ''input_schema'') safe) (\<lambda>_.
     rbind (required_list ExecIrInvalid (get_or_null capability ''workflow'')) (\<lambda>workflow.
     if \<not> ends_with_emit workflow then Inl (ExecutionError ExecFinalEmitRequired)
     else
       rbind (required_mapping ExecIrInvalid (get_or_null ir ''operations'')) (\<lambda>operations.
       Inr (safe, capability, workflow, operations))))))"

definition checked_output :: "exec_env \<Rightarrow> (string, json) dict \<Rightarrow> json \<Rightarrow> exec_error + json" where
  "checked_output env capability result =
     rbind (copy_json ExecOutputInvalid result) (\<lambda>safe.
     rbind (if validates_output env
            then validate_schema env ExecOutputInvalid (get_or_null capability ''output_schema'') safe
            else Inr ()) (\<lambda>_. Inr safe))"

definition execute :: "exec_env \<Rightarrow> (string, json) dict \<Rightarrow> string \<Rightarrow> json \<Rightarrow> proc" where
  "execute env ir cid input =
     plift (prepare_execution env ir cid input) (\<lambda>(safe, capability, workflow, operations).
     pbind (run_workflow env operations \<lparr>ctx_input = safe, ctx_steps = [], ctx_item = None\<rparr> workflow JNull)
       (\<lambda>result. Finished (checked_output env capability result)))"

section \<open>Basic facts\<close>

lemma copy_json_eq: "copy_json code v = (if json_finite v then Inr v else Inl (ExecutionError code))"
proof (induction v)
  case (JArr xs)
  have "traverse (copy_json code) xs = (if \<forall>x \<in> set xs. json_finite x then Inr xs else Inl (ExecutionError code))"
    using JArr by (induction xs) auto
  then show ?case by simp
next
  case (JObj fs)
  have "traverse (\<lambda>p. rbind (copy_json code (snd p)) (\<lambda>w. Inr (fst p, w))) fs
      = (if \<forall>p \<in> set fs. json_finite (snd p) then Inr fs else Inl (ExecutionError code))"
    using JObj by (induction fs) (auto simp: snds.simps)
  then show ?case by simp
qed auto

lemma validate_schema_Inr [simp]:
  "validate_schema env code raw v = Inr u \<longleftrightarrow>
     (\<exists>schema. raw = JObj schema \<and> check_schema env schema \<and> instance_ok env schema v)"
  by (auto simp: validate_schema_def required_mapping_def split: json.splits if_splits)

lemma required_mapping_Inr [simp]: "required_mapping code v = Inr fs \<longleftrightarrow> v = JObj fs"
  by (auto simp: required_mapping_def split: json.splits)

text \<open>What every call that the executor makes satisfies.\<close>

definition call_checked :: "exec_env \<Rightarrow> (string, json) dict \<Rightarrow> string \<Rightarrow> (string, json) dict \<Rightarrow> json \<Rightarrow> bool" where
  "call_checked env operations oid op args \<longleftrightarrow>
     oid \<noteq> [] \<and> dget operations oid = Some (JObj op) \<and> is_JObj args \<and> json_finite args \<and>
     (validates_operation_input env \<longrightarrow>
        (\<exists>schema. dget op ''input_schema'' = Some (JObj schema) \<and> check_schema env schema \<and> instance_ok env schema args))"

lemma get_or_null_JObj [simp]: "get_or_null fs k = JObj gs \<longleftrightarrow> dget fs k = Some (JObj gs)"
  by (auto simp: get_or_null_def split: option.splits)

lemma operation_id_of_Inr: "operation_id_of action = Inr oid \<Longrightarrow> oid \<noteq> [] \<and> dget action ''operation'' = Some (JStr oid)"
  by (auto simp: operation_id_of_def get_or_null_def split: json.splits if_splits option.splits)

lemma check_arguments_Inr:
  assumes "check_arguments env op ctx action = Inr args"
  shows "is_JObj args" "json_finite args"
    "validates_operation_input env \<Longrightarrow>
       \<exists>schema. dget op ''input_schema'' = Some (JObj schema) \<and> check_schema env schema \<and> instance_ok env schema args"
proof -
  from assms obtain fs where args: "args = JObj fs" "json_finite args"
    and v: "validates_operation_input env \<longrightarrow>
      validate_schema env ExecOperationInputInvalid (get_or_null op ''input_schema'') args = Inr ()"
    unfolding check_arguments_def rbind_Inr_iff
    by (force simp: copy_json_eq simp del: validate_schema_Inr split: if_splits)
  then show "is_JObj args" "json_finite args" by simp_all
  show "\<exists>schema. dget op ''input_schema'' = Some (JObj schema) \<and> check_schema env schema \<and> instance_ok env schema args"
    if "validates_operation_input env"
    using v that by simp
qed

lemma prepare_call_Inr:
  assumes "prepare_call env operations ctx raw = Inr (oid, op, args)"
  shows "call_checked env operations oid op args"
proof -
  from assms obtain action where "operation_id_of action = Inr oid" "dget operations oid = Some (JObj op)"
    "check_arguments env op ctx action = Inr args"
    by (auto simp: prepare_call_def rbind_Inr_iff)
  with check_arguments_Inr [OF this(3)] operation_id_of_Inr [OF this(1)] show ?thesis
    by (simp add: call_checked_def)
qed

section \<open>Values and results\<close>

lemma walk_path_cases: "walk_path v ss = Inr w \<Longrightarrow> json_finite v \<Longrightarrow> json_finite w"
proof (induction v ss rule: walk_path.induct)
  case (2 v s ss)
  then show ?case by (cases v) (auto split: option.splits dest!: dget_in_set)
qed simp

lemma resolve_match_finite: "resolve_match ctx r = Inr v \<Longrightarrow> json_finite v"
  by (auto simp: resolve_match_def rbind_Inr_iff copy_json_eq split: option.splits if_splits)

lemma traverse_finite:
  "traverse f xs = Inr ys \<Longrightarrow> (\<And>x y. x \<in> set xs \<Longrightarrow> f x = Inr y \<Longrightarrow> P y) \<Longrightarrow> y \<in> set ys \<Longrightarrow> P y"
  by (auto simp: traverse_Inr_iff dest: list_all2_right)

lemma resolve_value_finite: "resolve_value ctx v = Inr w \<Longrightarrow> json_finite w"
proof (induction v arbitrary: w)
  case (JArr xs)
  then obtain ys where w: "w = JArr ys" "traverse (resolve_value ctx) xs = Inr ys" by (auto simp: rbind_Inr_iff)
  show ?case using traverse_finite [OF w(2), where P = json_finite] JArr.IH w(1) by auto
next
  case (JObj fs)
  then obtain gs where w: "w = JObj gs"
    "traverse (\<lambda>p. rbind (resolve_value ctx (snd p)) (\<lambda>w. Inr (fst p, w))) fs = Inr gs"
    by (auto simp: rbind_Inr_iff)
  have "json_finite (snd q)" if "q \<in> set gs" for q
    by (rule traverse_finite [OF w(2) _ that]) (use JObj.IH in \<open>fastforce simp: rbind_Inr_iff\<close>)
  with w(1) show ?case by simp
next
  case (JStr s)
  then show ?case by (auto split: option.splits if_splits dest: resolve_match_finite)
qed (auto simp: copy_json_eq split: if_splits)

lemma required_reference_finite: "resolve_required_reference ctx v = Inr w \<Longrightarrow> json_finite w"
  by (auto simp: resolve_required_reference_def dest: resolve_value_finite split: json.splits if_splits simp del: resolve_value.simps)

lemma bounded_items_Inr:
  "bounded_items v limit = Inr xs \<longleftrightarrow> v = JArr xs \<and> (\<exists>n. limit = JInt n \<and> int (length xs) \<le> n \<and> 1 \<le> n \<and> n \<le> 100)"
  by (auto simp: bounded_items_def split: json.splits if_splits)

lemma collection_of_Inr:
  "collection_of ctx action = Inr xs \<longleftrightarrow> resolve_value ctx (get_or_null action ''items'') = Inr (JArr xs) \<and>
     (\<exists>n. get_or_null action ''max_items'' = JInt n \<and> int (length xs) \<le> n \<and> 1 \<le> n \<and> n \<le> 100)"
  by (auto simp: collection_of_def bounded_items_Inr rbind_Inr_iff)

lemma collection_of_finite: "collection_of ctx action = Inr xs \<Longrightarrow> x \<in> set xs \<Longrightarrow> json_finite x"
  unfolding collection_of_Inr using resolve_value_finite by fastforce

lemma pick_fold_finite:
  "(\<And>p. p \<in> set source \<Longrightarrow> json_finite (snd p)) \<Longrightarrow> (\<And>p. p \<in> set d \<Longrightarrow> json_finite (snd p)) \<Longrightarrow>
   p \<in> set (foldl (\<lambda>d f. case dget source f of None \<Rightarrow> d | Some w \<Rightarrow> dset d f w) d names) \<Longrightarrow> json_finite (snd p)"
proof (induction names arbitrary: d)
  case (Cons f names)
  have "json_finite (snd q)" if "q \<in> set (case dget source f of None \<Rightarrow> d | Some w \<Rightarrow> dset d f w)" for q
  proof (cases "dget source f")
    case None
    with that Cons.prems(2) show ?thesis by simp
  next
    case (Some w)
    then have "json_finite w" using Cons.prems(1) dget_in_set by fastforce
    moreover have "q \<in> insert (f, w) (set d)" using that Some set_dset_subset by fastforce
    ultimately show ?thesis using Cons.prems(2) by (metis insertE snd_conv)
  qed
  from Cons.IH [OF Cons.prems(1) this] Cons.prems(3) show ?case by simp
qed simp

lemma pick_fold_obj:
  "json_finite (JObj source) \<Longrightarrow>
   json_finite (JObj (foldl (\<lambda>d f. case dget source f of None \<Rightarrow> d | Some w \<Rightarrow> dset d f w) [] names))"
  using pick_fold_finite [of source "[]" _ names] by auto

lemma step_results_finite:
  "pick_step ctx a = Inr v \<Longrightarrow> json_finite v" "redact_step ctx a = Inr v \<Longrightarrow> json_finite v"
  "map_step ctx a = Inr v \<Longrightarrow> json_finite v" "filter_step ctx a = Inr v \<Longrightarrow> json_finite v"
  "assert_step ctx a = Inr v \<Longrightarrow> json_finite v" "emit_step ctx a = Inr v \<Longrightarrow> json_finite v"
proof -
  show "json_finite v" if p: "pick_step ctx a = Inr v"
    using p unfolding pick_step_def
    by (elim rbind_InrE) (auto intro!: pick_fold_obj dest!: resolve_value_finite simp del: json_finite.simps)
  show "json_finite v" if "redact_step ctx a = Inr v"
    using that by (auto simp: redact_step_def rbind_Inr_iff dest!: resolve_value_finite)
  show "json_finite v" if m: "map_step ctx a = Inr v"
  proof -
    from m obtain action items ys where v: "v = JArr ys" and
      "traverse (\<lambda>item. resolve_required_reference (isolated ctx item) (get_or_null action ''expression'')) items = Inr ys"
      by (auto simp: map_step_def rbind_Inr_iff)
    from traverse_finite [OF this(2), of json_finite] v required_reference_finite show ?thesis by auto
  qed
  show "json_finite v" if f: "filter_step ctx a = Inr v"
  proof -
    from f obtain action items ys where v: "v = JArr (concat ys)" and c: "collection_of ctx action = Inr items" and
      t: "traverse (\<lambda>item. rbind (resolve_required_reference (isolated ctx item) (get_or_null action ''condition''))
          (\<lambda>c. Inr (if truthy c then [item] else []))) items = Inr ys"
      by (auto simp: filter_step_def rbind_Inr_iff)
    have "\<forall>x \<in> set y. json_finite x" if "y \<in> set ys" for y
      by (rule traverse_finite [OF t _ that]) (use collection_of_finite [OF c] in \<open>auto simp: rbind_Inr_iff split: if_splits\<close>)
    with v show ?thesis by auto
  qed
  show "json_finite v" if "assert_step ctx a = Inr v"
    using that by (auto simp: assert_step_def rbind_Inr_iff split: if_splits)
  show "json_finite v" if "emit_step ctx a = Inr v"
    using that by (auto simp: emit_step_def rbind_Inr_iff dest: resolve_value_finite)
qed

lemma call_result_finite: "call_result env op r = Inr v \<Longrightarrow> json_finite v"
  by (auto simp: call_result_def rbind_Inr_iff copy_json_eq split: call_reply.splits if_splits)

definition actions_in :: "(string, json) dict \<Rightarrow> string list" where
  "actions_in step = filter (\<lambda>a. dget step a \<noteq> None) known_actions"

text \<open>The steps that end where they start, and the other four.\<close>

definition pure_step :: "exec_context \<Rightarrow> string \<Rightarrow> json \<Rightarrow> exec_error + json" where
  "pure_step ctx a action =
     (if a = ''pick'' then pick_step ctx action else if a = ''map'' then map_step ctx action
      else if a = ''filter'' then filter_step ctx action else if a = ''assert'' then assert_step ctx action
      else if a = ''redact'' then redact_step ctx action else emit_step ctx action)"

lemma run_step_invalid:
  "(\<nexists>a. actions_in step = [a]) \<Longrightarrow> run_step env operations ctx step = Finished (Inl (ExecutionError ExecStepInvalid))"
  unfolding actions_in_def by (subst run_step.simps) (auto split: list.splits)

lemma run_step_action:
  assumes "actions_in step = [a]" "dget step a = Some action"
  shows "a \<notin> {''call'', ''branch'', ''parallel'', ''foreach''} \<Longrightarrow> run_step env operations ctx step = Finished (pure_step ctx a action)"
    "a = ''call'' \<Longrightarrow> run_step env operations ctx step = call_step env operations ctx action"
    "a = ''branch'' \<Longrightarrow> run_step env operations ctx step =
       plift (required_mapping ExecStepInvalid action) (\<lambda>branch.
       plift (evaluate_condition ctx (get_or_null branch ''condition'') 1 64) (\<lambda>(holds, _).
       plift (required_list ExecStepInvalid (get_or_null branch (if holds then ''then'' else ''else''))) (\<lambda>workflow.
         run_workflow env operations ctx workflow JNull)))"
    "a = ''parallel'' \<Longrightarrow> run_step env operations ctx step =
       plift (required_list ExecStepInvalid action) (\<lambda>children.
         if \<not> (1 \<le> length children \<and> length children \<le> 8) then Finished (Inl (ExecutionError ExecBoundExceeded))
         else Gather (map (\<lambda>child. run_workflow env operations ctx [child] JNull) children)
                (\<lambda>vs. Finished (Inr (JArr vs))))"
    "a = ''foreach'' \<Longrightarrow> run_step env operations ctx step =
       plift (required_mapping ExecStepInvalid action) (\<lambda>foreach.
       plift (collection_of ctx foreach) (\<lambda>items.
       plift (required_list ExecStepInvalid (get_or_null foreach ''workflow'')) (\<lambda>workflow.
         Gather (map (\<lambda>item. run_workflow env operations (isolated ctx item) workflow JNull) items)
           (\<lambda>vs. Finished (Inr (JArr vs))))))"
proof -
  show "run_step env operations ctx step = Finished (pure_step ctx a action)"
    if "a \<notin> {''call'', ''branch'', ''parallel'', ''foreach''}"
    using that assms [unfolded actions_in_def] by (subst run_step.simps) (simp add: pure_step_def)
  show "run_step env operations ctx step = call_step env operations ctx action" if "a = ''call''"
    using that assms [unfolded actions_in_def] by (subst run_step.simps) simp
  show "run_step env operations ctx step =
       plift (required_mapping ExecStepInvalid action) (\<lambda>branch.
       plift (evaluate_condition ctx (get_or_null branch ''condition'') 1 64) (\<lambda>(holds, _).
       plift (required_list ExecStepInvalid (get_or_null branch (if holds then ''then'' else ''else''))) (\<lambda>workflow.
         run_workflow env operations ctx workflow JNull)))" if "a = ''branch''"
  proof -
    have b: "(case dget branch k of Some (JArr workflow) \<Rightarrow> run_workflow env operations ctx workflow JNull
         | _ \<Rightarrow> Finished (Inl (ExecutionError ExecStepInvalid))) =
       plift (required_list ExecStepInvalid (get_or_null branch k)) (\<lambda>workflow.
         run_workflow env operations ctx workflow JNull)" for branch k
      by (auto simp: required_list_def get_or_null_def split: option.splits json.splits)
    show ?thesis using that assms [unfolded actions_in_def]
      by (subst run_step.simps) (cases action; simp add: required_mapping_def b)
  qed
  show "run_step env operations ctx step =
       plift (required_list ExecStepInvalid action) (\<lambda>children.
         if \<not> (1 \<le> length children \<and> length children \<le> 8) then Finished (Inl (ExecutionError ExecBoundExceeded))
         else Gather (map (\<lambda>child. run_workflow env operations ctx [child] JNull) children)
                (\<lambda>vs. Finished (Inr (JArr vs))))" if "a = ''parallel''"
    using that assms [unfolded actions_in_def]
    by (subst run_step.simps) (cases action; simp add: required_list_def)
  show "run_step env operations ctx step =
       plift (required_mapping ExecStepInvalid action) (\<lambda>foreach.
       plift (collection_of ctx foreach) (\<lambda>items.
       plift (required_list ExecStepInvalid (get_or_null foreach ''workflow'')) (\<lambda>workflow.
         Gather (map (\<lambda>item. run_workflow env operations (isolated ctx item) workflow JNull) items)
           (\<lambda>vs. Finished (Inr (JArr vs))))))" if "a = ''foreach''"
  proof -
    have b: "(case dget foreach k of Some (JArr workflow) \<Rightarrow>
           Gather (map (\<lambda>item. run_workflow env operations (isolated ctx item) workflow JNull) items)
             (\<lambda>vs. Finished (Inr (JArr vs)))
         | _ \<Rightarrow> Finished (Inl (ExecutionError ExecStepInvalid))) =
       plift (required_list ExecStepInvalid (get_or_null foreach k)) (\<lambda>workflow.
           Gather (map (\<lambda>item. run_workflow env operations (isolated ctx item) workflow JNull) items)
             (\<lambda>vs. Finished (Inr (JArr vs))))" for foreach k items
      by (auto simp: required_list_def get_or_null_def split: option.splits json.splits)
    show ?thesis using that assms [unfolded actions_in_def]
      by (subst run_step.simps) (cases action; simp add: required_mapping_def b)
  qed
qed

lemma required_list_Inr [simp]: "required_list code v = Inr xs \<longleftrightarrow> v = JArr xs"
  by (auto simp: required_list_def split: json.splits)

lemma get_or_null_JArr [simp]: "get_or_null fs k = JArr xs \<longleftrightarrow> dget fs k = Some (JArr xs)"
  by (auto simp: get_or_null_def split: option.splits)

text \<open>Induction over workflows and their steps, whatever the contexts are.\<close>

lemma workflow_induct [case_names Nil Cons step]:
  assumes "\<And>ctx v. P ctx [] v"
    and "\<And>ctx raw rest v. (\<And>s ctx. raw = JObj s \<Longrightarrow> Q ctx s) \<Longrightarrow> (\<And>ctx v. P ctx rest v) \<Longrightarrow> P ctx (raw # rest) v"
    and "\<And>ctx s. (\<And>gs k ws ctx v. dget s ''branch'' = Some (JObj gs) \<Longrightarrow> dget gs k = Some (JArr ws) \<Longrightarrow> P ctx ws v) \<Longrightarrow>
           (\<And>cs c ctx v. dget s ''parallel'' = Some (JArr cs) \<Longrightarrow> c \<in> set cs \<Longrightarrow> P ctx [c] v) \<Longrightarrow>
           (\<And>gs k ws ctx v. dget s ''foreach'' = Some (JObj gs) \<Longrightarrow> dget gs k = Some (JArr ws) \<Longrightarrow> P ctx ws v) \<Longrightarrow> Q ctx s"
  shows "P ctx ws v" "Q ctx s"
proof -
  have "(\<forall>(ws :: json list) ctx v. size_list size ws = n \<longrightarrow> P ctx ws v) \<and> (\<forall>s ctx. size (JObj s) = n \<longrightarrow> Q ctx s)" for n
  proof (induction n rule: less_induct)
    case (less n)
    have lt: "\<And>(ws :: json list) ctx v. size_list size ws < n \<Longrightarrow> P ctx ws v" "\<And>s ctx. size (JObj s) < n \<Longrightarrow> Q ctx s"
      using less by blast+
    show ?case
    proof (intro conjI allI impI)
      fix ws :: "json list" and ctx v assume n: "size_list size ws = n"
      show "P ctx ws v"
      proof (cases ws)
        case (Cons raw rest)
        show ?thesis unfolding Cons
          by (rule assms(2)) (rule lt; use n Cons in simp)+
      qed (use assms(1) in simp)
    next
      fix s ctx assume n: "size (JObj s) = n"
      show "Q ctx s"
        by (rule assms(3)) (rule lt(1); use n json_size_nested_list json_size_child in blast)+
    qed
  qed
  then show "P ctx ws v" "Q ctx s" by blast+
qed

end
