(* ===== verification/Execution.thy ===== *)
theory Execution
  imports Executor
begin

text \<open>
  The concurrency of the executor. \<open>pstep\<close> is one atomic move of a process tree between two
  awaits: a reply to a pending call, or a \<open>gather\<close> that has all its results or sees its first
  exception. As \<open>asyncio.gather\<close> documents, an exception does not cancel the siblings: they stay
  behind as tasks nobody awaits. \<open>exec_run\<close> is a sequence of moves of the awaited process and of
  those tasks, with the calls that were answered and the number of moves. The results: every schedule
  that succeeds has the result of the sequential evaluation, schedules cannot disagree, nothing is left
  behind by a success, and what \<open>safe\<close> and \<open>weighs\<close> say of a process holds along every run.
\<close>

section \<open>Moves\<close>

type_synonym call_event = "string \<times> (string, json) dict \<times> json \<times> call_reply"

fun is_finished :: "proc \<Rightarrow> bool" where
  "is_finished (Finished _) = True"
| "is_finished _ = False"

inductive pstep :: "proc \<Rightarrow> call_event list \<Rightarrow> proc \<Rightarrow> proc list \<Rightarrow> bool" where
  answer: "pstep (Calls oid op args k) [(oid, op, args, r)] (k r) []"
| inside: "i < length ps \<Longrightarrow> pstep (ps ! i) evs q orphans \<Longrightarrow> pstep (Gather ps k) evs (Gather (ps[i := q]) k) orphans"
| join: "pstep (Gather (map (\<lambda>v. Finished (Inr v)) vs) k) [] (k vs) []"
| abort: "Finished (Inl e) \<in> set ps \<Longrightarrow> pstep (Gather ps k) [] (Finished (Inl e)) (filter (\<lambda>p. \<not> is_finished p) ps)"

inductive_cases pstep_CallsE: "pstep (Calls oid op args k) evs q orphans"
inductive_cases pstep_GatherE: "pstep (Gather ps k) evs q orphans"
inductive_simps pstep_Finished [simp]: "pstep (Finished r) evs q orphans"

text \<open>A configuration is the process the caller awaits and the tasks nobody awaits.\<close>

inductive exec_step :: "proc \<times> proc list \<Rightarrow> call_event list \<Rightarrow> proc \<times> proc list \<Rightarrow> bool" where
  awaited: "pstep p evs q new \<Longrightarrow> exec_step (p, os) evs (q, os @ new)"
| orphan: "i < length os \<Longrightarrow> pstep (os ! i) evs q new \<Longrightarrow> exec_step (p, os) evs (p, os[i := q] @ new)"

inductive exec_run :: "proc \<times> proc list \<Rightarrow> call_event list \<Rightarrow> nat \<Rightarrow> proc \<times> proc list \<Rightarrow> bool" where
  stop: "exec_run c [] 0 c"
| move: "exec_step c evs c' \<Longrightarrow> exec_run c' evs' n c'' \<Longrightarrow> exec_run c (evs @ evs') (Suc n) c''"

section \<open>Properties of every run\<close>

text \<open>
  \<open>safe P E Q p\<close>: all calls satisfy \<open>P\<close>, all errors \<open>E\<close>, all results \<open>Q\<close>, given that every
  gather continues only with results its children may have.
\<close>

inductive safe :: "(string \<Rightarrow> (string, json) dict \<Rightarrow> json \<Rightarrow> bool) \<Rightarrow> (exec_error \<Rightarrow> bool) \<Rightarrow>
    (json \<Rightarrow> bool) \<Rightarrow> proc \<Rightarrow> bool" for P E where
  finished: "(\<And>e. r = Inl e \<Longrightarrow> E e) \<Longrightarrow> (\<And>v. r = Inr v \<Longrightarrow> Q v) \<Longrightarrow> safe P E Q (Finished r)"
| calls: "P oid op args \<Longrightarrow> (\<And>r. safe P E Q (k r)) \<Longrightarrow> safe P E Q (Calls oid op args k)"
| gather: "(\<And>p. p \<in> set ps \<Longrightarrow> safe P E R p) \<Longrightarrow> (\<And>vs. list_all R vs \<Longrightarrow> safe P E Q (k vs)) \<Longrightarrow>
    safe P E Q (Gather ps k)"

inductive_simps safe_Finished: "safe P E Q (Finished r)"
inductive_simps safe_Calls: "safe P E Q (Calls oid op args k)"
inductive_cases safe_GatherE: "safe P E Q (Gather ps k)"

lemma safe_mono: "safe P E Q p \<Longrightarrow> (\<And>v. Q v \<Longrightarrow> Q' v) \<Longrightarrow> safe P E Q' p"
proof (induction arbitrary: Q' rule: safe.induct)
  case (gather ps R Q k)
  show ?case by (rule safe.gather [where R = R]) (use gather in auto)
qed (auto intro: safe.intros)

lemma safe_plift:
  "(\<And>e. r = Inl e \<Longrightarrow> E e) \<Longrightarrow> (\<And>x. r = Inr x \<Longrightarrow> safe P E Q (f x)) \<Longrightarrow> safe P E Q (plift r f)"
  by (cases r) (auto intro: safe.finished)

lemma safe_pbind:
  "safe P E R p \<Longrightarrow> (\<And>v. R v \<Longrightarrow> safe P E Q (f v)) \<Longrightarrow> safe P E Q (pbind p f)"
proof (induction arbitrary: f rule: safe.induct)
  case (finished r Q')
  then show ?case by (cases r) (auto intro: safe.finished)
next
  case (gather ps R' Q' k)
  have "safe P E Q (Gather ps (\<lambda>vs. pbind (k vs) f))"
    by (rule safe.gather [where R = R']) (use gather in auto)
  then show ?case by simp
qed (auto intro: safe.calls)

lemma safe_step:
  "pstep p evs q new \<Longrightarrow> safe P E Q p \<Longrightarrow>
     safe P E Q q \<and> (\<forall>o1 \<in> set new. \<exists>R. safe P E R o1) \<and> (\<forall>(oid, op, args, r) \<in> set evs. P oid op args)"
proof (induction arbitrary: Q rule: pstep.induct)
  case (answer oid op args k r)
  then show ?case by (simp add: safe_Calls)
next
  case (inside i ps evs q new k)
  from inside.prems obtain R where R: "\<And>p. p \<in> set ps \<Longrightarrow> safe P E R p" "\<And>vs. list_all R vs \<Longrightarrow> safe P E Q (k vs)"
    by (rule safe_GatherE) blast
  from inside.hyps(1) R(1) have "safe P E R (ps ! i)" by simp
  from inside.IH [OF this] have IH: "safe P E R q" "\<forall>o1 \<in> set new. \<exists>R. safe P E R o1"
    "\<forall>(oid, op, args, r) \<in> set evs. P oid op args" by blast+
  have "safe P E R p" if "p \<in> set (ps[i := q])" for p
    using that R(1) IH(1) by (metis insert_iff set_update_subset_insert subsetD)
  then have "safe P E Q (Gather (ps[i := q]) k)" using R(2) by (rule safe.gather)
  with IH show ?case by blast
next
  case (join vs k)
  then obtain R where R: "\<And>p. p \<in> set (map (\<lambda>v. Finished (Inr v)) vs) \<Longrightarrow> safe P E R p"
    "\<And>vs. list_all R vs \<Longrightarrow> safe P E Q (k vs)" by (rule safe_GatherE) blast
  have "R v" if "v \<in> set vs" for v using R(1) [of "Finished (Inr v)"] that by (simp add: safe_Finished)
  then have "list_all R vs" by (simp add: list_all_iff)
  with R(2) show ?case by simp
next
  case (abort e ps k)
  then show ?case by (auto elim!: safe_GatherE simp: safe_Finished)
qed

definition config_safe where
  "config_safe P E Q c \<longleftrightarrow> safe P E Q (fst c) \<and> (\<forall>o1 \<in> set (snd c). \<exists>R. safe P E R o1)"

lemma safe_exec_step:
  assumes "exec_step c evs c'" "config_safe P E Q c"
  shows "config_safe P E Q c' \<and> (\<forall>(oid, op, args, r) \<in> set evs. P oid op args)"
  using assms
proof cases
  case (awaited p q new os)
  then show ?thesis using assms(2) safe_step [of p evs q new P E Q] by (auto simp: config_safe_def)
next
  case (orphan i os q new p)
  with assms(2) obtain R where "safe P E R (os ! i)" unfolding config_safe_def by (metis nth_mem snd_conv)
  from safe_step [OF orphan(4) this] have "safe P E R q" "\<forall>o1 \<in> set new. \<exists>R. safe P E R o1"
    "\<forall>(oid, op, args, r) \<in> set evs. P oid op args" by auto
  moreover from this(1) have "\<forall>o1 \<in> set (os[i := q]). \<exists>R. safe P E R o1"
    using assms(2) orphan(1) set_update_subset_insert [of os i q] by (auto simp: config_safe_def)
  ultimately show ?thesis using assms(2) orphan(1,2) by (auto simp: config_safe_def)
qed

lemma safe_exec_run:
  "exec_run c evs n c' \<Longrightarrow> config_safe P E Q c \<Longrightarrow>
     config_safe P E Q c' \<and> (\<forall>(oid, op, args, r) \<in> set evs. P oid op args)"
  by (induction rule: exec_run.induct) (use safe_exec_step in \<open>fastforce+\<close>)

section \<open>Sequential evaluation\<close>

text \<open>
  The reference semantics: calls are answered by a function and the children of a gather run one
  after the other, up to the first error.
\<close>

primrec evaluate_proc :: "(string \<Rightarrow> (string, json) dict \<Rightarrow> json \<Rightarrow> call_reply) \<Rightarrow> proc \<Rightarrow> exec_error + json" where
  "evaluate_proc f (Finished r) = r"
| "evaluate_proc f (Calls oid op args k) = evaluate_proc f (k (f oid op args))"
| "evaluate_proc f (Gather ps k) =
     rbind (traverse (\<lambda>r. r) (map (evaluate_proc f) ps)) (\<lambda>vs. evaluate_proc f (k vs))"

text \<open>
  \<open>succeeds R p T v\<close>: with replies allowed by \<open>R\<close>, process \<open>p\<close> can return \<open>v\<close> having called the
  operations \<open>T\<close>.
\<close>

inductive succeeds :: "(string \<Rightarrow> (string, json) dict \<Rightarrow> json \<Rightarrow> call_reply \<Rightarrow> bool) \<Rightarrow>
    proc \<Rightarrow> string set \<Rightarrow> json \<Rightarrow> bool" for R where
  returned: "succeeds R (Finished (Inr v)) {} v"
| call: "R oid op args r \<Longrightarrow> succeeds R (k r) T v \<Longrightarrow> succeeds R (Calls oid op args k) (insert oid T) v"
| gathered: "list_all2 (\<lambda>p tv. succeeds R p (fst tv) (snd tv)) ps tvs \<Longrightarrow> succeeds R (k (map snd tvs)) T v \<Longrightarrow>
    succeeds R (Gather ps k) (\<Union>(fst ` set tvs) \<union> T) v"
monos list_all2_mono

inductive_cases succeeds_FinishedE: "succeeds R (Finished r) T v"
inductive_cases succeeds_CallsE: "succeeds R (Calls oid op args k) T v"
inductive_cases succeeds_GatherE: "succeeds R (Gather ps k) T v"

definition answered where
  "answered R evs \<longleftrightarrow> (\<forall>(oid, op, args, r) \<in> set evs. R oid op args r)"

definition called :: "call_event list \<Rightarrow> string set" where
  "called evs = fst ` set evs"

lemma answered_simps [simp]:
  "answered R []" "answered R (e # evs) \<longleftrightarrow> (case e of (oid, op, args, r) \<Rightarrow> R oid op args r) \<and> answered R evs"
  "answered R (evs @ evs') \<longleftrightarrow> answered R evs \<and> answered R evs'"
  by (simp_all add: answered_def ball_Un)

lemma called_simps [simp]:
  "called [] = {}" "called (e # evs) = insert (fst e) (called evs)" "called (evs @ evs') = called evs \<union> called evs'"
  by (auto simp: called_def)

text \<open>A success after a move is a success before it, and the move left no task behind.\<close>

lemma list_all2_update_left:
  "list_all2 P (xs[i := x]) ys \<Longrightarrow> i < length xs \<Longrightarrow> P (xs ! i) y \<Longrightarrow> list_all2 P xs (ys[i := y])"
  by (auto simp: list_all2_conv_all_nth nth_list_update)

lemma Union_fst_update:
  assumes "i < length tvs" "fst (tvs ! i) = T"
  shows "\<Union>(fst ` set (tvs[i := (S \<union> T, v)])) = S \<union> \<Union>(fst ` set tvs)"
proof -
  have "set (tvs[i := (S \<union> T, v)]) = insert (S \<union> T, v) (set (take i tvs) \<union> set (drop (Suc i) tvs))"
    using assms(1) by (simp add: upd_conv_take_nth_drop)
  moreover have "set tvs = insert (tvs ! i) (set (take i tvs) \<union> set (drop (Suc i) tvs))"
    using assms(1) by (subst id_take_nth_drop [of i tvs]) auto
  ultimately show ?thesis using assms(2) by auto
qed

lemma succeeds_before:
  "pstep p evs q new \<Longrightarrow> succeeds R q T v \<Longrightarrow> answered R evs \<Longrightarrow> new = [] \<and> succeeds R p (called evs \<union> T) v"
proof (induction arbitrary: T v rule: pstep.induct)
  case (answer oid op args k r)
  then show ?case by (auto intro: succeeds.call)
next
  case (inside i ps evs q new k)
  from inside.prems(1) obtain tvs T' where
    tvs: "list_all2 (\<lambda>p tv. succeeds R p (fst tv) (snd tv)) (ps[i := q]) tvs"
      "succeeds R (k (map snd tvs)) T' v" "T = \<Union>(fst ` set tvs) \<union> T'"
    by (rule succeeds_GatherE)
  have i: "i < length tvs" using tvs(1) inside.hyps(1) by (simp add: list_all2_conv_all_nth)
  have "succeeds R q (fst (tvs ! i)) (snd (tvs ! i))"
    using list_all2_nthD [OF tvs(1), of i] inside.hyps(1) by simp
  from inside.IH [OF this inside.prems(2)] have IH: "new = []"
    "succeeds R (ps ! i) (called evs \<union> fst (tvs ! i)) (snd (tvs ! i))" by blast+
  let ?tvs = "tvs[i := (called evs \<union> fst (tvs ! i), snd (tvs ! i))]"
  have l: "list_all2 (\<lambda>p tv. succeeds R p (fst tv) (snd tv)) ps ?tvs"
    by (rule list_all2_update_left [OF tvs(1) inside.hyps(1)]) (use IH in simp)
  have "map snd ?tvs = map snd tvs" using i by (simp add: map_update list_update_same_conv)
  then have "succeeds R (k (map snd ?tvs)) T' v" using tvs(2) by (simp only:)
  from succeeds.gathered [of R, OF l, of k, OF this]
  have "succeeds R (Gather ps k) (\<Union>(fst ` set ?tvs) \<union> T') v" .
  moreover have "\<Union>(fst ` set ?tvs) \<union> T' = called evs \<union> T"
    unfolding Union_fst_update [OF i refl] tvs(3) by (rule Un_assoc)
  ultimately show ?case using IH(1) by (simp only: simp_thms)
next
  case (join vs k)
  have "list_all2 (\<lambda>p tv. succeeds R p (fst tv) (snd tv)) (map (\<lambda>v. Finished (Inr v)) vs) (map (\<lambda>v. ({}, v)) vs)"
    by (auto simp: list_all2_conv_all_nth intro: succeeds.returned)
  from succeeds.gathered [OF this, of k T v] join(1) show ?case by (auto simp: comp_def image_image)
next
  case (abort e ps k)
  then show ?case by (auto elim: succeeds_FinishedE)
qed

lemma succeeds_run:
  "exec_run c evs n c' \<Longrightarrow> answered R evs \<Longrightarrow> fst c' = Finished (Inr v) \<Longrightarrow>
     \<exists>T \<subseteq> called evs. succeeds R (fst c) T v \<and> (snd c = [] \<longrightarrow> snd c' = [] \<and> T = called evs)"
proof (induction rule: exec_run.induct)
  case (stop c)
  then have "succeeds R (fst c) {} v" by (simp add: succeeds.returned)
  then show ?case by auto
next
  case (move c evs c' evs' n c'')
  then obtain T where T: "T \<subseteq> called evs'" "succeeds R (fst c') T v"
    "snd c' = [] \<longrightarrow> snd c'' = [] \<and> T = called evs'" by auto
  from move.hyps(1) show ?case
  proof cases
    case (awaited p q new os)
    with T(2) move.prems(1) have "new = []" "succeeds R p (called evs \<union> T) v"
      using succeeds_before [of p evs q new R T v] by auto
    with awaited T show ?thesis by (intro exI [of _ "called evs \<union> T"]) auto
  next
    case (orphan i os q new p)
    with T show ?thesis by (intro exI [of _ T]) auto
  qed
qed

text \<open>When replies are a function of the call, success agrees with sequential evaluation.\<close>

lemma succeeds_evaluate:
  "succeeds (\<lambda>oid op args r. r = f oid op args) p T v \<Longrightarrow> evaluate_proc f p = Inr v"
proof (induction rule: succeeds.induct)
  case (gathered ps tvs k T v)
  from gathered(1) have "traverse (\<lambda>r. r) (map (evaluate_proc f) ps) = Inr (map snd tvs)"
    by (auto simp: traverse_Inr_iff list_all2_conv_all_nth)
  with gathered show ?case by simp
qed simp_all

lemma traverse_Inr_values [simp]: "traverse (\<lambda>r. r) (map Inr vs) = Inr vs"
  by (induction vs) simp_all

text \<open>A process whose sequential evaluation succeeds keeps its value and leaves nothing behind.\<close>

lemma evaluate_step:
  "pstep p evs q new \<Longrightarrow> answered (\<lambda>oid op args r. r = f oid op args) evs \<Longrightarrow> evaluate_proc f p = Inr v \<Longrightarrow>
     evaluate_proc f q = Inr v \<and> new = []"
proof (induction arbitrary: v rule: pstep.induct)
  case (inside i ps evs q new k)
  from inside.prems(2) obtain vs where vs: "traverse (\<lambda>r. r) (map (evaluate_proc f) ps) = Inr vs"
    "evaluate_proc f (k vs) = Inr v" by (auto simp: rbind_Inr_iff)
  then have "evaluate_proc f (ps ! i) = Inr (vs ! i)"
    using inside.hyps(1) by (auto simp: traverse_Inr_iff list_all2_conv_all_nth)
  from inside.IH [OF inside.prems(1) this] have q: "evaluate_proc f q = Inr (vs ! i)" "new = []" by auto
  have "map (evaluate_proc f) (ps[i := q]) = map (evaluate_proc f) ps"
    using q(1) \<open>evaluate_proc f (ps ! i) = Inr (vs ! i)\<close> by (simp add: map_update list_update_same_conv inside.hyps(1))
  then show ?case using vs q(2) by simp
next
  case (join vs k)
  then show ?case by (simp add: comp_def)
next
  case (abort e ps k)
  then have "Inl e \<in> set (map (evaluate_proc f) ps)" by force
  with abort show ?case by (auto simp: rbind_Inr_iff traverse_Inr_iff list_all2_conv_all_nth in_set_conv_nth)
qed auto

lemma evaluate_run:
  "exec_run c evs n c' \<Longrightarrow> answered (\<lambda>oid op args r. r = f oid op args) evs \<Longrightarrow>
     snd c = [] \<Longrightarrow> evaluate_proc f (fst c) = Inr v \<Longrightarrow> snd c' = [] \<and> evaluate_proc f (fst c') = Inr v"
proof (induction rule: exec_run.induct)
  case (move c evs c' evs' n c'')
  from move.hyps(1) have "snd c' = [] \<and> evaluate_proc f (fst c') = Inr v"
  proof cases
    case (awaited p q new os)
    with move.prems evaluate_step [of p evs q new f v] show ?thesis by simp
  next
    case (orphan i os q new p)
    with move.prems show ?thesis by simp
  qed
  with move show ?case by simp
qed simp

text \<open>A process that is not finished can move, whatever the replies are.\<close>

lemma pstep_progress:
  "\<not> is_finished p \<Longrightarrow> \<exists>evs q new. pstep p evs q new \<and> answered (\<lambda>oid op args r. r = f oid op args) evs"
proof (induction p)
  case (Calls oid op args k)
  have "pstep (Calls oid op args k) [(oid, op, args, f oid op args)] (k (f oid op args)) []" by (rule pstep.answer)
  then show ?case by (intro exI conjI) auto
next
  case (Gather ps k)
  show ?case
  proof (cases "\<exists>p \<in> set ps. \<not> is_finished p")
    case True
    then obtain p where p: "p \<in> set ps" "\<not> is_finished p" by blast
    from p(1) obtain i where i: "i < length ps" "p = ps ! i" by (metis in_set_conv_nth)
    from Gather(1) [OF p] obtain evs q new where "pstep (ps ! i) evs q new"
      "answered (\<lambda>oid op args r. r = f oid op args) evs" using i(2) by blast
    from pstep.inside [OF i(1) this(1)] this(2) show ?thesis by blast
  next
    case all: False
    show ?thesis
    proof (cases "\<exists>e. Finished (Inl e) \<in> set ps")
      case True
      then obtain e where "Finished (Inl e) \<in> set ps" by blast
      from pstep.abort [OF this, of k] show ?thesis by (intro exI conjI) auto
    next
      case False
      have "\<exists>v. p = Finished (Inr v)" if p: "p \<in> set ps" for p
      proof -
        from all p have "is_finished p" by blast
        then obtain r where "p = Finished r" by (cases p) auto
        with False p show ?thesis by (cases r) auto
      qed
      then have "\<exists>vs. ps = map (\<lambda>v. Finished (Inr v)) vs" by (intro ex_map_conv [THEN iffD2]) blast
      then obtain vs where "ps = map (\<lambda>v. Finished (Inr v)) vs" by blast
      from pstep.join [of vs k] this show ?thesis by (intro exI conjI) auto
    qed
  qed
qed simp

section \<open>Bounds\<close>

text \<open>
  \<open>weighs c g n p\<close>: whatever the replies, the moves of \<open>p\<close> and of the tasks it leaves behind cost
  at most \<open>n\<close> when an answered call costs \<open>c\<close> and the end of a gather costs \<open>g\<close>.
\<close>

inductive weighs :: "nat \<Rightarrow> nat \<Rightarrow> nat \<Rightarrow> proc \<Rightarrow> bool" for c g where
  finished: "weighs c g n (Finished r)"
| calls: "(\<And>r. weighs c g m (k r)) \<Longrightarrow> c + m \<le> n \<Longrightarrow> weighs c g n (Calls oid op args k)"
| gather: "list_all2 (weighs c g) ms ps \<Longrightarrow> (\<And>vs. weighs c g m (k vs)) \<Longrightarrow> g + sum_list ms + m \<le> n \<Longrightarrow>
    weighs c g n (Gather ps k)"
monos list_all2_mono

inductive_cases weighs_CallsE: "weighs c g n (Calls oid op args k)"
inductive_cases weighs_GatherE: "weighs c g n (Gather ps k)"

lemma weighs_mono: "weighs c g n p \<Longrightarrow> n \<le> n' \<Longrightarrow> weighs c g n' p"
proof (induction arbitrary: n' rule: weighs.induct)
  case (calls m k n oid op args)
  show ?case by (rule weighs.calls [where m = m]) (use calls in auto)
next
  case (gather ms ps m k n)
  have "list_all2 (weighs c g) ms ps" using gather(1) by (rule list_all2_mono) simp
  then show ?case by (rule weighs.gather [where m = m]) (use gather in auto)
qed (rule weighs.finished)

lemma weighs_pbind:
  "weighs c g n p \<Longrightarrow> (\<And>v. weighs c g m (f v)) \<Longrightarrow> weighs c g (n + m) (pbind p f)"
proof (induction rule: weighs.induct)
  case (finished n r)
  then show ?case
  proof (cases r)
    case (Inr v)
    have "weighs c g (n + m) (f v)" using finished weighs_mono le_add2 by blast
    with Inr show ?thesis by simp
  qed (auto intro: weighs.finished)
next
  case (calls m' k n oid op args)
  have "weighs c g (n + m) (Calls oid op args (\<lambda>r. pbind (k r) f))"
    by (rule weighs.calls [where m = "m' + m"]) (use calls in auto)
  then show ?case by simp
next
  case (gather ms ps m' k n)
  have "list_all2 (weighs c g) ms ps" using gather(1) by (rule list_all2_mono) simp
  then have "weighs c g (n + m) (Gather ps (\<lambda>vs. pbind (k vs) f))"
    by (rule weighs.gather [where m = "m' + m"]) (use gather in auto)
  then show ?case by simp
qed

definition moves_cost :: "nat \<Rightarrow> nat \<Rightarrow> call_event list \<Rightarrow> nat \<Rightarrow> nat" where
  "moves_cost c g evs n = c * length evs + g * (n - length evs)"

lemma list_all2_filter_sum:
  "list_all2 P ms ps \<Longrightarrow> \<exists>ws. list_all2 P ws (filter Q ps) \<and> sum_list ws \<le> (sum_list ms :: nat)"
proof (induction ms ps rule: list_all2_induct)
  case (Cons m ms p ps)
  then obtain ws where ws: "list_all2 P ws (filter Q ps)" "sum_list ws \<le> sum_list ms" by blast
  show ?case
  proof (cases "Q p")
    case True
    with Cons ws show ?thesis by (intro exI [of _ "m # ws"]) auto
  next
    case False
    with ws show ?thesis by (intro exI [of _ ws]) auto
  qed
qed simp

lemma pstep_length: "pstep p evs q new \<Longrightarrow> length evs \<le> 1"
  by (induction rule: pstep.induct) auto

lemma weighs_step:
  "pstep p evs q new \<Longrightarrow> weighs c g n p \<Longrightarrow>
     \<exists>m ws. weighs c g m q \<and> list_all2 (weighs c g) ws new \<and> moves_cost c g evs 1 + m + sum_list ws \<le> n"
proof (induction arbitrary: n rule: pstep.induct)
  case (answer oid op args k r)
  then obtain m where "weighs c g m (k r)" "c + m \<le> n" by (auto elim: weighs_CallsE)
  then show ?case by (intro exI [of _ m] exI [of _ "[]"]) (simp add: moves_cost_def)
next
  case (inside i ps evs q new k)
  from inside.prems obtain ms m where ms: "list_all2 (weighs c g) ms ps" "\<And>vs. weighs c g m (k vs)"
    "g + sum_list ms + m \<le> n" by (rule weighs_GatherE) blast
  have i: "i < length ms" using ms(1) inside.hyps(1) by (simp add: list_all2_conv_all_nth)
  have "weighs c g (ms ! i) (ps ! i)" using list_all2_nthD [OF ms(1) i] .
  from inside.IH [OF this] obtain m' ws where w: "weighs c g m' q" "list_all2 (weighs c g) ws new"
    "moves_cost c g evs 1 + m' + sum_list ws \<le> ms ! i" by blast
  have "list_all2 (weighs c g) (ms[i := m']) (ps[i := q])"
    using ms(1) w(1) by (rule list_all2_update_cong)
  from weighs.gather [OF this ms(2) order_refl]
  have "weighs c g (g + sum_list (ms[i := m']) + m) (Gather (ps[i := q]) k)" .
  moreover have "sum_list (ms[i := m']) + ms ! i = sum_list ms + m'" using sum_list_update_nat [OF i, of "\<lambda>x. x"] by simp
  ultimately show ?case using w(2,3) ms(3) by (intro exI conjI) auto
next
  case (join vs k)
  then obtain m where "weighs c g m (k vs)" "g + m \<le> n" by (rule weighs_GatherE) (metis add_leD1 add_leD2 add.assoc add.commute add_le_mono1 le_trans le_add1)
  then show ?case by (intro exI [of _ m] exI [of _ "[]"]) (simp add: moves_cost_def)
next
  case (abort e ps k)
  from abort(2) obtain ms m where ms: "list_all2 (weighs c g) ms ps" "g + sum_list ms + m \<le> n"
    by (rule weighs_GatherE) blast
  from list_all2_filter_sum [OF ms(1), of "\<lambda>p. \<not> is_finished p"] obtain ws where
    "list_all2 (weighs c g) ws (filter (\<lambda>p. \<not> is_finished p) ps)" "sum_list ws \<le> sum_list ms" by blast
  with ms(2) show ?case
    by (intro exI [of _ 0] exI [of _ ws]) (auto simp: moves_cost_def intro: weighs.finished)
qed

definition config_weighs :: "nat \<Rightarrow> nat \<Rightarrow> nat \<Rightarrow> proc \<times> proc list \<Rightarrow> bool" where
  "config_weighs c g n cfg \<longleftrightarrow>
     (\<exists>m ws. weighs c g m (fst cfg) \<and> list_all2 (weighs c g) ws (snd cfg) \<and> m + sum_list ws \<le> n)"

lemma weighs_exec_step:
  assumes "exec_step cfg evs cfg'" "config_weighs c g n cfg"
  shows "\<exists>n'. config_weighs c g n' cfg' \<and> moves_cost c g evs 1 + n' \<le> n"
proof -
  from assms(2) obtain m ws where w: "weighs c g m (fst cfg)" "list_all2 (weighs c g) ws (snd cfg)"
    "m + sum_list ws \<le> n" unfolding config_weighs_def by blast
  from assms(1) show ?thesis
  proof cases
    case (awaited p q new os)
    have "weighs c g m p" using w(1) awaited(1) by simp
    with weighs_step [OF awaited(3)] obtain m' ws' where
      s: "weighs c g m' q" "list_all2 (weighs c g) ws' new" "moves_cost c g evs 1 + m' + sum_list ws' \<le> m" by blast
    have "list_all2 (weighs c g) (ws @ ws') (os @ new)"
      using w(2) s(2) awaited(1) by (simp add: list_all2_appendI)
    with s w(3) awaited(2) show ?thesis unfolding config_weighs_def
      by (intro exI [of _ "m' + sum_list (ws @ ws')"] conjI exI [of _ m'] exI [of _ "ws @ ws'"]) auto
  next
    case (orphan i os q new p)
    have i: "i < length ws" using w(2) orphan(1,3) by (simp add: list_all2_conv_all_nth)
    have "weighs c g (ws ! i) (os ! i)" using list_all2_nthD [OF w(2) i] orphan(1) by simp
    with weighs_step [OF orphan(4)] obtain m' ws' where
      s: "weighs c g m' q" "list_all2 (weighs c g) ws' new" "moves_cost c g evs 1 + m' + sum_list ws' \<le> ws ! i"
      by blast
    have l: "list_all2 (weighs c g) (ws[i := m'] @ ws') (os[i := q] @ new)"
      using w(2) s(1,2) orphan(1) by (simp add: list_all2_appendI list_all2_update_cong)
    have "sum_list (ws[i := m']) + ws ! i = sum_list ws + m'" using sum_list_update_nat [OF i, of "\<lambda>x. x"] by simp
    with s(3) w(3) have "moves_cost c g evs 1 + (m + sum_list (ws[i := m'] @ ws')) \<le> n" by simp
    with l w(1) orphan(1,2) show ?thesis unfolding config_weighs_def
      by (intro exI [of _ "m + sum_list (ws[i := m'] @ ws')"] conjI exI [of _ m] exI [of _ "ws[i := m'] @ ws'"]) auto
  qed
qed

lemma exec_run_length: "exec_run cfg evs n cfg' \<Longrightarrow> length evs \<le> n"
proof (induction rule: exec_run.induct)
  case (move cfg evs cfg' evs' n cfg'')
  from move.hyps(1) have "length evs \<le> 1" by cases (auto dest: pstep_length)
  with move.IH show ?case by simp
qed simp

lemma weighs_run:
  "exec_run cfg evs k cfg' \<Longrightarrow> config_weighs c g n cfg \<Longrightarrow> moves_cost c g evs k \<le> n"
proof (induction arbitrary: n rule: exec_run.induct)
  case (move cfg evs cfg' evs' k cfg'')
  from weighs_exec_step [OF move.hyps(1) move.prems] obtain n' where
    "config_weighs c g n' cfg'" "moves_cost c g evs 1 + n' \<le> n" by blast
  with move.IH have "moves_cost c g evs 1 + moves_cost c g evs' k \<le> n" by fastforce
  moreover have "length evs \<le> 1" using move.hyps(1) by cases (auto dest: pstep_length)
  moreover have "length evs' \<le> k" using move.hyps(2) by (rule exec_run_length)
  moreover from this obtain d where "k = length evs' + d" using le_Suc_ex by blast
  ultimately show ?case by (auto simp: moves_cost_def algebra_simps le_Suc_eq)
qed (simp add: moves_cost_def)

section \<open>Complete runs\<close>

text \<open>Every run extends to one in which the awaited process has finished, whatever the replies are.\<close>

lemma exec_run_append:
  "exec_run c evs n c' \<Longrightarrow> exec_run c' evs' n' c'' \<Longrightarrow> exec_run c (evs @ evs') (n + n') c''"
  by (induction rule: exec_run.induct) (auto intro: exec_run.move)

lemma run_to_end:
  "weighs 1 1 n p \<Longrightarrow> \<exists>evs m r os'. exec_run (p, os) evs m (Finished r, os') \<and> answered (\<lambda>oid op args r. r = f oid op args) evs"
proof (induction n arbitrary: p os rule: less_induct)
  case (less n)
  show ?case
  proof (cases "is_finished p")
    case True
    then obtain r where "p = Finished r" by (cases p) auto
    then show ?thesis using exec_run.stop [of "(p, os)"] by (metis answered_simps(1))
  next
    case False
    from pstep_progress [OF this] obtain evs q new where
      s: "pstep p evs q new" "answered (\<lambda>oid op args r. r = f oid op args) evs" by blast
    from weighs_step [OF s(1) less.prems] obtain m where m: "weighs 1 1 m q" "moves_cost 1 1 evs 1 + m \<le> n"
      by (metis add_leD1)
    have "moves_cost 1 1 evs 1 = 1" using pstep_length [OF s(1)] by (simp add: moves_cost_def)
    with m(2) have "m < n" by simp
    from less.IH [OF this m(1), of "os @ new"] obtain evs' k r os' where
      "exec_run (q, os @ new) evs' k (Finished r, os')" "answered (\<lambda>oid op args r. r = f oid op args) evs'" by blast
    with exec_run.move [OF exec_step.awaited [OF s(1), of os]] s(2) show ?thesis
      by (metis answered_simps(3))
  qed
qed

lemma config_weighs_alone [simp]: "weighs c g n p \<Longrightarrow> config_weighs c g n (p, [])"
  unfolding config_weighs_def by force

lemma config_weighs_run:
  "exec_run cfg evs k cfg' \<Longrightarrow> config_weighs c g n cfg \<Longrightarrow> \<exists>n'. config_weighs c g n' cfg'"
  by (induction arbitrary: n rule: exec_run.induct) (blast dest: weighs_exec_step)+

lemma run_extends:
  assumes "weighs 1 1 n p" "exec_run (p, []) evs m (q, os)"
  shows "\<exists>evs' m' r os'. exec_run (q, os) evs' m' (Finished r, os') \<and>
     answered (\<lambda>oid op args r. r = f oid op args) evs' \<and> m + m' \<le> n"
proof -
  from config_weighs_run [OF assms(2) config_weighs_alone [OF assms(1)]] obtain k where "weighs 1 1 k q"
    by (auto simp: config_weighs_def)
  from run_to_end [OF this] obtain evs' m' r os' where r: "exec_run (q, os) evs' m' (Finished r, os')"
    "answered (\<lambda>oid op args r. r = f oid op args) evs'" by metis
  from exec_run_append [OF assms(2) r(1)] have all: "exec_run (p, []) (evs @ evs') (m + m') (Finished r, os')" .
  from weighs_run [OF this config_weighs_alone [OF assms(1)]] exec_run_length [OF all]
  have "m + m' \<le> n" by (simp add: moves_cost_def)
  with r show ?thesis by blast
qed

text \<open>A finished run and the sequential evaluation succeed together, with one value and nothing left behind.\<close>

lemma run_agrees:
  assumes "exec_run (p, []) evs n (Finished r, os)" "answered (\<lambda>oid op args r. r = f oid op args) evs"
  shows "(r = Inr v \<longleftrightarrow> evaluate_proc f p = Inr v) \<and> (r = Inr v \<longrightarrow> os = [])"
proof -
  have "evaluate_proc f p = Inr v \<and> os = []" if "r = Inr v"
    using succeeds_run [OF assms, of v] that succeeds_evaluate by fastforce
  moreover have "r = Inr v" if "evaluate_proc f p = Inr v"
    using evaluate_run [OF assms, of v] that by simp
  ultimately show ?thesis by blast
qed

section \<open>Every run of a workflow is safe\<close>

lemma call_step_safe: "safe (call_checked env operations) (\<lambda>_. True) json_finite (call_step env operations ctx a)"
  unfolding call_step_def
  by (auto intro!: safe_plift safe.calls simp: prepare_call_Inr safe_Finished call_result_finite)

lemma pure_step_finite: "pure_step ctx a action = Inr v \<Longrightarrow> json_finite v"
  using step_results_finite unfolding pure_step_def by (metis (no_types, lifting))

lemma safe_gather_finite:
  "(\<And>p. p \<in> set ps \<Longrightarrow> safe P E json_finite p) \<Longrightarrow> safe P E json_finite (Gather ps (\<lambda>vs. Finished (Inr (JArr vs))))"
  by (rule safe.gather [where R = json_finite]) (auto simp: safe_Finished list_all_iff)

lemma run_workflow_safe:
  "json_finite v \<longrightarrow> safe (call_checked env operations) (\<lambda>_. True) json_finite (run_workflow env operations ctx ws v)"
  "safe (call_checked env operations) (\<lambda>_. True) json_finite (run_step env operations ctx s)"
proof (induction ctx ws v and ctx s rule: workflow_induct)
  case (Cons ctx raw rest v)
  then show ?case by (auto simp: safe_Finished split: option.splits intro!: safe_pbind [where R = json_finite])
next
  case (step ctx s)
  show ?case
  proof (cases "\<exists>a. actions_in s = [a]")
    case True
    then obtain a where a: "actions_in s = [a]" by blast
    then have "a \<in> set (actions_in s)" by simp
    then obtain action where d: "dget s a = Some action" by (auto simp: actions_in_def)
    note eqs = run_step_action [OF a d, of env operations ctx]
    consider "a \<notin> {''call'', ''branch'', ''parallel'', ''foreach''}" | "a = ''call''" | "a = ''branch''"
      | "a = ''parallel''" | "a = ''foreach''" by blast
    then show ?thesis
    proof cases
      case 1
      show ?thesis unfolding eqs(1) [OF 1] by (simp add: safe_Finished pure_step_finite)
    next
      case 2
      show ?thesis unfolding eqs(2) [OF 2] by (rule call_step_safe)
    next
      case 3
      show ?thesis unfolding eqs(3) [OF 3]
        using step.IH(1) d 3 by (auto intro!: safe_plift split: prod.splits)
    next
      case 4
      show ?thesis unfolding eqs(4) [OF 4]
        using step.IH(2) d 4 by (auto intro!: safe_plift safe_gather_finite simp: safe_Finished simp del: run_workflow.simps)
    next
      case 5
      show ?thesis unfolding eqs(5) [OF 5]
        using step.IH(3) d 5 by (auto intro!: safe_plift safe_gather_finite)
    qed
  qed (simp add: run_step_invalid safe_Finished)
qed (simp add: safe_Finished)

end
