(* ===== verification/WorkflowCheck.thy ===== *)
theory WorkflowCheck
  imports Execution Scopes
begin

text \<open>
  The static side of workflows: which step documents \<^verbatim>\<open>acc_core/models/__init__.py\<close> accepts, how
  \<^verbatim>\<open>acc_core/compiler/ir.py\<close> writes them into the IR (\<open>step_json\<close>), and its reference check
  (\<open>validate_step\<close>). The results connect them with the executor: a checked workflow never fails
  with an invalid reference or an unknown operation, an accepted condition never exceeds the runtime
  bound and has its denotation as value, the number of calls and of moves is bounded by the text of the
  workflow, and the operations of a successful run are a completion of the scope analysis.
  Messages of diagnostics are not modelled, their codes and pointers are.
\<close>

section \<open>Accepted steps\<close>

fun operand_ok :: "cond_operand \<Rightarrow> bool" where
  "operand_ok (RefOperand s) = (s \<noteq> [])"
| "operand_ok (LitOperand v) = True"

fun condition_operands_ok :: "wcond \<Rightarrow> bool" where
  "condition_operands_ok (WEq l r) = (operand_ok l \<and> operand_ok r)"
| "condition_operands_ok (WIn l r) = (operand_ok l \<and> operand_ok r)"
| "condition_operands_ok (WAll cs) = (\<forall>c \<in> set cs. condition_operands_ok c)"
| "condition_operands_ok (WAny cs) = (\<forall>c \<in> set cs. condition_operands_ok c)"
| "condition_operands_ok (WNot c) = condition_operands_ok c"

fun branch_cond_ok :: "branch_cond \<Rightarrow> bool" where
  "branch_cond_ok (CondRef r) = (r \<noteq> [])"
| "branch_cond_ok (CondTree c) = (condition_operands_ok c \<and> condition_fanout_ok c \<and> branch_condition_ok (CondTree c))"

definition collection_bound_ok :: "nat \<Rightarrow> bool" where
  "collection_bound_ok n \<longleftrightarrow> 1 \<le> n \<and> n \<le> 100"

definition names_ok :: "string list \<Rightarrow> bool" where
  "names_ok xs \<longleftrightarrow> xs \<noteq> [] \<and> [] \<notin> set xs"

fun step_ok :: "step \<Rightarrow> bool" where
  "step_ok (CallStep i oid args) = (i \<noteq> Some [] \<and> oid \<noteq> [])"
| "step_ok (PickStep i v fs) = (i \<noteq> Some [] \<and> names_ok fs)"
| "step_ok (MapStep i v e n) = (i \<noteq> Some [] \<and> e \<noteq> [] \<and> collection_bound_ok n)"
| "step_ok (FilterStep i v e n) = (i \<noteq> Some [] \<and> e \<noteq> [] \<and> collection_bound_ok n)"
| "step_ok (AssertStep i e m) = (i \<noteq> Some [] \<and> e \<noteq> [] \<and> m \<noteq> [])"
| "step_ok (RedactStep i v fs) = (i \<noteq> Some [] \<and> names_ok fs)"
| "step_ok (BranchStep i c ts es) =
     (i \<noteq> Some [] \<and> branch_cond_ok c \<and> ts \<noteq> [] \<and> es \<noteq> [] \<and> (\<forall>s \<in> set ts. step_ok s) \<and> (\<forall>s \<in> set es. step_ok s))"
| "step_ok (ParallelStep i ss) =
     (i \<noteq> Some [] \<and> 1 \<le> length ss \<and> length ss \<le> 8 \<and> (\<forall>s \<in> set ss. step_ok s))"
| "step_ok (ForeachStep i v nm n ss) =
     (i \<noteq> Some [] \<and> nm \<noteq> [] \<and> collection_bound_ok n \<and> ss \<noteq> [] \<and> (\<forall>s \<in> set ss. step_ok s))"
| "step_ok (EmitStep i v) = (i \<noteq> Some [])"

section \<open>Steps in the IR\<close>

text \<open>\<open>_normalize_json(model_dump(mode="json", by_alias=True))\<close>: every object has its keys in order.\<close>

definition id_json :: "string option \<Rightarrow> json" where
  "id_json i = (case i of None \<Rightarrow> JNull | Some s \<Rightarrow> JStr s)"

fun operand_json :: "cond_operand \<Rightarrow> json" where
  "operand_json (RefOperand s) = JObj [(''kind'', JStr ''reference''), (''value'', JStr s)]"
| "operand_json (LitOperand v) = JObj [(''kind'', JStr ''literal''), (''value'', sort_keys v)]"

fun condition_json :: "wcond \<Rightarrow> json" where
  "condition_json (WEq l r) =
     JObj [(''left'', operand_json l), (''operator'', JStr ''eq''), (''right'', operand_json r)]"
| "condition_json (WIn i vs) =
     JObj [(''item'', operand_json i), (''operator'', JStr ''in''), (''values'', operand_json vs)]"
| "condition_json (WAll cs) =
     JObj [(''conditions'', JArr (map condition_json cs)), (''operator'', JStr ''all'')]"
| "condition_json (WAny cs) =
     JObj [(''conditions'', JArr (map condition_json cs)), (''operator'', JStr ''any'')]"
| "condition_json (WNot c) = JObj [(''condition'', condition_json c), (''operator'', JStr ''not'')]"

fun branch_cond_json :: "branch_cond \<Rightarrow> json" where
  "branch_cond_json (CondRef r) = JStr r"
| "branch_cond_json (CondTree c) = condition_json c"

fun step_fields_json :: "step \<Rightarrow> (string, json) dict" where
  "step_fields_json (CallStep i oid args) =
     [(''call'', JObj [(''arguments'', sort_keys (JObj args)), (''operation'', JStr oid)]), (''id'', id_json i)]"
| "step_fields_json (PickStep i v fs) =
     [(''id'', id_json i), (''pick'', JObj [(''fields'', JArr (map JStr fs)), (''value'', sort_keys v)])]"
| "step_fields_json (MapStep i v e n) =
     [(''id'', id_json i),
      (''map'', JObj [(''expression'', JStr e), (''items'', sort_keys v), (''max_items'', JInt (int n))])]"
| "step_fields_json (FilterStep i v e n) =
     [(''filter'', JObj [(''condition'', JStr e), (''items'', sort_keys v), (''max_items'', JInt (int n))]),
      (''id'', id_json i)]"
| "step_fields_json (AssertStep i e m) =
     [(''assert'', JObj [(''condition'', JStr e), (''message'', JStr m)]), (''id'', id_json i)]"
| "step_fields_json (RedactStep i v fs) =
     [(''id'', id_json i), (''redact'', JObj [(''fields'', JArr (map JStr fs)), (''value'', sort_keys v)])]"
| "step_fields_json (BranchStep i c ts es) =
     [(''branch'', JObj [(''condition'', branch_cond_json c), (''else'', JArr (map (\<lambda>s. JObj (step_fields_json s)) es)),
                         (''then'', JArr (map (\<lambda>s. JObj (step_fields_json s)) ts))]),
      (''id'', id_json i)]"
| "step_fields_json (ParallelStep i ss) =
     [(''id'', id_json i), (''parallel'', JArr (map (\<lambda>s. JObj (step_fields_json s)) ss))]"
| "step_fields_json (ForeachStep i v nm n ss) =
     [(''foreach'', JObj [(''item_name'', JStr nm), (''items'', sort_keys v), (''max_items'', JInt (int n)),
                          (''workflow'', JArr (map (\<lambda>s. JObj (step_fields_json s)) ss))]),
      (''id'', id_json i)]"
| "step_fields_json (EmitStep i v) = [(''emit'', JObj [(''value'', sort_keys v)]), (''id'', id_json i)]"

abbreviation step_json :: "step \<Rightarrow> json" where
  "step_json s \<equiv> JObj (step_fields_json s)"

section \<open>The reference check\<close>

datatype diagnostic_code =
    DiagReferenceInvalid | DiagItemOutsideLoop | DiagInputUnavailable | DiagPreparedUnavailable
  | DiagStepNotPrior | DiagStepIdDuplicate | DiagOperationNotFound | DiagBindingOverride

type_synonym diagnostic = "diagnostic_code \<times> string"

record reference_scope =
  available_steps :: "string set"
  allow_item :: bool
  allow_input :: bool
  allow_prepared :: bool

text \<open>The compiler's \<open>_REFERENCE_PATTERN\<close>, which also knows \<open>$.prepared\<close>.\<close>

datatype reference_base = InputBase | ItemBase | PreparedBase | StepBase string

definition match_reference :: "string \<Rightarrow> reference_base option" where
  "match_reference s =
     (case split_on (CHR ''.'') s of
        r # base # path \<Rightarrow>
          if r \<noteq> ''$'' \<or> \<not> list_all is_segment path then None
          else if base = ''input'' then Some InputBase
          else if base = ''item'' then Some ItemBase
          else if base = ''prepared'' then Some PreparedBase
          else if base = ''steps'' then (case path of [] \<Rightarrow> None | st # rest \<Rightarrow> Some (StepBase st))
          else None
      | _ \<Rightarrow> None)"

definition at_index :: "string \<Rightarrow> nat \<Rightarrow> string" where
  "at_index pointer i = pointer @ CHR ''/'' # nat_text i"

text \<open>\<open>_validate_reference\<close>\<close>

definition validate_reference :: "reference_scope \<Rightarrow> bool \<Rightarrow> string \<Rightarrow> string \<Rightarrow> diagnostic list" where
  "validate_reference sc require_reference pointer v =
     (case match_reference v of
        None \<Rightarrow> if require_reference \<or> looks_dynamic v then [(DiagReferenceInvalid, pointer)] else []
      | Some ItemBase \<Rightarrow> if \<not> allow_item sc then [(DiagItemOutsideLoop, pointer)] else []
      | Some InputBase \<Rightarrow> if \<not> allow_input sc then [(DiagInputUnavailable, pointer)] else []
      | Some PreparedBase \<Rightarrow> if \<not> allow_prepared sc then [(DiagPreparedUnavailable, pointer)] else []
      | Some (StepBase st) \<Rightarrow> if st \<notin> available_steps sc then [(DiagStepNotPrior, pointer)] else [])"

text \<open>\<open>_validate_value\<close>\<close>

fun validate_value :: "reference_scope \<Rightarrow> bool \<Rightarrow> string \<Rightarrow> json \<Rightarrow> diagnostic list"
  and validate_items :: "reference_scope \<Rightarrow> string \<Rightarrow> nat \<Rightarrow> json list \<Rightarrow> diagnostic list"
  and validate_fields :: "reference_scope \<Rightarrow> string \<Rightarrow> (string \<times> json) list \<Rightarrow> diagnostic list" where
  "validate_value sc require_reference pointer (JStr s) = validate_reference sc require_reference pointer s"
| "validate_value sc require_reference pointer (JArr xs) = validate_items sc pointer 0 xs"
| "validate_value sc require_reference pointer (JObj fs) = validate_fields sc pointer fs"
| "validate_value sc require_reference pointer v = []"
| "validate_items sc pointer i [] = []"
| "validate_items sc pointer i (x # xs) =
     validate_value sc False (at_index pointer i) x @ validate_items sc pointer (Suc i) xs"
| "validate_fields sc pointer [] = []"
| "validate_fields sc pointer ((k, v) # fs) =
     validate_value sc False (pointer @ CHR ''/'' # pointer_token k) v @ validate_fields sc pointer fs"

text \<open>\<open>_validate_condition\<close>; the pointer below \<open>not\<close> is \<open>/conditions/0\<close>, as in the code.\<close>

fun validate_operand :: "reference_scope \<Rightarrow> string \<Rightarrow> cond_operand \<Rightarrow> diagnostic list" where
  "validate_operand sc pointer (LitOperand v) = []"
| "validate_operand sc pointer (RefOperand s) = validate_value sc True (pointer @ ''/value'') (JStr s)"

fun validate_condition :: "reference_scope \<Rightarrow> string \<Rightarrow> wcond \<Rightarrow> diagnostic list"
  and validate_conditions :: "reference_scope \<Rightarrow> string \<Rightarrow> nat \<Rightarrow> wcond list \<Rightarrow> diagnostic list" where
  "validate_condition sc pointer (WEq l r) =
     validate_operand sc (pointer @ ''/left'') l @ validate_operand sc (pointer @ ''/right'') r"
| "validate_condition sc pointer (WIn i vs) =
     validate_operand sc (pointer @ ''/item'') i @ validate_operand sc (pointer @ ''/values'') vs"
| "validate_condition sc pointer (WAll cs) = validate_conditions sc pointer 0 cs"
| "validate_condition sc pointer (WAny cs) = validate_conditions sc pointer 0 cs"
| "validate_condition sc pointer (WNot c) = validate_conditions sc pointer 0 [c]"
| "validate_conditions sc pointer i [] = []"
| "validate_conditions sc pointer i (c # cs) =
     validate_condition sc (at_index (pointer @ ''/conditions'') i) c @ validate_conditions sc pointer (Suc i) cs"

fun validate_branch_condition :: "reference_scope \<Rightarrow> string \<Rightarrow> branch_cond \<Rightarrow> diagnostic list" where
  "validate_branch_condition sc pointer (CondRef r) = validate_value sc True pointer (JStr r)"
| "validate_branch_condition sc pointer (CondTree c) = validate_condition sc pointer c"

text \<open>
  \<open>_validate_step\<close> and \<open>_validate_workflow\<close>: the shared mutable sets \<open>seen_step_ids\<close> and
  \<open>dependencies\<close> and the diagnostics are threaded; \<open>available_steps\<close> grows within one workflow.
\<close>

record check_state =
  seen_ids :: "string set"
  dependencies :: "string set"
  diagnostics :: "diagnostic list"

definition report :: "diagnostic list \<Rightarrow> check_state \<Rightarrow> check_state" where
  "report ds st = st\<lparr>diagnostics := diagnostics st @ ds\<rparr>"

definition register_step_id :: "string option \<Rightarrow> string \<Rightarrow> check_state \<Rightarrow> check_state" where
  "register_step_id i pointer st =
     (case i of
        None \<Rightarrow> st
      | Some s \<Rightarrow> if s \<in> seen_ids st then report [(DiagStepIdDuplicate, pointer @ ''/id'')] st
                  else st\<lparr>seen_ids := insert s (seen_ids st)\<rparr>)"

definition with_item :: "reference_scope \<Rightarrow> reference_scope" where
  "with_item sc = sc\<lparr>allow_item := True\<rparr>"

definition with_step :: "string option \<Rightarrow> reference_scope \<Rightarrow> reference_scope" where
  "with_step i sc =
     (case i of None \<Rightarrow> sc | Some s \<Rightarrow> sc\<lparr>available_steps := insert s (available_steps sc)\<rparr>)"

record operation_table =
  known_operations :: "string set"
  operation_bindings :: "(string, string list) dict"

definition bound_inputs :: "operation_table \<Rightarrow> string \<Rightarrow> string set" where
  "bound_inputs tab oid = (case dget (operation_bindings tab) oid of None \<Rightarrow> {} | Some ts \<Rightarrow> set ts)"

definition validate_call :: "operation_table \<Rightarrow> reference_scope \<Rightarrow> string \<Rightarrow> string \<Rightarrow> (string, json) dict \<Rightarrow> diagnostic list" where
  "validate_call tab sc pointer oid args =
     (if oid \<in> known_operations tab then [] else [(DiagOperationNotFound, pointer @ ''/call/operation'')]) @
     map (\<lambda>a. (DiagBindingOverride, pointer @ ''/call/arguments/'' @ pointer_token a))
       (filter (\<lambda>a. a \<in> bound_inputs tab oid) (sorted_set (dkeys args))) @
     validate_value sc False (pointer @ ''/call/arguments'') (JObj args)"

fun validate_step :: "operation_table \<Rightarrow> reference_scope \<Rightarrow> string \<Rightarrow> step \<Rightarrow> check_state \<Rightarrow> check_state"
  and validate_workflow :: "operation_table \<Rightarrow> reference_scope \<Rightarrow> string \<Rightarrow> nat \<Rightarrow> step list \<Rightarrow> check_state \<Rightarrow> check_state"
  and validate_children :: "operation_table \<Rightarrow> reference_scope \<Rightarrow> string \<Rightarrow> nat \<Rightarrow> step list \<Rightarrow> check_state \<Rightarrow> check_state" where
  "validate_step tab sc pointer (CallStep i oid args) st =
     report (validate_call tab sc pointer oid args)
       ((register_step_id i pointer st)\<lparr>dependencies := insert oid (dependencies st)\<rparr>)"
| "validate_step tab sc pointer (PickStep i v fs) st =
     report (validate_value sc False (pointer @ ''/pick/value'') v) (register_step_id i pointer st)"
| "validate_step tab sc pointer (MapStep i v e n) st =
     report (validate_value sc False (pointer @ ''/map/items'') v @
             validate_value (with_item sc) True (pointer @ ''/map/expression'') (JStr e)) (register_step_id i pointer st)"
| "validate_step tab sc pointer (FilterStep i v e n) st =
     report (validate_value sc False (pointer @ ''/filter/items'') v @
             validate_value (with_item sc) True (pointer @ ''/filter/condition'') (JStr e)) (register_step_id i pointer st)"
| "validate_step tab sc pointer (AssertStep i e m) st =
     report (validate_value sc True (pointer @ ''/assert/condition'') (JStr e)) (register_step_id i pointer st)"
| "validate_step tab sc pointer (RedactStep i v fs) st =
     report (validate_value sc False (pointer @ ''/redact/value'') v) (register_step_id i pointer st)"
| "validate_step tab sc pointer (BranchStep i c ts es) st =
     validate_workflow tab sc (pointer @ ''/branch/else'') 0 es
       (validate_workflow tab sc (pointer @ ''/branch/then'') 0 ts
         (report (validate_branch_condition sc (pointer @ ''/branch/condition'') c) (register_step_id i pointer st)))"
| "validate_step tab sc pointer (ParallelStep i ss) st =
     validate_children tab sc (pointer @ ''/parallel'') 0 ss (register_step_id i pointer st)"
| "validate_step tab sc pointer (ForeachStep i v nm n ss) st =
     validate_workflow tab (with_item sc) (pointer @ ''/foreach/workflow'') 0 ss
       (report (validate_value sc False (pointer @ ''/foreach/items'') v) (register_step_id i pointer st))"
| "validate_step tab sc pointer (EmitStep i v) st =
     report (validate_value sc False (pointer @ ''/emit/value'') v) (register_step_id i pointer st)"
| "validate_workflow tab sc pointer i [] st = st"
| "validate_workflow tab sc pointer i (s # ss) st =
     validate_workflow tab (with_step (step_id s) sc) pointer (Suc i) ss
       (validate_step tab sc (at_index pointer i) s st)"
| "validate_children tab sc pointer i [] st = st"
| "validate_children tab sc pointer i (s # ss) st =
     validate_children tab sc pointer (Suc i) ss (validate_step tab sc (at_index pointer i) s st)"

definition empty_state :: check_state where
  "empty_state = \<lparr>seen_ids = {}, dependencies = {}, diagnostics = []\<rparr>"

definition read_scope :: reference_scope where
  "read_scope = \<lparr>available_steps = {}, allow_item = False, allow_input = True, allow_prepared = False\<rparr>"

fun is_emit :: "step \<Rightarrow> bool" where
  "is_emit (EmitStep i v) = True"
| "is_emit _ = False"

text \<open>The workflow part of \<open>_compile_capability\<close>: no diagnostic, and a final emit.\<close>

definition workflow_checked :: "operation_table \<Rightarrow> step list \<Rightarrow> bool" where
  "workflow_checked tab ss \<longleftrightarrow>
     diagnostics (validate_workflow tab read_scope ''/workflow'' 0 ss empty_state) = [] \<and> is_emit (last ss)"

end
