(* ===== verification/WorkflowRuns.thy ===== *)
theory WorkflowRuns
  imports WorkflowCheck
begin

text \<open>
  What the executor does with compiled workflows: its equations on \<open>step_json\<close>, the bounds on calls
  and moves, the value of accepted conditions, the errors a checked workflow can end with, and the
  operations of its successful runs.
\<close>

section \<open>The executor on compiled steps\<close>

lemma step_id_field [simp]: "get_or_null (step_fields_json s) ''id'' = id_json (step_id s)"
  by (cases s) (simp_all add: get_or_null_def)

lemma is_step_id_json [simp]: "is_step_id (id_json i)"
  by (cases i) (simp_all add: id_json_def)

fun keep_typed :: "string option \<Rightarrow> exec_context \<Rightarrow> json \<Rightarrow> exec_context" where
  "keep_typed None ctx v = ctx"
| "keep_typed (Some i) ctx v = ctx\<lparr>ctx_steps := dset (ctx_steps ctx) i v\<rparr>"

lemma keep_result_json [simp]: "keep_result (id_json i) ctx v = keep_typed i ctx v"
  by (cases i) (simp_all add: id_json_def keep_result_def)

lemma run_workflow_typed [simp]:
  "run_workflow env operations ctx (map step_json []) v = Finished (Inr v)"
  "run_workflow env operations ctx (map step_json (s # ss)) v =
     pbind (run_step env operations ctx (step_fields_json s))
       (\<lambda>w. run_workflow env operations (keep_typed (step_id s) ctx w) (map step_json ss) w)"
  by simp_all

definition collection_typed :: "exec_context \<Rightarrow> json \<Rightarrow> nat \<Rightarrow> exec_error + json list" where
  "collection_typed ctx v n =
     rbind (resolve_value ctx (sort_keys v)) (\<lambda>items. bounded_items items (JInt (int n)))"

lemma run_step_typed:
  "run_step env operations ctx (step_fields_json (CallStep i oid args)) =
     call_step env operations ctx (JObj [(''arguments'', sort_keys (JObj args)), (''operation'', JStr oid)])"
  "run_step env operations ctx (step_fields_json (BranchStep i c ts es)) =
     plift (evaluate_condition ctx (branch_cond_json c) 1 64) (\<lambda>(holds, _).
       run_workflow env operations ctx (map step_json (if holds then ts else es)) JNull)"
  "run_step env operations ctx (step_fields_json (ParallelStep i ss)) =
     (if \<not> (1 \<le> length ss \<and> length ss \<le> 8) then Finished (Inl (ExecutionError ExecBoundExceeded))
      else Gather (map (\<lambda>s. run_workflow env operations ctx (map step_json [s]) JNull) ss)
             (\<lambda>vs. Finished (Inr (JArr vs))))"
  "run_step env operations ctx (step_fields_json (ForeachStep i v nm n ss)) =
     plift (collection_typed ctx v n) (\<lambda>items.
       Gather (map (\<lambda>item. run_workflow env operations (isolated ctx item) (map step_json ss) JNull) items)
         (\<lambda>vs. Finished (Inr (JArr vs))))"
proof -
  show "run_step env operations ctx (step_fields_json (CallStep i oid args)) =
     call_step env operations ctx (JObj [(''arguments'', sort_keys (JObj args)), (''operation'', JStr oid)])"
    by (rule trans [OF run_step_action(2) [where a = "''call''"]])
      (simp add: actions_in_def known_actions_def)+
  show "run_step env operations ctx (step_fields_json (BranchStep i c ts es)) =
     plift (evaluate_condition ctx (branch_cond_json c) 1 64) (\<lambda>(holds, _).
       run_workflow env operations ctx (map step_json (if holds then ts else es)) JNull)"
    by (rule trans [OF run_step_action(3) [where a = "''branch''"]])
      (auto simp: actions_in_def known_actions_def get_or_null_def
        intro!: arg_cong2 [where f = plift] ext)+
  show "run_step env operations ctx (step_fields_json (ParallelStep i ss)) =
     (if \<not> (1 \<le> length ss \<and> length ss \<le> 8) then Finished (Inl (ExecutionError ExecBoundExceeded))
      else Gather (map (\<lambda>s. run_workflow env operations ctx (map step_json [s]) JNull) ss)
             (\<lambda>vs. Finished (Inr (JArr vs))))"
    by (rule trans [OF run_step_action(4) [where a = "''parallel''"]])
      (simp add: actions_in_def known_actions_def comp_def del: run_workflow.simps)+
  show "run_step env operations ctx (step_fields_json (ForeachStep i v nm n ss)) =
     plift (collection_typed ctx v n) (\<lambda>items.
       Gather (map (\<lambda>item. run_workflow env operations (isolated ctx item) (map step_json ss) JNull) items)
         (\<lambda>vs. Finished (Inr (JArr vs))))"
    by (rule trans [OF run_step_action(5) [where a = "''foreach''"]])
      (simp add: actions_in_def known_actions_def get_or_null_def collection_of_def collection_typed_def)+
qed

lemma run_step_pure:
  "run_step env operations ctx (step_fields_json (PickStep i v fs)) =
     Finished (pick_step ctx (JObj [(''fields'', JArr (map JStr fs)), (''value'', sort_keys v)]))"
  "run_step env operations ctx (step_fields_json (MapStep i v e n)) =
     Finished (map_step ctx (JObj [(''expression'', JStr e), (''items'', sort_keys v), (''max_items'', JInt (int n))]))"
  "run_step env operations ctx (step_fields_json (FilterStep i v e n)) =
     Finished (filter_step ctx (JObj [(''condition'', JStr e), (''items'', sort_keys v), (''max_items'', JInt (int n))]))"
  "run_step env operations ctx (step_fields_json (AssertStep i e m)) =
     Finished (assert_step ctx (JObj [(''condition'', JStr e), (''message'', JStr m)]))"
  "run_step env operations ctx (step_fields_json (RedactStep i v fs)) =
     Finished (redact_step ctx (JObj [(''fields'', JArr (map JStr fs)), (''value'', sort_keys v)]))"
  "run_step env operations ctx (step_fields_json (EmitStep i v)) = Finished (resolve_value ctx (sort_keys v))"
  subgoal by (rule trans [OF run_step_action(1) [where a = "''pick''"]])
    (simp add: actions_in_def known_actions_def pure_step_def emit_step_def get_or_null_def)+
  subgoal by (rule trans [OF run_step_action(1) [where a = "''map''"]])
    (simp add: actions_in_def known_actions_def pure_step_def emit_step_def get_or_null_def)+
  subgoal by (rule trans [OF run_step_action(1) [where a = "''filter''"]])
    (simp add: actions_in_def known_actions_def pure_step_def emit_step_def get_or_null_def)+
  subgoal by (rule trans [OF run_step_action(1) [where a = "''assert''"]])
    (simp add: actions_in_def known_actions_def pure_step_def emit_step_def get_or_null_def)+
  subgoal by (rule trans [OF run_step_action(1) [where a = "''redact''"]])
    (simp add: actions_in_def known_actions_def pure_step_def emit_step_def get_or_null_def)+
  subgoal by (rule trans [OF run_step_action(1) [where a = "''emit''"]])
    (simp add: actions_in_def known_actions_def pure_step_def emit_step_def get_or_null_def)+
  done

section \<open>Bounds\<close>

text \<open>The cost of a step, read off its text: a call costs \<open>c\<close>, the end of a gather \<open>g\<close>.\<close>

fun step_weight :: "nat \<Rightarrow> nat \<Rightarrow> step \<Rightarrow> nat" where
  "step_weight c g (CallStep i oid args) = c"
| "step_weight c g (BranchStep i k ts es) =
     max (sum_list (map (step_weight c g) ts)) (sum_list (map (step_weight c g) es))"
| "step_weight c g (ParallelStep i ss) = g + sum_list (map (step_weight c g) ss)"
| "step_weight c g (ForeachStep i v nm n ss) = g + n * sum_list (map (step_weight c g) ss)"
| "step_weight c g _ = 0"

definition workflow_weight :: "nat \<Rightarrow> nat \<Rightarrow> step list \<Rightarrow> nat" where
  "workflow_weight c g ss = sum_list (map (step_weight c g) ss)"

lemma workflow_weighs:
  "(\<And>s ctx. s \<in> set ss \<Longrightarrow> weighs c g (step_weight c g s) (run_step env operations ctx (step_fields_json s))) \<Longrightarrow>
     weighs c g (workflow_weight c g ss) (run_workflow env operations ctx (map step_json ss) v)"
proof (induction ss arbitrary: ctx v)
  case (Cons s ss)
  have "weighs c g (workflow_weight c g ss) (run_workflow env operations ctx' (map step_json ss) w)" for ctx' w
    using Cons by simp
  moreover have "weighs c g (step_weight c g s) (run_step env operations ctx (step_fields_json s))"
    using Cons.prems by simp
  ultimately have "weighs c g (step_weight c g s + workflow_weight c g ss)
      (run_workflow env operations ctx (map step_json (s # ss)) v)"
    unfolding run_workflow_typed by (intro weighs_pbind)
  then show ?case by (simp add: workflow_weight_def del: run_workflow_typed run_workflow.simps)
qed (simp add: weighs.finished)

lemma weighs_plift: "(\<And>x. r = Inr x \<Longrightarrow> weighs c g n (f x)) \<Longrightarrow> weighs c g n (plift r f)"
  by (cases r) (auto intro: weighs.finished)

lemma collection_typed_Inr:
  "collection_typed ctx v n = Inr xs \<longleftrightarrow>
     resolve_value ctx (sort_keys v) = Inr (JArr xs) \<and> length xs \<le> n \<and> 1 \<le> n \<and> n \<le> 100"
  by (auto simp: collection_typed_def rbind_Inr_iff bounded_items_Inr)

lemma step_weighs: "weighs c g (step_weight c g s) (run_step env operations ctx (step_fields_json s))"
proof (induction s arbitrary: ctx)
  case (CallStep i oid args)
  show ?case unfolding run_step_typed call_step_def
    by (intro weighs_plift) (auto intro!: weighs.calls [where m = 0] weighs.finished split: prod.splits)
next
  case (BranchStep i k ts es)
  have "weighs c g (workflow_weight c g ss) (run_workflow env operations ctx (map step_json ss) JNull)"
    if "ss = ts \<or> ss = es" for ss
    using that BranchStep by (intro workflow_weighs) auto
  then have "weighs c g (max (workflow_weight c g ts) (workflow_weight c g es))
      (run_workflow env operations ctx (map step_json ss) JNull)" if "ss = ts \<or> ss = es" for ss
    using that by (metis max.cobounded1 max.cobounded2 weighs_mono)
  then show ?case unfolding run_step_typed
    by (intro weighs_plift) (auto simp: workflow_weight_def simp del: run_workflow_typed)
next
  case (ParallelStep i ss)
  have "weighs c g (step_weight c g s) (run_workflow env operations ctx (map step_json [s]) JNull)"
    if "s \<in> set ss" for s
    using workflow_weighs [of "[s]" c g env operations ctx JNull] ParallelStep that
    by (simp add: workflow_weight_def del: run_workflow.simps run_workflow_typed)
  then have "list_all2 (weighs c g) (map (step_weight c g) ss)
      (map (\<lambda>s. run_workflow env operations ctx (map step_json [s]) JNull) ss)"
    by (simp add: list_all2_conv_all_nth del: run_workflow.simps run_workflow_typed)
  then have "weighs c g (g + sum_list (map (step_weight c g) ss))
      (Gather (map (\<lambda>s. run_workflow env operations ctx (map step_json [s]) JNull) ss) (\<lambda>vs. Finished (Inr (JArr vs))))"
    by (rule weighs.gather [where m = 0]) (auto intro: weighs.finished)
  then show ?case unfolding run_step_typed by (simp add: weighs.finished del: run_workflow.simps run_workflow_typed)
next
  case (ForeachStep i v nm n ss)
  show ?case unfolding run_step_typed
  proof (rule weighs_plift)
    fix items assume "collection_typed ctx v n = Inr items"
    then have n: "length items \<le> n" by (simp add: collection_typed_Inr)
    have "weighs c g (workflow_weight c g ss) (run_workflow env operations ctx' (map step_json ss) JNull)" for ctx'
      using ForeachStep by (intro workflow_weighs) auto
    then have "list_all2 (weighs c g) (replicate (length items) (workflow_weight c g ss))
        (map (\<lambda>item. run_workflow env operations (isolated ctx item) (map step_json ss) JNull) items)"
      by (simp add: list_all2_conv_all_nth del: run_workflow.simps run_workflow_typed)
    moreover have "g + sum_list (replicate (length items) (workflow_weight c g ss)) + 0 \<le> step_weight c g (ForeachStep i v nm n ss)"
      using n by (simp add: sum_list_replicate workflow_weight_def)
    ultimately show "weighs c g (step_weight c g (ForeachStep i v nm n ss))
        (Gather (map (\<lambda>item. run_workflow env operations (isolated ctx item) (map step_json ss) JNull) items)
          (\<lambda>vs. Finished (Inr (JArr vs))))"
      by (intro weighs.gather [where m = 0]) (auto intro: weighs.finished)
  qed
qed (simp_all only: run_step_pure weighs.finished)

section \<open>Conditions\<close>

text \<open>The denotation of a condition, without budgets; every operand is evaluated, as in the code.\<close>

fun operand_value :: "exec_context \<Rightarrow> cond_operand \<Rightarrow> exec_error + json" where
  "operand_value ctx (RefOperand s) = resolve_required_reference ctx (JStr s)"
| "operand_value ctx (LitOperand v) = copy_json ExecStepInvalid (sort_keys v)"

fun condition_value :: "exec_context \<Rightarrow> wcond \<Rightarrow> exec_error + bool" where
  "condition_value ctx (WEq l r) =
     rbind (operand_value ctx l) (\<lambda>x. rbind (operand_value ctx r) (\<lambda>y. Inr (json_equal x y)))"
| "condition_value ctx (WIn i vs) =
     rbind (operand_value ctx i) (\<lambda>x. rbind (operand_value ctx vs) (\<lambda>y.
       case y of JArr ys \<Rightarrow> Inr (list_ex (json_equal x) ys) | _ \<Rightarrow> Inl (ExecutionError ExecStepInvalid)))"
| "condition_value ctx (WAll cs) = rbind (traverse (condition_value ctx) cs) (\<lambda>bs. Inr (list_all (\<lambda>b. b) bs))"
| "condition_value ctx (WAny cs) = rbind (traverse (condition_value ctx) cs) (\<lambda>bs. Inr (list_ex (\<lambda>b. b) bs))"
| "condition_value ctx (WNot c) = rbind (condition_value ctx c) (\<lambda>b. Inr (\<not> b))"

lemma resolve_operand_json [simp]: "resolve_condition_operand ctx (operand_json x) = operand_value ctx x"
  by (cases x) (auto simp: resolve_condition_operand_def get_or_null_def dkeys_def)

lemma condition_depth_le:
  "c \<in> set cs \<Longrightarrow> Max (snd ` (\<lambda>c. condition_size c d) ` set cs) \<le> n \<Longrightarrow> snd (condition_size c d) \<le> n"
  by (rule order_trans [OF Max_ge]) auto

lemma evaluate_conditions_value:
  assumes "\<And>c r. c \<in> set cs \<Longrightarrow> int (fst (condition_size c d)) \<le> r \<Longrightarrow>
      evaluate_condition ctx (condition_json c) d r =
        rbind (condition_value ctx c) (\<lambda>b. Inr (b, r - int (fst (condition_size c d))))"
    and "int (sum_list (map (\<lambda>c. fst (condition_size c d)) cs)) \<le> r"
  shows "evaluate_conditions ctx (map condition_json cs) d r =
     rbind (traverse (condition_value ctx) cs) (\<lambda>bs. Inr (bs, r - int (sum_list (map (\<lambda>c. fst (condition_size c d)) cs))))"
  using assms
proof (induction cs arbitrary: r)
  case (Cons c cs)
  show ?case
  proof (cases "condition_value ctx c")
    case (Inl e)
    with Cons.prems show ?thesis by simp
  next
    case (Inr b)
    with Cons show ?thesis by (cases "traverse (condition_value ctx) cs") (simp_all add: algebra_simps)
  qed
qed simp

text \<open>
  Within the bounds that the model declares, evaluation with a budget is the denotation: the bounds
  \<open>_MAX_CONDITION_DEPTH\<close>, \<open>_MAX_CONDITION_NODES\<close> and the fan-out are never hit.
\<close>

lemma evaluate_condition_value:
  "condition_fanout_ok c \<Longrightarrow> snd (condition_size c d) \<le> 16 \<Longrightarrow> int (fst (condition_size c d)) \<le> r \<Longrightarrow>
   evaluate_condition ctx (condition_json c) d r =
     rbind (condition_value ctx c) (\<lambda>b. Inr (b, r - int (fst (condition_size c d))))"
proof (induction c arbitrary: d r)
  case (WEq l r')
  then show ?case
    by (cases "operand_value ctx l"; cases "operand_value ctx r'")
      (auto simp add: evaluate_condition.simps compare_operands_def get_or_null_def dkeys_def)
next
  case (WIn l r')
  then show ?case
    by (cases "operand_value ctx l"; cases "operand_value ctx r'")
      (auto simp add: evaluate_condition.simps compare_operands_def get_or_null_def dkeys_def split: json.splits)
next
  case (WAll cs)
  have depth: "snd (condition_size c (Suc d)) \<le> 16" if "c \<in> set cs" for c
    using WAll.prems(2) by (intro condition_depth_le [OF that]) (simp add: Let_def)
  have "d < 16"
  proof -
    obtain c where c: "c \<in> set cs" "condition_fanout_ok c" using WAll.prems(1) by (cases cs) auto
    show ?thesis using condition_size_depth [OF c(2), of "Suc d"] depth [OF c(1)] by simp
  qed
  have "evaluate_conditions ctx (map condition_json cs) (Suc d) (r - 1) =
     rbind (traverse (condition_value ctx) cs)
       (\<lambda>bs. Inr (bs, r - 1 - int (sum_list (map (\<lambda>c. fst (condition_size c (Suc d))) cs))))"
    by (rule evaluate_conditions_value) (use WAll depth in \<open>auto simp: Let_def comp_def\<close>)
  with WAll.prems \<open>d < 16\<close> show ?case
    by (cases "traverse (condition_value ctx) cs")
      (auto simp: evaluate_condition.simps get_or_null_def dkeys_def Let_def comp_def algebra_simps)
next
  case (WAny cs)
  have depth: "snd (condition_size c (Suc d)) \<le> 16" if "c \<in> set cs" for c
    using WAny.prems(2) by (intro condition_depth_le [OF that]) (simp add: Let_def)
  have "d < 16"
  proof -
    obtain c where c: "c \<in> set cs" "condition_fanout_ok c" using WAny.prems(1) by (cases cs) auto
    show ?thesis using condition_size_depth [OF c(2), of "Suc d"] depth [OF c(1)] by simp
  qed
  have "evaluate_conditions ctx (map condition_json cs) (Suc d) (r - 1) =
     rbind (traverse (condition_value ctx) cs)
       (\<lambda>bs. Inr (bs, r - 1 - int (sum_list (map (\<lambda>c. fst (condition_size c (Suc d))) cs))))"
    by (rule evaluate_conditions_value) (use WAny depth in \<open>auto simp: Let_def comp_def\<close>)
  with WAny.prems \<open>d < 16\<close> show ?case
    by (cases "traverse (condition_value ctx) cs")
      (auto simp: evaluate_condition.simps get_or_null_def dkeys_def Let_def comp_def algebra_simps)
next
  case (WNot c)
  obtain n m where nm: "condition_size c (Suc d) = (n, m)" by force
  with WNot.prems have "m \<le> 16" "1 + int n \<le> r" "condition_fanout_ok c" by (auto simp: Let_def)
  moreover have "Suc d \<le> m" using condition_size_depth [of c "Suc d"] calculation(3) nm by simp
  ultimately show ?case using WNot.IH [of "Suc d" "r - 1"] nm
    by (cases "condition_value ctx c")
      (auto simp: evaluate_condition.simps get_or_null_def dkeys_def Let_def)
qed

lemma accepted_condition_value:
  assumes "branch_cond_ok k"
  shows "evaluate_condition ctx (branch_cond_json k) 1 64 =
     (case k of
        CondRef s \<Rightarrow> rbind (resolve_required_reference ctx (JStr s)) (\<lambda>v. Inr (truthy v, 64))
      | CondTree c \<Rightarrow> rbind (condition_value ctx c) (\<lambda>b. Inr (b, 64 - int (fst (condition_size c 1)))))"
proof (cases k)
  case (CondTree c)
  with assms show ?thesis
    using evaluate_condition_value [of c 1 64 ctx] by (auto simp: Let_def split: prod.splits)
qed (simp add: evaluate_condition.simps)

section \<open>Checked workflows do not go wrong\<close>

text \<open>
  \<open>step_plain\<close>: no \<open>in\<close> condition, whose operand may turn out not to be an array, and only finite
  literals. Such steps never fail as malformed.
\<close>

fun operand_plain :: "cond_operand \<Rightarrow> bool" where
  "operand_plain (RefOperand s) = True"
| "operand_plain (LitOperand v) = json_finite v"

fun condition_plain :: "wcond \<Rightarrow> bool" where
  "condition_plain (WEq l r) = (operand_plain l \<and> operand_plain r)"
| "condition_plain (WIn l r) = False"
| "condition_plain (WAll cs) = (\<forall>c \<in> set cs. condition_plain c)"
| "condition_plain (WAny cs) = (\<forall>c \<in> set cs. condition_plain c)"
| "condition_plain (WNot c) = condition_plain c"

fun branch_cond_plain :: "branch_cond \<Rightarrow> bool" where
  "branch_cond_plain (CondRef s) = True"
| "branch_cond_plain (CondTree c) = condition_plain c"

fun step_plain :: "step \<Rightarrow> bool" where
  "step_plain (CallStep i oid args) = json_finite (JObj args)"
| "step_plain (PickStep i v fs) = json_finite v"
| "step_plain (MapStep i v e n) = json_finite v"
| "step_plain (FilterStep i v e n) = json_finite v"
| "step_plain (AssertStep i e m) = True"
| "step_plain (RedactStep i v fs) = json_finite v"
| "step_plain (BranchStep i c ts es) =
     (branch_cond_plain c \<and> (\<forall>s \<in> set ts. step_plain s) \<and> (\<forall>s \<in> set es. step_plain s))"
| "step_plain (ParallelStep i ss) = (\<forall>s \<in> set ss. step_plain s)"
| "step_plain (ForeachStep i v nm n ss) = (json_finite v \<and> (\<forall>s \<in> set ss. step_plain s))"
| "step_plain (EmitStep i v) = json_finite v"

definition checked_error :: "bool \<Rightarrow> exec_error \<Rightarrow> bool" where
  "checked_error strict e \<longleftrightarrow>
     e \<notin> {ExecutionError ExecReferenceInvalid, ExecutionError ExecOperationNotFound,
            ExecutionError ExecFinalEmitRequired, ExecutionError ExecCapabilityNotFound, ExecTypeError} \<and>
     (strict \<longrightarrow> e \<noteq> ExecutionError ExecStepInvalid)"

text \<open>A string of a value passes the reference check in a scope without \<open>$.prepared\<close>.\<close>

definition reference_ok :: "reference_scope \<Rightarrow> string \<Rightarrow> bool" where
  "reference_ok sc s \<longleftrightarrow>
     (case match_reference s of
        None \<Rightarrow> \<not> looks_dynamic s
      | Some InputBase \<Rightarrow> True
      | Some ItemBase \<Rightarrow> allow_item sc
      | Some PreparedBase \<Rightarrow> False
      | Some (StepBase st) \<Rightarrow> st \<in> available_steps sc)"

definition context_fits :: "reference_scope \<Rightarrow> exec_context \<Rightarrow> bool" where
  "context_fits sc ctx \<longleftrightarrow>
     json_finite (ctx_input ctx) \<and> (allow_item sc \<longrightarrow> ctx_item ctx \<noteq> None) \<and>
     (\<forall>v. ctx_item ctx = Some v \<longrightarrow> json_finite v) \<and>
     (\<forall>st \<in> available_steps sc. dget (ctx_steps ctx) st \<noteq> None) \<and>
     (\<forall>st v. dget (ctx_steps ctx) st = Some v \<longrightarrow> json_finite v)"

fun all_strings :: "(string \<Rightarrow> bool) \<Rightarrow> json \<Rightarrow> bool" where
  "all_strings P (JStr s) = P s"
| "all_strings P (JArr xs) = (\<forall>x \<in> set xs. all_strings P x)"
| "all_strings P (JObj fs) = (\<forall>p \<in> set fs. all_strings P (snd p))"
| "all_strings P v = True"

lemma all_strings_sort_keys [simp]: "all_strings P (sort_keys v) = all_strings P v"
  by (induction v) (auto simp: snds.simps)

lemma validate_reference_ok:
  "validate_reference sc req pointer s = [] \<Longrightarrow> \<not> allow_prepared sc \<Longrightarrow>
     reference_ok sc s \<and> (req \<longrightarrow> match_reference s \<noteq> None)"
  by (auto simp: validate_reference_def reference_ok_def split: option.splits reference_base.splits if_splits)

lemma validate_value_ok:
  "validate_value sc req pointer v = [] \<Longrightarrow> \<not> allow_prepared sc \<Longrightarrow> all_strings (reference_ok sc) v"
  "validate_items sc pointer i xs = [] \<Longrightarrow> \<not> allow_prepared sc \<Longrightarrow> \<forall>x \<in> set xs. all_strings (reference_ok sc) x"
  "validate_fields sc pointer fs = [] \<Longrightarrow> \<not> allow_prepared sc \<Longrightarrow> \<forall>p \<in> set fs. all_strings (reference_ok sc) (snd p)"
  by (induction sc req pointer v and sc pointer i xs and sc pointer fs
      rule: validate_value_validate_items_validate_fields.induct) (auto dest: validate_reference_ok)

lemma match_reference_parse:
  "match_reference s = None \<Longrightarrow> parse_reference s = None"
  "match_reference s = Some InputBase \<Longrightarrow> \<exists>p. parse_reference s = Some (InputRef p)"
  "match_reference s = Some ItemBase \<Longrightarrow> \<exists>p. parse_reference s = Some (ItemRef p)"
  "match_reference s = Some (StepBase st) \<Longrightarrow> \<exists>p. parse_reference s = Some (StepRef st p)"
  by (auto simp: match_reference_def parse_reference_def split: list.splits if_splits)

lemma reference_resolves:
  assumes "reference_ok sc s" "context_fits sc ctx" "parse_reference s = Some r"
  shows "\<exists>v. reference_root ctx r = Some v \<and> json_finite v"
proof (cases "match_reference s")
  case None
  with assms(3) match_reference_parse(1) show ?thesis by simp
next
  case (Some b)
  then show ?thesis
    using assms match_reference_parse(2-4) [of s]
    by (cases b) (fastforce simp: reference_ok_def context_fits_def)+
qed

lemma walk_path_error: "walk_path v ss = Inl e \<Longrightarrow> e = ExecutionError ExecReferenceUnavailable"
  by (induction v ss rule: walk_path.induct) (auto split: option.splits)

lemma resolve_match_error:
  "reference_root ctx r = Some v \<Longrightarrow> json_finite v \<Longrightarrow> resolve_match ctx r = Inl e \<Longrightarrow>
     e = ExecutionError ExecReferenceUnavailable"
  by (auto simp: resolve_match_def rbind_Inl_iff copy_json_eq dest: walk_path_error walk_path_cases split: if_splits)

lemma traverse_Inl: "traverse f xs = Inl e \<Longrightarrow> \<exists>x \<in> set xs. f x = Inl e"
  by (induction xs) (auto simp: rbind_Inl_iff)

lemma resolve_value_checked:
  "all_strings (reference_ok sc) v \<Longrightarrow> context_fits sc ctx \<Longrightarrow> (strict \<longrightarrow> json_finite v) \<Longrightarrow>
     resolve_value ctx v = Inl e \<Longrightarrow> checked_error strict e"
proof (induction v)
  case (JStr s)
  show ?case
  proof (cases "parse_reference s")
    case None
    have "match_reference s = None"
      using None match_reference_parse(2-4) [of s] JStr.prems(1)
      by (cases "match_reference s") (auto simp: reference_ok_def split: reference_base.splits)
    with None JStr.prems show ?thesis by (simp add: reference_ok_def)
  next
    case (Some r)
    with reference_resolves [OF _ JStr.prems(2) Some] JStr.prems show ?thesis
      by (auto simp: checked_error_def dest: resolve_match_error)
  qed
next
  case (JArr xs)
  then obtain x where "x \<in> set xs" "resolve_value ctx x = Inl e" by (auto simp: rbind_Inl_iff dest: traverse_Inl)
  with JArr show ?case by auto
next
  case (JObj fs)
  then have "traverse (\<lambda>p. rbind (resolve_value ctx (snd p)) (\<lambda>w. Inr (fst p, w))) fs = Inl e"
    by (auto simp: rbind_Inl_iff)
  from traverse_Inl [OF this] obtain p where p: "p \<in> set fs" "resolve_value ctx (snd p) = Inl e"
    by (auto simp: rbind_Inl_iff)
  show ?case by (rule JObj.IH [OF p(1) _ _ JObj.prems(2) _ p(2)]) (use JObj.prems p in \<open>auto simp: snds.simps\<close>)
qed (auto simp: copy_json_eq checked_error_def split: if_splits)

lemma required_reference_checked:
  assumes "validate_value sc True pointer (JStr s) = []" "\<not> allow_prepared sc" "context_fits sc ctx"
    "resolve_required_reference ctx (JStr s) = Inl e"
  shows "checked_error strict e"
proof -
  from assms have ok: "reference_ok sc s" "match_reference s \<noteq> None"
    using validate_reference_ok [of sc True pointer s] by auto
  then have "parse_reference s \<noteq> None"
    using match_reference_parse(2-4) [of s]
    by (cases "match_reference s") (auto simp: reference_ok_def split: reference_base.splits)
  with assms(4) have "resolve_value ctx (JStr s) = Inl e"
    by (simp add: resolve_required_reference_def del: resolve_value.simps)
  from resolve_value_checked [OF _ assms(3) _ this] ok(1) show ?thesis by simp
qed

lemma operand_checked:
  assumes "validate_operand sc pointer x = []" "\<not> allow_prepared sc" "context_fits sc ctx"
    "strict \<longrightarrow> operand_plain x" "operand_value ctx x = Inl e"
  shows "checked_error strict e"
  using assms required_reference_checked [of sc _ _ ctx e strict]
  by (cases x) (auto simp: copy_json_eq checked_error_def split: if_splits)

lemma condition_checked:
  "validate_condition sc pointer c = [] \<Longrightarrow> \<not> allow_prepared sc \<Longrightarrow> context_fits sc ctx \<Longrightarrow>
     strict \<longrightarrow> condition_plain c \<Longrightarrow> condition_value ctx c = Inl e \<Longrightarrow> checked_error strict e"
  "validate_conditions sc pointer i cs = [] \<Longrightarrow> \<not> allow_prepared sc \<Longrightarrow> context_fits sc ctx \<Longrightarrow>
     strict \<longrightarrow> (\<forall>c \<in> set cs. condition_plain c) \<Longrightarrow> c' \<in> set cs \<Longrightarrow> condition_value ctx c' = Inl e \<Longrightarrow>
     checked_error strict e"
proof (induction sc pointer c and sc pointer i cs arbitrary: e and c' e rule: validate_condition_validate_conditions.induct)
  case (1 sc pointer l r)
  then show ?case by (auto simp: rbind_Inl_iff dest: operand_checked [where strict = strict])
next
  case (2 sc pointer l r)
  then show ?case
    by (auto simp: rbind_Inl_iff checked_error_def dest: operand_checked [where strict = False] split: json.splits)
      (metis json.exhaust)+
next
  case (3 sc pointer cs)
  then obtain c where "c \<in> set cs" "condition_value ctx c = Inl e" by (auto simp: rbind_Inl_iff dest: traverse_Inl)
  with 3 show ?case by auto
next
  case (4 sc pointer cs)
  then obtain c where "c \<in> set cs" "condition_value ctx c = Inl e" by (auto simp: rbind_Inl_iff dest: traverse_Inl)
  with 4 show ?case by auto
next
  case (5 sc pointer c)
  then have "condition_value ctx c = Inl e" by (auto simp: rbind_Inl_iff)
  with 5 show ?case by auto
qed auto

lemma branch_condition_checked:
  assumes "validate_branch_condition sc pointer k = []" "\<not> allow_prepared sc" "context_fits sc ctx"
    "strict \<longrightarrow> branch_cond_plain k" "branch_cond_ok k" "evaluate_condition ctx (branch_cond_json k) 1 64 = Inl e"
  shows "checked_error strict e"
proof (cases k)
  case (CondRef s)
  with assms(6) accepted_condition_value [OF assms(5), of ctx, symmetric] have "resolve_required_reference ctx (JStr s) = Inl e"
    by (simp add: rbind_Inl_iff)
  with CondRef assms(1-3) show ?thesis by (auto intro: required_reference_checked)
next
  case (CondTree c)
  with assms(6) accepted_condition_value [OF assms(5), of ctx, symmetric] have "condition_value ctx c = Inl e"
    by (simp add: rbind_Inl_iff)
  with CondTree assms(1-4) show ?thesis by (intro condition_checked(1) [of sc pointer c ctx strict e]) simp_all
qed

end
