(* ===== verification/WorkflowSoundness.thy ===== *)
theory WorkflowSoundness
  imports WorkflowRuns
begin

text \<open>
  A workflow that passes the compiler's reference check, run by the executor over the operations it was
  checked against, does not end with an invalid reference, an unknown operation or a malformed step.
\<close>

section \<open>Steps\<close>

text \<open>The check only adds diagnostics, so none at the end means none anywhere.\<close>

lemma diagnostics_report [simp]: "diagnostics (report ds st) = diagnostics st @ ds"
  by (simp add: report_def)

lemma diagnostics_register: "\<exists>ds. diagnostics (register_step_id i pointer st) = diagnostics st @ ds"
  by (auto simp: register_step_id_def split: option.splits)

lemma diagnostics_register_append [simp]:
  "\<exists>ds. diagnostics (register_step_id i pointer st) @ xs = diagnostics st @ ds"
  using diagnostics_register [of i pointer st] by auto

lemma diagnostics_grow:
  "\<exists>ds. diagnostics (validate_step tab sc pointer s st) = diagnostics st @ ds"
  "\<exists>ds. diagnostics (validate_workflow tab sc pointer i ss st) = diagnostics st @ ds"
  "\<exists>ds. diagnostics (validate_children tab sc pointer i ss st) = diagnostics st @ ds"
proof (induction tab sc pointer s st and tab sc pointer i ss st and tab sc pointer i ss st
    rule: validate_step_validate_workflow_validate_children.induct)
  case (1 tab sc pointer i oid args st)
  then show ?case using diagnostics_register [of i pointer st] by auto
next
  case (7 tab sc pointer i c ts es st)
  then show ?case using diagnostics_register [of i pointer st] by (metis append_assoc diagnostics_report validate_step.simps(7))
next
  case (8 tab sc pointer i ss st)
  then show ?case using diagnostics_register [of i pointer st] by (metis append_assoc validate_step.simps(8))
next
  case (9 tab sc pointer i v nm n ss st)
  then show ?case using diagnostics_register [of i pointer st] by (metis append_assoc diagnostics_report validate_step.simps(9))
next
  case (12 tab sc pointer i s ss st)
  then show ?case by (metis append_assoc validate_workflow.simps(2))
next
  case (14 tab sc pointer i s ss st)
  then show ?case by (metis append_assoc validate_children.simps(2))
qed simp_all

lemma diagnostics_none:
  "diagnostics (validate_workflow tab sc pointer i ss st) = [] \<Longrightarrow> diagnostics st = []"
  "diagnostics (validate_children tab sc pointer i ss st) = [] \<Longrightarrow> diagnostics st = []"
  "diagnostics (register_step_id j pointer st) = [] \<Longrightarrow> diagnostics st = []"
  using diagnostics_grow diagnostics_register by (metis append_is_Nil_conv)+

definition operations_fit :: "operation_table \<Rightarrow> (string, json) dict \<Rightarrow> bool" where
  "operations_fit tab operations \<longleftrightarrow> (\<forall>oid \<in> known_operations tab. \<exists>op. dget operations oid = Some (JObj op))"

lemma context_fits_item: "context_fits sc ctx \<Longrightarrow> json_finite v \<Longrightarrow> context_fits (with_item sc) (isolated ctx v)"
  by (simp add: context_fits_def with_item_def isolated_def)

lemma context_fits_step: "context_fits sc ctx \<Longrightarrow> json_finite v \<Longrightarrow> context_fits (with_step i sc) (keep_typed i ctx v)"
  by (cases i) (auto simp: context_fits_def with_step_def)

lemma with_scope_simps [simp]:
  "allow_prepared (with_item sc) = allow_prepared sc" "allow_prepared (with_step i sc) = allow_prepared sc"
  by (auto simp: with_item_def with_step_def split: option.splits)

lemma value_checked:
  assumes "validate_value sc False pointer v = []" "\<not> allow_prepared sc" "context_fits sc ctx"
    "strict \<longrightarrow> json_finite v" "resolve_value ctx (sort_keys v) = Inl e"
  shows "checked_error strict e"
proof (rule resolve_value_checked [OF _ assms(3) _ assms(5)])
  show "all_strings (reference_ok sc) (sort_keys v)" using validate_value_ok(1) [OF assms(1,2)] by simp
qed (use assms(4) in simp)

lemma bounded_items_Inl: "bounded_items v (JInt n) = Inl e \<Longrightarrow> checked_error strict e"
  by (cases v) (auto simp: bounded_items_def checked_error_def split: if_splits)

lemma required_mapping_Inl: "required_mapping code v = Inl e \<Longrightarrow> e = ExecutionError code"
  by (cases v) (auto simp: required_mapping_def)

lemma collection_checked:
  assumes "validate_value sc False pointer v = []" "\<not> allow_prepared sc" "context_fits sc ctx"
    "strict \<longrightarrow> json_finite v" "collection_typed ctx v n = Inl e"
  shows "checked_error strict e"
  using assms(5) value_checked [OF assms(1-4)]
  by (auto simp: collection_typed_def rbind_Inl_iff dest: bounded_items_Inl)

lemma collection_of_typed:
  "collection_of ctx [(''items'', sort_keys v), (''max_items'', JInt (int n))] = collection_typed ctx v n"
  "collection_of ctx [(k, w), (''items'', sort_keys v), (''max_items'', JInt (int n))] = collection_typed ctx v n"
  if "k \<noteq> ''items''" "k \<noteq> ''max_items''"
  using that by (auto simp: collection_of_def collection_typed_def get_or_null_def)

lemma checked_error_value: "checked_error strict (ExecutionError ExecValueTypeInvalid)"
  "checked_error strict (ExecutionError ExecAssertionFailed)" "checked_error strict (ExecutionError ExecBoundExceeded)"
  "checked_error strict (ExecutionError ExecIrInvalid)" "checked_error strict (ExecutionError ExecOperationInputInvalid)"
  "checked_error strict (ExecutionError ExecOperationOutputInvalid)" "checked_error strict (ExecutionError ExecOperationFailed)"
  "checked_error strict (RuntimeRaised s)" "checked_error strict ExecCancelled"
  by (simp_all add: checked_error_def)

lemma names_string_list: "names_ok fs \<Longrightarrow> required_string_list (JArr (map JStr fs)) = Inr fs"
  by (auto simp: required_string_list_def names_ok_def list_all_iff comp_def)

lemma pick_checked:
  assumes "validate_value sc False pointer v = []" "\<not> allow_prepared sc" "context_fits sc ctx"
    "strict \<longrightarrow> json_finite v" "names_ok fs"
    "pick_step ctx (JObj [(''fields'', JArr (map JStr fs)), (''value'', sort_keys v)]) = Inl e \<or>
     redact_step ctx (JObj [(''fields'', JArr (map JStr fs)), (''value'', sort_keys v)]) = Inl e"
  shows "checked_error strict e"
  using assms(6) value_checked [OF assms(1-4)]
  by (auto simp: pick_step_def redact_step_def get_or_null_def names_string_list [OF assms(5)] rbind_Inl_iff
      checked_error_value dest!: required_mapping_Inl)

lemma map_checked:
  assumes "validate_value sc False pointer v = []" "validate_value (with_item sc) True pointer' (JStr x) = []"
    "\<not> allow_prepared sc" "context_fits sc ctx" "strict \<longrightarrow> json_finite v"
    "map_step ctx (JObj [(''expression'', JStr x), (''items'', sort_keys v), (''max_items'', JInt (int n))]) = Inl e \<or>
     filter_step ctx (JObj [(''condition'', JStr x), (''items'', sort_keys v), (''max_items'', JInt (int n))]) = Inl e"
  shows "checked_error strict e"
proof (cases "collection_typed ctx v n")
  case (Inl e')
  with assms(6) have "e = e'"
    by (auto simp: map_step_def filter_step_def collection_of_typed)
  with Inl collection_checked [OF assms(1,3-5)] show ?thesis by blast
next
  case (Inr items)
  with assms(6) obtain item where "item \<in> set items" "resolve_required_reference (isolated ctx item) (JStr x) = Inl e"
    by (auto simp: map_step_def filter_step_def collection_of_typed get_or_null_def rbind_Inl_iff dest!: traverse_Inl)
  moreover have "json_finite item" if "item \<in> set items" for item
    using Inr that resolve_value_finite [of ctx "sort_keys v" "JArr items"] by (auto simp: collection_typed_Inr)
  ultimately show ?thesis
    using required_reference_checked [OF assms(2) _ context_fits_item [OF assms(4)]] assms(3) by auto
qed

lemma validate_schema_Inl: "validate_schema env code raw v = Inl e \<Longrightarrow> e \<in> {ExecutionError ExecIrInvalid, ExecutionError code}"
  by (auto simp: validate_schema_def rbind_Inl_iff dest: required_mapping_Inl split: if_splits)

lemma call_result_checked: "call_result env op r = Inl e \<Longrightarrow> checked_error strict e"
  by (cases r) (auto simp: call_result_def rbind_Inl_iff copy_json_eq checked_error_value
      dest!: validate_schema_Inl split: if_splits)

lemma call_step_checked:
  assumes "validate_call tab sc pointer oid args = []" "\<not> allow_prepared sc" "context_fits sc ctx"
    "strict \<longrightarrow> json_finite (JObj args)" "oid \<noteq> []" "operations_fit tab operations"
  shows "safe (call_checked env operations) (checked_error strict) json_finite
    (call_step env operations ctx (JObj [(''arguments'', sort_keys (JObj args)), (''operation'', JStr oid)]))"
proof -
  from assms(1) have v: "validate_value sc False (pointer @ ''/call/arguments'') (JObj args) = []"
    and "oid \<in> known_operations tab" by (auto simp: validate_call_def split: if_splits)
  then obtain op where op: "get_or_null operations oid = JObj op"
    using assms(6) by (auto simp: operations_fit_def)
  let ?action = "[(''arguments'', sort_keys (JObj args)), (''operation'', JStr oid)]"
  have arguments: "get_or_null ?action ''arguments'' = sort_keys (JObj args)"
    by (simp add: get_or_null_def)
  have "checked_error strict e" if "check_arguments env op ctx ?action = Inl e" for e
    using that value_checked [OF v assms(2-4)]
    unfolding check_arguments_def arguments rbind_Inl_iff
    by (auto simp: copy_json_eq checked_error_value simp del: sort_keys.simps
        dest!: required_mapping_Inl validate_schema_Inl split: if_splits)
  then have "checked_error strict e" if "prepare_call env operations ctx (JObj ?action) = Inl e" for e
    using that assms(5) op
    by (auto simp: prepare_call_def operation_id_of_def get_or_null_def rbind_Inl_iff simp del: sort_keys.simps)
  moreover have "safe (call_checked env operations) (checked_error strict) json_finite
      (Calls oid' op' a (\<lambda>r. Finished (call_result env op' r)))" if "call_checked env operations oid' op' a" for oid' op' a
    using that by (intro safe.calls) (auto simp: safe_Finished call_result_finite call_result_checked)
  ultimately show ?thesis
    unfolding call_step_def by (intro safe_plift) (auto dest: prepare_call_Inr)
qed

abbreviation checked_run :: "exec_env \<Rightarrow> (string, json) dict \<Rightarrow> bool \<Rightarrow> proc \<Rightarrow> bool" where
  "checked_run env operations strict \<equiv> safe (call_checked env operations) (checked_error strict) json_finite"

lemma gather_checked:
  "(\<And>p. p \<in> set ps \<Longrightarrow> checked_run env operations strict p) \<Longrightarrow>
     checked_run env operations strict (Gather ps (\<lambda>vs. Finished (Inr (JArr vs))))"
  by (rule safe_gather_finite)

text \<open>A step whose check adds no diagnostic, in a context that fits, runs without the excluded errors.\<close>

lemma steps_checked:
  "diagnostics (validate_step tab sc pointer s st) = [] \<Longrightarrow> step_ok s \<Longrightarrow> strict \<longrightarrow> step_plain s \<Longrightarrow>
     \<not> allow_prepared sc \<Longrightarrow> operations_fit tab operations \<Longrightarrow> context_fits sc ctx \<Longrightarrow>
     checked_run env operations strict (run_step env operations ctx (step_fields_json s))"
  "diagnostics (validate_workflow tab sc pointer i ss st) = [] \<Longrightarrow> \<forall>s \<in> set ss. step_ok s \<Longrightarrow>
     strict \<longrightarrow> (\<forall>s \<in> set ss. step_plain s) \<Longrightarrow> \<not> allow_prepared sc \<Longrightarrow> operations_fit tab operations \<Longrightarrow>
     context_fits sc ctx \<Longrightarrow> json_finite v \<Longrightarrow>
     checked_run env operations strict (run_workflow env operations ctx (map step_json ss) v)"
  "diagnostics (validate_children tab sc pointer i ss st) = [] \<Longrightarrow> \<forall>s \<in> set ss. step_ok s \<Longrightarrow>
     strict \<longrightarrow> (\<forall>s \<in> set ss. step_plain s) \<Longrightarrow> \<not> allow_prepared sc \<Longrightarrow> operations_fit tab operations \<Longrightarrow>
     context_fits sc ctx \<Longrightarrow> \<forall>s \<in> set ss.
     checked_run env operations strict (run_workflow env operations ctx (map step_json [s]) JNull)"
proof (induction tab sc pointer s st and tab sc pointer i ss st and tab sc pointer i ss st
    arbitrary: ctx and ctx v and ctx rule: validate_step_validate_workflow_validate_children.induct)
  case (1 tab sc pointer i oid args st)
  then show ?case unfolding run_step_typed by (intro call_step_checked [of tab sc pointer]) auto
next
  case (2 tab sc pointer i v fs st)
  then show ?case unfolding run_step_pure
    by (auto simp: safe_Finished dest: pick_checked step_results_finite(1))
next
  case (3 tab sc pointer i v x n st)
  then show ?case unfolding run_step_pure
    by (auto simp: safe_Finished simp del: validate_value.simps dest: map_checked step_results_finite(3))
next
  case (4 tab sc pointer i v x n st)
  then show ?case unfolding run_step_pure
    by (auto simp: safe_Finished simp del: validate_value.simps dest: map_checked step_results_finite(4))
next
  case (5 tab sc pointer i x m st)
  then show ?case unfolding run_step_pure safe_Finished assert_step_def
    by (auto simp: rbind_Inl_iff rbind_Inr_iff get_or_null_def checked_error_value simp del: validate_value.simps
        dest: required_reference_checked split: if_splits)
next
  case (6 tab sc pointer i v fs st)
  then show ?case unfolding run_step_pure
    by (auto simp: safe_Finished dest: pick_checked step_results_finite(2))
next
  case (7 tab sc pointer i c ts es st)
  let ?st1 = "report (validate_branch_condition sc (pointer @ ''/branch/condition'') c) (register_step_id i pointer st)"
  let ?st2 = "validate_workflow tab sc (pointer @ ''/branch/then'') 0 ts ?st1"
  from 7(3) have d: "diagnostics (validate_workflow tab sc (pointer @ ''/branch/else'') 0 es ?st2) = []" by simp
  from diagnostics_none(1) [OF d] have d2: "diagnostics ?st2 = []" .
  from diagnostics_none(1) [OF d2] have d1: "validate_branch_condition sc (pointer @ ''/branch/condition'') c = []" by simp
  have "checked_run env operations strict (run_workflow env operations ctx (map step_json ts) JNull)"
    by (rule 7(1) [OF d2]) (use 7 in auto)
  moreover have "checked_run env operations strict (run_workflow env operations ctx (map step_json es) JNull)"
    by (rule 7(2) [OF d]) (use 7 in auto)
  moreover have "checked_error strict e" if "evaluate_condition ctx (branch_cond_json c) 1 64 = Inl e" for e
    by (rule branch_condition_checked [OF d1 _ _ _ _ that]) (use 7 in auto)
  ultimately show ?case unfolding run_step_typed
    by (intro safe_plift) (auto split: prod.splits simp del: run_workflow_typed run_workflow.simps)
next
  case (8 tab sc pointer i ss st)
  then have "\<forall>s \<in> set ss. checked_run env operations strict (run_workflow env operations ctx (map step_json [s]) JNull)"
    by (intro 8(1)) auto
  with 8 show ?case unfolding run_step_typed
    by (auto intro!: gather_checked simp: safe_Finished checked_error_value simp del: run_workflow_typed run_workflow.simps)
next
  case (9 tab sc pointer i v nm n ss st)
  let ?st1 = "report (validate_value sc False (pointer @ ''/foreach/items'') v) (register_step_id i pointer st)"
  from 9(2) have d: "diagnostics (validate_workflow tab (with_item sc) (pointer @ ''/foreach/workflow'') 0 ss ?st1) = []" by simp
  from diagnostics_none(1) [OF d] have d1: "validate_value sc False (pointer @ ''/foreach/items'') v = []" by simp
  have body: "checked_run env operations strict (run_workflow env operations (isolated ctx w) (map step_json ss) JNull)"
    if "json_finite w" for w
    by (rule 9(1) [OF d]) (use 9 that in \<open>auto intro: context_fits_item\<close>)
  have "json_finite w" if "collection_typed ctx v n = Inr items" "w \<in> set items" for items w
    using that resolve_value_finite [of ctx "sort_keys v" "JArr items"] by (auto simp: collection_typed_Inr)
  with body show ?case unfolding run_step_typed
    by (intro safe_plift gather_checked)
      (use collection_checked [OF d1] 9 in \<open>auto simp del: run_workflow_typed run_workflow.simps\<close>)
next
  case (10 tab sc pointer i v st)
  then show ?case unfolding run_step_pure
    by (auto simp: safe_Finished dest: value_checked resolve_value_finite)
next
  case (12 tab sc pointer i s ss st)
  from 12(3) have d: "diagnostics (validate_workflow tab (with_step (step_id s) sc) pointer (Suc i) ss
      (validate_step tab sc (at_index pointer i) s st)) = []" by simp
  from diagnostics_none(1) [OF d] have d1: "diagnostics (validate_step tab sc (at_index pointer i) s st) = []" .
  have "checked_run env operations strict (run_step env operations ctx (step_fields_json s))"
    by (rule 12(1) [OF d1]) (use 12 in auto)
  moreover have "checked_run env operations strict
      (run_workflow env operations (keep_typed (step_id s) ctx w) (map step_json ss) w)" if "json_finite w" for w
    by (rule 12(2) [OF d]) (use 12 that in \<open>auto intro: context_fits_step\<close>)
  ultimately show ?case unfolding run_workflow_typed by (rule safe_pbind)
next
  case (14 tab sc pointer i s ss st)
  from 14(3) have d: "diagnostics (validate_children tab sc pointer (Suc i) ss
      (validate_step tab sc (at_index pointer i) s st)) = []" by simp
  from diagnostics_none(2) [OF d] have d1: "diagnostics (validate_step tab sc (at_index pointer i) s st) = []" .
  have "checked_run env operations strict (run_step env operations ctx (step_fields_json s))"
    by (rule 14(1) [OF d1]) (use 14 in auto)
  then have "checked_run env operations strict (run_workflow env operations ctx (map step_json [s]) JNull)"
    unfolding run_workflow_typed by (rule safe_pbind) (simp add: safe_Finished)
  moreover have "\<forall>s \<in> set ss. checked_run env operations strict (run_workflow env operations ctx (map step_json [s]) JNull)"
    by (rule 14(2) [OF d]) (use 14 in auto)
  ultimately show ?case by (simp del: run_workflow_typed run_workflow.simps)
qed (simp_all add: safe_Finished)

end
