(* ===== verification/ExecuteWorkflow.thy ===== *)
theory ExecuteWorkflow
  imports WorkflowSoundness
begin

text \<open>
  The whole execution of a compiled workflow: what a run may call and return, which errors a checked
  workflow excludes, how many calls and moves it makes, and the operation scopes it uses.
\<close>

section \<open>Workflows in the IR\<close>

text \<open>The IR holds workflow \<open>ss\<close> as capability \<open>cid\<close>, and these operations.\<close>

definition holds_workflow :: "(string, json) dict \<Rightarrow> string \<Rightarrow> step list \<Rightarrow> (string, json) dict \<Rightarrow> bool" where
  "holds_workflow ir cid ss operations \<longleftrightarrow>
     (case capability_definition ir cid of
        Inl _ \<Rightarrow> False
      | Inr cap \<Rightarrow> dget cap ''workflow'' = Some (JArr (map step_json ss))) \<and>
     dget ir ''operations'' = Some (JObj operations)"

lemma ends_with_emit_typed:
  assumes "ss \<noteq> []" "is_emit (last ss)"
  shows "ends_with_emit (map step_json ss)"
proof -
  have "last (map step_json ss) = step_json (last ss)" using assms(1) by (rule last_map)
  with assms show ?thesis by (cases "last ss") (simp_all add: ends_with_emit_def)
qed

lemma execute_workflow:
  assumes "holds_workflow ir cid ss operations" "prepare_execution env ir cid input = Inr q"
  shows "\<exists>cap. execute env ir cid input =
     pbind (run_workflow env operations \<lparr>ctx_input = input, ctx_steps = [], ctx_item = None\<rparr> (map step_json ss) JNull)
       (\<lambda>result. Finished (checked_output env cap result)) \<and> json_finite input"
proof -
  obtain safe cap ws ops where q: "q = (safe, cap, ws, ops)" by (cases q)
  from assms(2) have p: "copy_json ExecInputInvalid input = Inr safe" "capability_definition ir cid = Inr cap"
    "required_list ExecIrInvalid (get_or_null cap ''workflow'') = Inr ws"
    "required_mapping ExecIrInvalid (get_or_null ir ''operations'') = Inr ops"
    unfolding prepare_execution_def q by (auto elim!: rbind_InrE split: if_splits)
  from p(1) have "safe = input" "json_finite input" by (auto simp: copy_json_eq split: if_splits)
  moreover from p(2-4) assms(1) have "ws = map step_json ss" "ops = operations"
    by (auto simp: holds_workflow_def)
  ultimately have "execute env ir cid input =
     pbind (run_workflow env operations \<lparr>ctx_input = input, ctx_steps = [], ctx_item = None\<rparr> (map step_json ss) JNull)
       (\<lambda>result. Finished (checked_output env cap result))"
    using assms(2) q by (simp add: execute_def)
  with \<open>json_finite input\<close> show ?thesis by blast
qed

lemma prepare_execution_Inl:
  assumes "holds_workflow ir cid ss operations" "ss \<noteq> []" "is_emit (last ss)"
    "prepare_execution env ir cid input = Inl e"
  shows "e \<in> {ExecutionError ExecInputInvalid, ExecutionError ExecIrInvalid}"
proof -
  from assms(1) obtain cap where "capability_definition ir cid = Inr cap" "dget cap ''workflow'' = Some (JArr (map step_json ss))"
    "dget ir ''operations'' = Some (JObj operations)"
    by (auto simp: holds_workflow_def split: sum.splits)
  with assms(4) ends_with_emit_typed [OF assms(2,3)] show ?thesis
    by (auto simp: prepare_execution_def rbind_Inl_iff copy_json_eq get_or_null_def
        dest!: validate_schema_Inl split: if_splits)
qed

lemma checked_output_Inl: "checked_output env cap v = Inl e \<Longrightarrow> e \<in> {ExecutionError ExecOutputInvalid, ExecutionError ExecIrInvalid}"
  by (auto simp: checked_output_def rbind_Inl_iff copy_json_eq dest!: validate_schema_Inl split: if_splits)

text \<open>The value that \<open>execute\<close> may return and the calls it may make.\<close>

definition output_accepted :: "exec_env \<Rightarrow> (string, json) dict \<Rightarrow> string \<Rightarrow> json \<Rightarrow> bool" where
  "output_accepted env ir cid v \<longleftrightarrow>
     json_finite v \<and>
     (validates_output env \<longrightarrow>
        (\<exists>cap schema. capability_definition ir cid = Inr cap \<and> dget cap ''output_schema'' = Some (JObj schema) \<and>
           check_schema env schema \<and> instance_ok env schema v))"

lemma checked_output_Inr:
  assumes "checked_output env cap u = Inr v" "capability_definition ir cid = Inr cap"
  shows "output_accepted env ir cid v"
  using assms unfolding checked_output_def output_accepted_def
  by (auto elim!: rbind_InrE simp: copy_json_eq split: if_splits)

definition call_accepted :: "exec_env \<Rightarrow> (string, json) dict \<Rightarrow> string \<Rightarrow> (string, json) dict \<Rightarrow> json \<Rightarrow> bool" where
  "call_accepted env ir oid op args \<longleftrightarrow>
     (\<exists>operations. dget ir ''operations'' = Some (JObj operations) \<and> call_checked env operations oid op args)"

lemma safe_weaken:
  "safe P E Q p \<Longrightarrow> (\<And>oid op args. P oid op args \<Longrightarrow> P' oid op args) \<Longrightarrow> (\<And>e. E e \<Longrightarrow> E' e) \<Longrightarrow> safe P' E' Q p"
proof (induction rule: safe.induct)
  case (gather ps R Q k)
  show ?case by (rule safe.gather [where R = R]) (use gather in auto)
qed (auto intro: safe.intros)

lemma execute_safe:
  "safe (call_accepted env ir) (\<lambda>_. True) (output_accepted env ir cid) (execute env ir cid input)"
  unfolding execute_def
proof (rule safe_plift)
  fix q assume prep: "prepare_execution env ir cid input = Inr q"
  obtain safe cap ws ops where q: "q = (safe, cap, ws, ops)" by (cases q)
  from prep have p: "capability_definition ir cid = Inr cap" "dget ir ''operations'' = Some (JObj ops)"
    unfolding prepare_execution_def q by (auto elim!: rbind_InrE split: if_splits)
  have "Execution.safe (call_checked env ops) (\<lambda>_. True) json_finite
      (run_workflow env ops \<lparr>ctx_input = safe, ctx_steps = [], ctx_item = None\<rparr> ws JNull)"
    using run_workflow_safe(1) by simp
  then have "Execution.safe (call_accepted env ir) (\<lambda>_. True) json_finite
      (run_workflow env ops \<lparr>ctx_input = safe, ctx_steps = [], ctx_item = None\<rparr> ws JNull)"
    by (rule safe_weaken) (use p in \<open>auto simp: call_accepted_def\<close>)
  then show "Execution.safe (call_accepted env ir) (\<lambda>_. True) (output_accepted env ir cid)
     (case q of (safe, capability, workflow, operations) \<Rightarrow>
        pbind (run_workflow env operations \<lparr>ctx_input = safe, ctx_steps = [], ctx_item = None\<rparr> workflow JNull)
          (\<lambda>result. Finished (checked_output env capability result)))"
    unfolding q prod.case by (rule safe_pbind) (use p in \<open>auto simp: safe_Finished checked_output_Inr\<close>)
qed simp

lemma execute_checked:
  assumes "holds_workflow ir cid ss operations" "workflow_checked tab ss" "ss \<noteq> []" "\<forall>s \<in> set ss. step_ok s"
    "strict \<longrightarrow> (\<forall>s \<in> set ss. step_plain s)" "operations_fit tab operations"
  shows "safe (\<lambda>_ _ _. True) (checked_error strict) (\<lambda>_. True) (execute env ir cid input)"
proof (cases "prepare_execution env ir cid input")
  case (Inl e)
  then have "e \<in> {ExecutionError ExecInputInvalid, ExecutionError ExecIrInvalid}"
    using prepare_execution_Inl [OF assms(1,3) _ Inl] assms(2) by (simp add: workflow_checked_def)
  then show ?thesis using Inl by (auto simp: execute_def safe_Finished checked_error_def)
next
  case (Inr q)
  from execute_workflow [OF assms(1) Inr] obtain cap where
    e: "execute env ir cid input =
       pbind (run_workflow env operations \<lparr>ctx_input = input, ctx_steps = [], ctx_item = None\<rparr> (map step_json ss) JNull)
         (\<lambda>result. Finished (checked_output env cap result))" and fin: "json_finite input" by blast
  have fits: "context_fits read_scope \<lparr>ctx_input = input, ctx_steps = [], ctx_item = None\<rparr>"
    using fin by (simp add: context_fits_def read_scope_def)
  have "checked_run env operations strict
      (run_workflow env operations \<lparr>ctx_input = input, ctx_steps = [], ctx_item = None\<rparr> (map step_json ss) JNull)"
    by (rule steps_checked(2) [of tab read_scope "''/workflow''" 0 ss empty_state])
      (use assms fits in \<open>auto simp: workflow_checked_def read_scope_def\<close>)
  then have "Execution.safe (\<lambda>_ _ _. True) (checked_error strict) json_finite
      (run_workflow env operations \<lparr>ctx_input = input, ctx_steps = [], ctx_item = None\<rparr> (map step_json ss) JNull)"
    by (rule safe_weaken) auto
  then show ?thesis unfolding e
    by (rule safe_pbind) (auto simp: safe_Finished checked_error_def dest!: checked_output_Inl)
qed

lemma execute_weighs:
  assumes "holds_workflow ir cid ss operations"
  shows "weighs c g (workflow_weight c g ss) (execute env ir cid input)"
proof (cases "prepare_execution env ir cid input")
  case (Inr q)
  from execute_workflow [OF assms Inr] obtain cap where
    e: "execute env ir cid input =
       pbind (run_workflow env operations \<lparr>ctx_input = input, ctx_steps = [], ctx_item = None\<rparr> (map step_json ss) JNull)
         (\<lambda>result. Finished (checked_output env cap result))" by blast
  have "weighs c g (workflow_weight c g ss + 0) (execute env ir cid input)"
    unfolding e by (intro weighs_pbind workflow_weighs step_weighs weighs.finished)
  then show ?thesis by simp
qed (simp add: execute_def weighs.finished)

section \<open>Scopes of successful runs\<close>

definition scopes_of :: "operations \<Rightarrow> string set \<Rightarrow> scope_set" where
  "scopes_of ops T =
     (\<Union>oid \<in> T. case dget ops oid of None \<Rightarrow> {} | Some oper \<Rightarrow> set (http_scopes (http_contract oper)))"

lemma scopes_of_simps [simp]:
  "scopes_of ops {} = {}" "scopes_of ops (T \<union> U) = scopes_of ops T \<union> scopes_of ops U"
  "scopes_of ops (\<Union>\<T>) = \<Union>(scopes_of ops ` \<T>)"
  by (auto simp: scopes_of_def)

lemma succeeds_pbind:
  "succeeds R (pbind p f) T w \<Longrightarrow> \<exists>T1 u T2. succeeds R p T1 u \<and> succeeds R (f u) T2 w \<and> T = T1 \<union> T2"
proof (induction p arbitrary: T)
  case (Finished r)
  then show ?case by (cases r) (auto elim: succeeds_FinishedE intro: succeeds.returned)
next
  case (Calls oid op args k)
  from Calls.prems have "succeeds R (Calls oid op args (\<lambda>r. pbind (k r) f)) T w" by simp
  then obtain r T' where r: "R oid op args r" "succeeds R (pbind (k r) f) T' w" "T = insert oid T'"
    by (rule succeeds_CallsE)
  from Calls.IH [OF _ r(2)] obtain T1 u T2 where "succeeds R (k r) T1 u" "succeeds R (f u) T2 w" "T' = T1 \<union> T2" by auto
  with r show ?case
    by (intro exI [of _ "insert oid T1"] exI [of _ u] exI [of _ T2]) (auto intro: succeeds.call)
next
  case (Gather ps k)
  from Gather.prems have "succeeds R (Gather ps (\<lambda>vs. pbind (k vs) f)) T w" by simp
  then obtain tvs T' where t: "list_all2 (\<lambda>p tv. succeeds R p (fst tv) (snd tv)) ps tvs"
    "succeeds R (pbind (k (map snd tvs)) f) T' w" "T = \<Union>(fst ` set tvs) \<union> T'"
    by (rule succeeds_GatherE)
  from Gather.IH(2) [OF _ t(2)] obtain T1 u T2 where
    "succeeds R (k (map snd tvs)) T1 u" "succeeds R (f u) T2 w" "T' = T1 \<union> T2" by auto
  with t(3) succeeds.gathered [of R, OF t(1), of k] show ?case
    by (intro exI [of _ "\<Union>(fst ` set tvs) \<union> T1"] exI [of _ u] exI [of _ T2]) auto
qed

lemma succeeds_plift: "succeeds R (plift r f) T w \<Longrightarrow> \<exists>x. r = Inr x \<and> succeeds R (f x) T w"
  by (cases r) (auto elim: succeeds_FinishedE)

definition calls_known :: "operations \<Rightarrow> (string, json) dict \<Rightarrow> bool" where
  "calls_known ops operations \<longleftrightarrow> (\<forall>oid. dget operations oid \<noteq> None \<longrightarrow> dget ops oid \<noteq> None)"

lemma succeeds_call_step:
  assumes "calls_known ops operations" "succeeds R (call_step env operations ctx
      (JObj [(''arguments'', args), (''operation'', JStr oid)])) T w"
  shows "completes ops (CallStep i oid a) (scopes_of ops T)"
proof -
  from succeeds_plift [OF assms(2) [unfolded call_step_def]] obtain x where
    x: "prepare_call env operations ctx (JObj [(''arguments'', args), (''operation'', JStr oid)]) = Inr x"
    "succeeds R (case x of (oid, op, a') \<Rightarrow> Calls oid op a' (\<lambda>r. Finished (call_result env op r))) T w" by blast
  obtain oid' op a' where x3: "x = (oid', op, a')" by (cases x)
  with x(1) have "oid' = oid" "dget operations oid = Some (JObj op)"
    by (auto simp: prepare_call_def rbind_Inr_iff operation_id_of_def get_or_null_def split: if_splits option.splits)
  moreover from x(2) x3 have "T = {oid'}" by (auto elim!: succeeds_CallsE elim: succeeds_FinishedE)
  moreover obtain oper where "dget ops oid = Some oper"
    using assms(1) calculation(2) by (auto simp: calls_known_def)
  ultimately show ?thesis using completes_completes_all_completes_times.call [of ops oid oper i a]
    by (simp add: scopes_of_def)
qed

lemma completes_of_children:
  "list_all2 (\<lambda>s tv. completes ops s (scopes_of ops (fst tv))) ss tvs \<Longrightarrow>
     completes_all ops ss (\<Union>tv \<in> set tvs. scopes_of ops (fst tv))"
proof (induction ss tvs rule: list_all2_induct)
  case Nil
  show ?case by (simp add: all_Nil)
next
  case (Cons s ss tv tvs)
  then show ?case using all_Cons [of ops s "scopes_of ops (fst tv)" ss] by simp
qed

lemma completes_of_items:
  "(\<And>tv. tv \<in> set tvs \<Longrightarrow> completes_all ops ss (scopes_of ops (fst tv))) \<Longrightarrow>
     completes_times ops ss (length tvs) (\<Union>tv \<in> set tvs. scopes_of ops (fst tv))"
proof (induction tvs)
  case Nil
  show ?case by (simp add: times_0)
next
  case (Cons tv tvs)
  then show ?case using times_Suc [of ops ss "scopes_of ops (fst tv)" "length tvs"] by simp
qed

lemma workflow_completes:
  "(\<And>s ctx T w. s \<in> set ss \<Longrightarrow> succeeds R (run_step env operations ctx (step_fields_json s)) T w \<Longrightarrow>
       completes ops s (scopes_of ops T)) \<Longrightarrow>
   succeeds R (run_workflow env operations ctx (map step_json ss) v) T w \<Longrightarrow> completes_all ops ss (scopes_of ops T)"
proof (induction ss arbitrary: ctx v T)
  case Nil
  then show ?case by (auto elim!: succeeds_FinishedE intro: all_Nil)
next
  case (Cons s ss)
  from succeeds_pbind [OF Cons.prems(2) [unfolded run_workflow_typed]] obtain T1 u T2 where
    t: "succeeds R (run_step env operations ctx (step_fields_json s)) T1 u"
      "succeeds R (run_workflow env operations (keep_typed (step_id s) ctx u) (map step_json ss) u) T2 w" "T = T1 \<union> T2"
    by blast
  have "completes ops s (scopes_of ops T1)" using Cons.prems(1) t(1) by simp
  moreover have "completes_all ops ss (scopes_of ops T2)" using Cons.IH [OF _ t(2)] Cons.prems(1) by simp
  ultimately show ?case using all_Cons t(3) by (metis scopes_of_simps(2))
qed

lemma gather_succeeds:
  assumes "succeeds R (Gather ps (\<lambda>vs. Finished (Inr (JArr vs)))) T w"
  obtains tvs where "list_all2 (\<lambda>p tv. succeeds R p (fst tv) (snd tv)) ps tvs" "T = \<Union>(fst ` set tvs)"
  using assms by (auto elim!: succeeds_GatherE succeeds_FinishedE)

lemma step_completes:
  assumes known: "calls_known ops operations"
  shows "succeeds R (run_step env operations ctx (step_fields_json s)) T w \<Longrightarrow> completes ops s (scopes_of ops T)"
proof (induction s arbitrary: ctx T w)
  case (CallStep i oid args)
  then show ?case unfolding run_step_typed by (rule succeeds_call_step [OF known])
next
  case (BranchStep i k ts es)
  from succeeds_plift [OF BranchStep.prems [unfolded run_step_typed]] obtain holds left where
    "succeeds R (run_workflow env operations ctx (map step_json (if holds then ts else es)) JNull) T w"
    by (auto simp del: run_workflow_typed)
  moreover have "completes_all ops ss (scopes_of ops T)"
    if "ss = ts \<or> ss = es" "succeeds R (run_workflow env operations ctx (map step_json ss) JNull) T w" for ss
    by (rule workflow_completes [OF _ that(2)]) (use BranchStep.IH that(1) in blast)
  ultimately show ?case by (cases holds) (auto intro: then_ else_)
next
  case (ParallelStep i ss)
  from ParallelStep.prems have "succeeds R (Gather (map (\<lambda>s. run_workflow env operations ctx (map step_json [s]) JNull) ss)
      (\<lambda>vs. Finished (Inr (JArr vs)))) T w"
    unfolding run_step_typed by (auto elim: succeeds_FinishedE split: if_splits simp del: run_workflow_typed run_workflow.simps)
  then obtain tvs where t: "list_all2 (\<lambda>p tv. succeeds R p (fst tv) (snd tv))
      (map (\<lambda>s. run_workflow env operations ctx (map step_json [s]) JNull) ss) tvs" "T = \<Union>(fst ` set tvs)"
    by (rule gather_succeeds)
  have one: "completes ops s (scopes_of ops U)"
    if s: "s \<in> set ss" "succeeds R (run_workflow env operations ctx (map step_json [s]) JNull) U u" for s U u
  proof -
    from succeeds_pbind [OF s(2) [unfolded run_workflow_typed]] obtain T1 u' T2 where
      "succeeds R (run_step env operations ctx (step_fields_json s)) T1 u'"
      "succeeds R (Finished (Inr u')) T2 u" "U = T1 \<union> T2" by auto
    with ParallelStep.IH [OF s(1)] show ?thesis by (auto elim!: succeeds_FinishedE)
  qed
  have "list_all2 (\<lambda>s tv. completes ops s (scopes_of ops (fst tv))) ss tvs"
    using t(1) one by (auto simp: list_all2_conv_all_nth simp del: run_workflow_typed run_workflow.simps)
  from completes_of_children [OF this] show ?case using t(2) by (intro parallel) (simp add: image_image)
next
  case (ForeachStep i v nm n ss)
  from succeeds_plift [OF ForeachStep.prems [unfolded run_step_typed]] obtain items where
    items: "collection_typed ctx v n = Inr items" and
    "succeeds R (Gather (map (\<lambda>item. run_workflow env operations (isolated ctx item) (map step_json ss) JNull) items)
      (\<lambda>vs. Finished (Inr (JArr vs)))) T w" by blast
  then obtain tvs where t: "list_all2 (\<lambda>p tv. succeeds R p (fst tv) (snd tv))
      (map (\<lambda>item. run_workflow env operations (isolated ctx item) (map step_json ss) JNull) items) tvs"
    "T = \<Union>(fst ` set tvs)" by - (rule gather_succeeds)
  have "completes_all ops ss (scopes_of ops (fst tv))" if "tv \<in> set tvs" for tv
  proof -
    from list_all2_right [OF t(1) that] obtain item where
      "succeeds R (run_workflow env operations (isolated ctx item) (map step_json ss) JNull) (fst tv) (snd tv)" by auto
    from workflow_completes [OF _ this] ForeachStep.IH show ?thesis by blast
  qed
  then have "completes_times ops ss (length tvs) (\<Union>tv \<in> set tvs. scopes_of ops (fst tv))"
    by (rule completes_of_items)
  moreover have "length tvs = length items" using list_all2_lengthD [OF t(1)] by simp
  moreover have "scopes_of ops T = (\<Union>tv \<in> set tvs. scopes_of ops (fst tv))" by (simp add: t(2) image_image)
  ultimately have times: "completes_times ops ss (length items) (scopes_of ops T)" by simp
  show ?case
  proof (cases "\<exists>vs. v = JArr vs")
    case True
    then obtain vs where vs: "v = JArr vs" by blast
    with items have "length items = length vs"
      by (auto simp: collection_typed_Inr rbind_Inr_iff dest: traverse_length)
    with times vs show ?thesis by (auto intro: foreach_literal)
  next
    case False
    with times show ?thesis by (intro foreach_dynamic) auto
  qed
qed (simp_all only: run_step_pure completes_plain, (elim succeeds_FinishedE, simp)+)

text \<open>The scopes of the operations that a successful execution called.\<close>

lemma execute_completes:
  assumes "holds_workflow ir cid ss operations" "calls_known ops operations"
    "succeeds R (execute env ir cid input) T v"
  shows "completes_all ops ss (scopes_of ops T)"
proof -
  from succeeds_plift [OF assms(3) [unfolded execute_def]] obtain q where
    q: "prepare_execution env ir cid input = Inr q" by blast
  from execute_workflow [OF assms(1) q] obtain cap where
    e: "execute env ir cid input =
       pbind (run_workflow env operations \<lparr>ctx_input = input, ctx_steps = [], ctx_item = None\<rparr> (map step_json ss) JNull)
         (\<lambda>result. Finished (checked_output env cap result))" by blast
  from succeeds_pbind [OF assms(3) [unfolded e]] obtain T1 u T2 where
    t: "succeeds R (run_workflow env operations \<lparr>ctx_input = input, ctx_steps = [], ctx_item = None\<rparr> (map step_json ss) JNull) T1 u"
    "succeeds R (Finished (checked_output env cap u)) T2 v" "T = T1 \<union> T2" by blast
  from t(2,3) have "T = T1" by (auto elim: succeeds_FinishedE)
  with workflow_completes [OF step_completes [OF assms(2)] t(1)] show ?thesis by simp
qed

text \<open>
  The input is checked before anything else, whatever the switches of the executor are: nothing is called
  and nothing is returned unless the capability's input schema accepts it.
\<close>

definition schema_accepts :: "exec_env \<Rightarrow> (string, json) dict \<Rightarrow> string \<Rightarrow> json \<Rightarrow> bool" where
  "schema_accepts env fs key v \<longleftrightarrow>
     (case dget fs key of Some (JObj schema) \<Rightarrow> check_schema env schema \<and> instance_ok env schema v | _ \<Rightarrow> False)"

lemma schema_accepts_iff:
  "schema_accepts env fs key v \<longleftrightarrow> (\<exists>schema. dget fs key = Some (JObj schema) \<and> check_schema env schema \<and> instance_ok env schema v)"
  by (auto simp: schema_accepts_def split: option.splits json.splits)

definition input_accepted :: "exec_env \<Rightarrow> (string, json) dict \<Rightarrow> string \<Rightarrow> json \<Rightarrow> bool" where
  "input_accepted env ir cid input \<longleftrightarrow>
     json_finite input \<and>
     (case capability_definition ir cid of Inr cap \<Rightarrow> schema_accepts env cap ''input_schema'' input | Inl _ \<Rightarrow> False)"

lemma execute_input_checked:
  "safe (\<lambda>_ _ _. input_accepted env ir cid input) (\<lambda>_. True) (\<lambda>_. input_accepted env ir cid input) (execute env ir cid input)"
proof (cases "prepare_execution env ir cid input")
  case (Inl e)
  then show ?thesis by (simp add: execute_def safe_Finished)
next
  case (Inr q)
  then have "input_accepted env ir cid input"
    unfolding prepare_execution_def
    by (auto elim!: rbind_InrE simp: input_accepted_def schema_accepts_iff copy_json_eq split: if_splits)
  then show ?thesis using safe_mono [OF safe_weaken [OF execute_safe, where E' = "\<lambda>_. True"]] by simp
qed

end
