(* ===== verification/WorkflowExample.thy ===== *)
theory WorkflowExample
  imports ExecuteWorkflow Examples
begin

text \<open>A compiled workflow on which the properties of the executor are evaluated: two calls in parallel.\<close>

definition demo_steps :: "step list" where
  "demo_steps =
     [CallStep (Some ''order'') ''a'' [(''id'', JStr ''$.input.id'')],
      ParallelStep (Some ''both'') [CallStep None ''a'' [(''id'', JInt 1)], CallStep None ''b'' [(''id'', JStr ''$.steps.order.id'')]],
      EmitStep None (JObj [(''order'', JStr ''$.steps.order''), (''both'', JStr ''$.steps.both'')])]"

definition demo_fields :: "(string, json) dict" where
  "demo_fields = [(''input_schema'', JObj []), (''output_schema'', JObj [])]"

definition demo_compiled :: "(string, json) dict" where
  "demo_compiled = [(''a'', JObj demo_fields), (''b'', JObj demo_fields)]"

definition demo_ir :: "(string, json) dict" where
  "demo_ir =
     [(''capabilities'', JObj [(''report'', JObj [(''definition'',
         JObj ((''workflow'', JArr (map step_json demo_steps)) # demo_fields))])]),
      (''operations'', JObj demo_compiled)]"

definition demo_schemas :: exec_env where
  "demo_schemas =
     \<lparr>check_schema = (\<lambda>_. True), instance_ok = (\<lambda>_ _. True), validates_output = True, validates_operation_input = True\<rparr>"

definition demo_reply :: "string \<Rightarrow> (string, json) dict \<Rightarrow> json \<Rightarrow> call_reply" where
  "demo_reply oid op args = Replied args"

definition demo_run_input :: json where
  "demo_run_input = JObj [(''id'', JInt 7)]"

definition demo_result :: json where
  "demo_result = JObj [(''both'', JArr [JObj [(''id'', JInt 1)], JObj [(''id'', JInt 7)]]), (''order'', JObj [(''id'', JInt 7)])]"

definition demo_table :: operation_table where
  "demo_table = \<lparr>known_operations = {''a'', ''b''}, operation_bindings = []\<rparr>"

definition demo_workflow :: capability where
  "demo_workflow =
     \<lparr>cap_id = ''report'', cap_title = ''Report'', cap_input_schema = JObj [], cap_output_schema = JObj [], cap_policy = ''p'',
      cap_body = ReadBody demo_steps\<rparr>"

lemma demo_holds: "holds_workflow demo_ir ''report'' demo_steps demo_compiled"
  by (simp add: holds_workflow_def demo_ir_def capability_definition_def get_or_null_def)

lemma demo_evaluates:
  "evaluate_proc demo_reply (execute demo_schemas demo_ir ''report'' demo_run_input) = Inr demo_result"
  by code_simp

lemma demo_fails:
  "evaluate_proc demo_reply (execute demo_schemas demo_ir ''report'' (JObj [])) = Inl (ExecutionError ExecReferenceUnavailable)"
  by code_simp

lemma demo_checked:
  "workflow_checked demo_table demo_steps" "demo_steps \<noteq> []" "\<forall>s \<in> set demo_steps. step_ok s"
  "\<forall>s \<in> set demo_steps. step_plain s" "operations_fit demo_table demo_compiled"
  "calls_known demo_operations demo_compiled"
  subgoal by code_simp
  subgoal by (simp add: demo_steps_def)
  subgoal by code_simp
  subgoal by code_simp
  subgoal by (simp add: operations_fit_def demo_table_def demo_compiled_def)
  subgoal by (simp add: calls_known_def demo_operations_def demo_compiled_def)
  done

lemma demo_run:
  "\<exists>evs n r os. exec_run (execute demo_schemas demo_ir ''report'' input, []) evs n (Finished r, os) \<and>
     answered (\<lambda>oid op args r. r = demo_reply oid op args) evs"
  by (rule run_to_end [OF execute_weighs [OF demo_holds]])

lemma demo_success:
  "\<exists>evs n os. exec_run (execute demo_schemas demo_ir ''report'' demo_run_input, []) evs n (Finished (Inr demo_result), os) \<and>
     answered (\<lambda>oid op args r. r = demo_reply oid op args) evs"
proof -
  from demo_run [of demo_run_input] obtain evs n r os where
    r: "exec_run (execute demo_schemas demo_ir ''report'' demo_run_input, []) evs n (Finished r, os)"
    "answered (\<lambda>oid op args r. r = demo_reply oid op args) evs" by blast
  have "r = Inr demo_result" using run_agrees [OF r, of demo_result] demo_evaluates by simp
  with r show ?thesis by blast
qed

lemma demo_failure:
  "\<exists>evs n e os. exec_run (execute demo_schemas demo_ir ''report'' (JObj []), []) evs n (Finished (Inl e), os)"
proof -
  from demo_run [of "JObj []"] obtain evs n r os where
    r: "exec_run (execute demo_schemas demo_ir ''report'' (JObj []), []) evs n (Finished r, os)"
    "answered (\<lambda>oid op args r. r = demo_reply oid op args) evs" by blast
  have "r \<noteq> Inr v" for v using run_agrees [OF r, of v] demo_fails by auto
  then obtain e where "r = Inl e" by (cases r) auto
  with r show ?thesis by blast
qed

lemma demo_workflow_analysis:
  "\<exists>r. analyze_capability demo_workflow [''p''] demo_operations = Inr r"
proof -
  have "\<not> isl (analyze_capability demo_workflow [''p''] demo_operations)" by code_simp
  then show ?thesis by (metis sum.collapse(2))
qed

end
