(* ===== verification/SchemaRelation.thy ===== *)
theory SchemaRelation
  imports Json
begin

text \<open>
  \<^verbatim>\<open>acc_core/contracts/schema_relation.py\<close>: the comparison that is to prove that every value one
  JSON Schema accepts is accepted by another. The code remembers pairs of visited schema objects by
  identity; the identity of an object is here its path in its root document. The functions thread the
  visited pairs through the recursion, which runs on fuel; \<open>compare_total\<close> shows that the fuel of
  \<open>compare_subset\<close> is enough for every pair of documents, cyclic references included. The JSON Schema
  library is the parameter \<open>valid\<close>.
\<close>

section \<open>Reports\<close>

datatype schema_relation = RelProven | RelConflict | RelUnknown

record relation_report =
  relation :: schema_relation
  relation_findings :: "(string \<times> string) list"

definition proven :: relation_report where
  "proven = \<lparr>relation = RelProven, relation_findings = []\<rparr>"

definition finding :: "schema_relation \<Rightarrow> string \<Rightarrow> string \<Rightarrow> relation_report" where
  "finding rel pointer message = \<lparr>relation = rel, relation_findings = [(pointer, message)]\<rparr>"

definition child :: "string \<Rightarrow> string \<Rightarrow> string" where
  "child pointer token = pointer @ CHR ''/'' # pointer_token token"

definition worse :: "schema_relation \<Rightarrow> schema_relation \<Rightarrow> schema_relation" where
  "worse acc rel =
     (if rel = RelConflict then RelConflict
      else if rel = RelUnknown \<and> acc = RelProven then RelUnknown else acc)"

definition add_finding :: "(string \<times> string) list \<Rightarrow> string \<times> string \<Rightarrow> (string \<times> string) list" where
  "add_finding fs f = (if f \<in> set fs then fs else fs @ [f])"

definition combine :: "relation_report list \<Rightarrow> relation_report" where
  "combine reports =
     \<lparr>relation = foldl worse RelProven (map relation reports),
      relation_findings = foldl add_finding [] (concat (map relation_findings reports))\<rparr>"

section \<open>Schema objects and their identity\<close>

datatype node_step = Field string | Item nat

type_synonym node_path = "node_step list"
type_synonym node = "node_path \<times> json"

fun node_at :: "json \<Rightarrow> node_path \<Rightarrow> json option" where
  "node_at v [] = Some v"
| "node_at (JObj fs) (Field k # p) = (case dget fs k of None \<Rightarrow> None | Some w \<Rightarrow> node_at w p)"
| "node_at (JArr xs) (Item i # p) = (if i < length xs then node_at (xs ! i) p else None)"
| "node_at _ _ = None"

text \<open>\<open>_resolve_local_ref\<close>; a reference that resolves to \<open>null\<close> counts as unresolved.\<close>

fun walk_ref :: "node \<Rightarrow> string list \<Rightarrow> node option" where
  "walk_ref n [] = (if snd n = JNull then None else Some n)"
| "walk_ref (p, v) (t # ts) = (case jget v t of None \<Rightarrow> None | Some w \<Rightarrow> walk_ref (p @ [Field t], w) ts)"

definition resolve_local_ref :: "json \<Rightarrow> json \<Rightarrow> node option" where
  "resolve_local_ref root_schema reference =
     (case reference of
        JStr s \<Rightarrow>
          if prefix ''#/'' s then walk_ref ([], root_schema) (map unescape_token (split_on (CHR ''/'') (drop 2 s)))
          else None
      | _ \<Rightarrow> None)"

definition annotation_keywords :: "string list" where
  "annotation_keywords =
     [''$comment'', ''$defs'', ''$id'', ''$schema'', ''default'', ''deprecated'', ''description'', ''examples'',
      ''readOnly'', ''title'', ''writeOnly'']"

definition handled_keywords :: "string list" where
  "handled_keywords =
     [''$ref'', ''additionalProperties'', ''allOf'', ''anyOf'', ''const'', ''enum'', ''exclusiveMaximum'',
      ''exclusiveMinimum'', ''items'', ''maxItems'', ''maxLength'', ''maximum'', ''minItems'', ''minLength'',
      ''minimum'', ''oneOf'', ''properties'', ''required'', ''type'']"

fun strings_in :: "json list \<Rightarrow> string list option" where
  "strings_in [] = Some []"
| "strings_in (JStr s # vs) = (case strings_in vs of None \<Rightarrow> None | Some ss \<Rightarrow> Some (s # ss))"
| "strings_in _ = None"

definition schema_types :: "(string, json) dict \<Rightarrow> string list option" where
  "schema_types schema =
     (case dget schema ''type'' of
        Some (JStr t) \<Rightarrow> Some [t]
      | Some (JArr vs) \<Rightarrow> strings_in vs
      | _ \<Rightarrow> None)"

fun contains_reference :: "json \<Rightarrow> bool" where
  "contains_reference (JObj fs) = (''$ref'' \<in> set (dkeys fs) \<or> (\<exists>p \<in> set fs. contains_reference (snd p)))"
| "contains_reference (JArr xs) = (\<exists>x \<in> set xs. contains_reference x)"
| "contains_reference _ = False"

section \<open>Single keywords\<close>

fun float_less :: "pyfloat \<Rightarrow> pyfloat \<Rightarrow> bool" where
  "float_less NaN _ = False"
| "float_less _ NaN = False"
| "float_less f PosInf = (f \<noteq> PosInf)"
| "float_less PosInf _ = False"
| "float_less f NegInf = False"
| "float_less NegInf _ = True"
| "float_less f g = (case (float_norm f, float_norm g) of (Finite p, Finite q) \<Rightarrow> p < q | _ \<Rightarrow> False)"

definition float_le :: "pyfloat \<Rightarrow> pyfloat \<Rightarrow> bool" where
  "float_le f g \<longleftrightarrow> float_less f g \<or> float_eq f g"

text \<open>\<open>isinstance(value, (int, float)) and not isinstance(value, bool)\<close>\<close>

definition number_field :: "(string, json) dict \<Rightarrow> string \<Rightarrow> pyfloat option" where
  "number_field schema keyword = Option.bind (dget schema keyword) num_of"

definition compare_finite_left ::
    "(json \<Rightarrow> json \<Rightarrow> bool) \<Rightarrow> (string, json) dict \<Rightarrow> (string, json) dict \<Rightarrow> string \<Rightarrow> relation_report option" where
  "compare_finite_left valid l r pointer =
     (let candidates = (case dget l ''const'' of
                          Some c \<Rightarrow> Some [c]
                        | None \<Rightarrow> (case dget l ''enum'' of Some (JArr vs) \<Rightarrow> Some vs | _ \<Rightarrow> None))
      in case candidates of
           None \<Rightarrow> None
         | Some cs \<Rightarrow>
             if contains_reference (JObj l) \<or> contains_reference (JObj r) then None
             else if list_all (valid (JObj r)) (filter (valid (JObj l)) cs) then Some proven
             else Some (finding RelConflict pointer
                          ''declared schema rejects a value permitted by the finite left schema''))"

definition compare_types :: "(string, json) dict \<Rightarrow> (string, json) dict \<Rightarrow> string \<Rightarrow> relation_report" where
  "compare_types l r pointer =
     (case schema_types r of
        None \<Rightarrow> proven
      | Some rts \<Rightarrow>
          (case schema_types l of
             None \<Rightarrow> finding RelUnknown (child pointer ''type'')
                       ''left schema has no type bound that proves the declared type constraint''
           | Some lts \<Rightarrow>
               if list_all (\<lambda>t. t \<in> set rts \<or> (t = ''integer'' \<and> ''number'' \<in> set rts)) lts then proven
               else finding RelConflict (child pointer ''type'')
                      ''left schema permits JSON types rejected by the declared schema''))"

definition no_bound :: "string \<Rightarrow> string \<Rightarrow> relation_report" where
  "no_bound pointer keyword =
     finding RelConflict (child pointer keyword) (''left schema has no '' @ keyword @ '' bound'')"

definition compare_lower_bound ::
    "(string, json) dict \<Rightarrow> (string, json) dict \<Rightarrow> string \<Rightarrow> string \<Rightarrow> relation_report" where
  "compare_lower_bound l r keyword pointer =
     (case number_field r keyword of
        None \<Rightarrow> proven
      | Some b \<Rightarrow>
          (case number_field l keyword of
             None \<Rightarrow> no_bound pointer keyword
           | Some a \<Rightarrow>
               if float_le b a then proven
               else finding RelConflict (child pointer keyword)
                      (''left schema '' @ keyword @ '' is less restrictive than the declared bound'')))"

definition compare_upper_bound ::
    "(string, json) dict \<Rightarrow> (string, json) dict \<Rightarrow> string \<Rightarrow> string \<Rightarrow> relation_report" where
  "compare_upper_bound l r keyword pointer =
     (case number_field r keyword of
        None \<Rightarrow> proven
      | Some b \<Rightarrow>
          (case number_field l keyword of
             None \<Rightarrow> no_bound pointer keyword
           | Some a \<Rightarrow>
               if float_le a b then proven
               else finding RelConflict (child pointer keyword)
                      (''left schema '' @ keyword @ '' exceeds the declared bound'')))"

text \<open>
  \<open>_numeric_bound\<close>: of an inclusive and an exclusive bound, \<open>max\<close> and \<open>min\<close> over the code's keys
  take the exclusive one unless the inclusive one is strictly tighter.
\<close>

definition numeric_bound :: "(string, json) dict \<Rightarrow> bool \<Rightarrow> (pyfloat \<times> bool \<times> string) option" where
  "numeric_bound schema lower =
     (let inclusive = (if lower then ''minimum'' else ''maximum'');
          exclusive = (if lower then ''exclusiveMinimum'' else ''exclusiveMaximum'')
      in case (number_field schema inclusive, number_field schema exclusive) of
           (None, None) \<Rightarrow> None
         | (Some a, None) \<Rightarrow> Some (a, False, inclusive)
         | (None, Some b) \<Rightarrow> Some (b, True, exclusive)
         | (Some a, Some b) \<Rightarrow>
             if (if lower then float_le a b else float_le b a) then Some (b, True, exclusive)
             else Some (a, False, inclusive))"

definition compare_numeric_bound ::
    "(string, json) dict \<Rightarrow> (string, json) dict \<Rightarrow> bool \<Rightarrow> string \<Rightarrow> relation_report" where
  "compare_numeric_bound l r lower pointer =
     (case numeric_bound r lower of
        None \<Rightarrow> proven
      | Some (b, b_exclusive, keyword) \<Rightarrow>
          (case numeric_bound l lower of
             None \<Rightarrow> no_bound pointer keyword
           | Some (a, a_exclusive, _) \<Rightarrow>
               if (if lower then float_less b a else float_less a b) \<or>
                  (float_eq a b \<and> (\<not> b_exclusive \<or> a_exclusive)) then proven
               else finding RelConflict (child pointer keyword)
                      ''left numeric bound is less restrictive than the declared bound''))"

fun required_names :: "json option \<Rightarrow> string list option" where
  "required_names None = Some []"
| "required_names (Some (JArr vs)) = strings_in vs"
| "required_names _ = None"

fun comma_joined :: "string list \<Rightarrow> string" where
  "comma_joined [] = []"
| "comma_joined [s] = s"
| "comma_joined (s # ss) = s @ '', '' @ comma_joined ss"

definition compare_required :: "(string, json) dict \<Rightarrow> (string, json) dict \<Rightarrow> string \<Rightarrow> relation_report" where
  "compare_required l r pointer =
     (case (required_names (dget r ''required''), required_names (dget l ''required'')) of
        (Some rs, Some ls) \<Rightarrow>
          (let missing = sorted_set (filter (\<lambda>n. n \<notin> set ls) rs)
           in if missing = [] then proven
              else finding RelConflict (child pointer ''required'')
                     (''left schema does not require declared properties: '' @ comma_joined missing))
      | _ \<Rightarrow> finding RelUnknown (child pointer ''required'') ''invalid required'')"

section \<open>The comparison\<close>

type_synonym visited = "(node_path \<times> node_path) list"
type_synonym comparison = "visited \<Rightarrow> (relation_report \<times> visited) option"

definition settled :: "relation_report \<Rightarrow> comparison" where
  "settled report visited = Some (report, visited)"

primrec run_all :: "comparison list \<Rightarrow> visited \<Rightarrow> (relation_report list \<times> visited) option" where
  "run_all [] visited = Some ([], visited)"
| "run_all (c # cs) visited =
     (case c visited of
        None \<Rightarrow> None
      | Some (report, visited') \<Rightarrow>
          (case run_all cs visited' of
             None \<Rightarrow> None
           | Some (reports, visited'') \<Rightarrow> Some (report # reports, visited'')))"

definition combined :: "comparison list \<Rightarrow> comparison" where
  "combined cs visited =
     (case run_all cs visited of
        None \<Rightarrow> None
      | Some (reports, visited') \<Rightarrow> Some (combine reports, visited'))"

text \<open>The nodes of a keyword's value, of the branches of a list and of \<open>schema.get(k, True)\<close>.\<close>

definition branch_nodes :: "node_path \<Rightarrow> string \<Rightarrow> json list \<Rightarrow> node list" where
  "branch_nodes p keyword vs = map (\<lambda>i. (p @ [Field keyword, Item i], vs ! i)) [0..<length vs]"

definition node_or_true :: "node_path \<Rightarrow> (string, json) dict \<Rightarrow> string \<Rightarrow> node" where
  "node_or_true p schema k =
     (p @ [Field k], case dget schema k of None \<Rightarrow> JBool True | Some v \<Rightarrow> v)"

fun properties_of :: "(string, json) dict \<Rightarrow> (string, json) dict option" where
  "properties_of schema =
     (case dget schema ''properties'' of None \<Rightarrow> Some [] | Some (JObj ps) \<Rightarrow> Some ps | Some _ \<Rightarrow> None)"

type_synonym comparer = "node \<Rightarrow> node \<Rightarrow> string \<Rightarrow> comparison"

definition declared_comparisons ::
    "comparer \<Rightarrow> node_path \<Rightarrow> (string, json) dict \<Rightarrow> node \<Rightarrow> node_path \<Rightarrow> (string, json) dict \<Rightarrow> string \<Rightarrow> comparison list" where
  "declared_comparisons compare lp lps l_additional rp rps pointer =
     concat (map (\<lambda>(name, rv).
       let l_property = (case dget lps name of
                           Some lv \<Rightarrow> (lp @ [Field ''properties'', Field name], lv)
                         | None \<Rightarrow> l_additional)
       in if snd l_property = JBool False then []
          else [compare l_property (rp @ [Field ''properties'', Field name], rv)
                  (child (child pointer ''properties'') name)]) (sorted_items rps))"

definition undeclared_comparisons ::
    "comparer \<Rightarrow> node_path \<Rightarrow> (string, json) dict \<Rightarrow> (string, json) dict \<Rightarrow> node \<Rightarrow> string \<Rightarrow> comparison list" where
  "undeclared_comparisons compare lp lps rps r_additional pointer =
     concat (map (\<lambda>(name, lv).
       if name \<in> set (dkeys rps) then []
       else if snd r_additional = JBool False
       then [settled (finding RelConflict (child pointer ''additionalProperties'')
               (''declared schema rejects left property: '' @ name))]
       else if is_JObj (snd r_additional)
       then [compare (lp @ [Field ''properties'', Field name], lv) r_additional
               (child (child pointer ''properties'') name)]
       else []) (sorted_items lps))"

definition additional_comparisons :: "comparer \<Rightarrow> node \<Rightarrow> node \<Rightarrow> string \<Rightarrow> comparison list" where
  "additional_comparisons compare l_additional r_additional pointer =
     (if snd r_additional = JBool False \<and> snd l_additional \<noteq> JBool False
      then [settled (finding RelConflict (child pointer ''additionalProperties'')
              ''left schema permits undeclared properties'')]
      else if is_JObj (snd r_additional) \<and> snd l_additional \<noteq> JBool False
      then [compare l_additional r_additional (child pointer ''additionalProperties'')]
      else [])"

definition object_comparisons ::
    "comparer \<Rightarrow> node_path \<Rightarrow> (string, json) dict \<Rightarrow> node_path \<Rightarrow> (string, json) dict \<Rightarrow> string \<Rightarrow> comparison list" where
  "object_comparisons compare lp l rp r pointer =
     (case (properties_of l, properties_of r) of
        (Some lps, Some rps) \<Rightarrow>
          (let l_additional = node_or_true lp l ''additionalProperties'';
               r_additional = node_or_true rp r ''additionalProperties''
           in settled (compare_required l r pointer)
              # declared_comparisons compare lp lps l_additional rp rps pointer
              @ undeclared_comparisons compare lp lps rps r_additional pointer
              @ additional_comparisons compare l_additional r_additional pointer)
      | _ \<Rightarrow> [settled (finding RelUnknown (child pointer ''properties'') ''properties comparison is not decidable'')])"

text \<open>\<open>_compare_combinations\<close>; \<open>None\<close> when no combining keyword decides the comparison.\<close>

fun list_field :: "(string, json) dict \<Rightarrow> string \<Rightarrow> json list option" where
  "list_field schema k = (case dget schema k of Some (JArr vs) \<Rightarrow> Some vs | _ \<Rightarrow> None)"

definition any_proven :: "comparison list \<Rightarrow> string \<Rightarrow> comparison" where
  "any_proven cs pointer visited =
     (case run_all cs visited of
        None \<Rightarrow> None
      | Some (reports, visited') \<Rightarrow>
          Some (if list_ex (\<lambda>r. relation r = RelProven) reports then proven
                else finding RelUnknown (child pointer ''allOf'')
                       ''allOf intersection is not provably contained by the declared schema'', visited'))"

definition combination ::
    "comparer \<Rightarrow> node_path \<Rightarrow> (string, json) dict \<Rightarrow> node_path \<Rightarrow> (string, json) dict \<Rightarrow> string \<Rightarrow> comparison option" where
  "combination compare lp l rp r pointer =
     (case list_field l ''anyOf'' of
        Some vs \<Rightarrow> Some (combined (map (\<lambda>b. compare b (rp, JObj r) pointer) (branch_nodes lp ''anyOf'' vs)))
      | None \<Rightarrow>
     (case list_field l ''oneOf'' of
        Some vs \<Rightarrow> Some (combined (map (\<lambda>b. compare b (rp, JObj r) pointer) (branch_nodes lp ''oneOf'' vs)))
      | None \<Rightarrow>
     (case list_field r ''allOf'' of
        Some vs \<Rightarrow> Some (combined (map (\<lambda>b. compare (lp, JObj l) b pointer) (branch_nodes rp ''allOf'' vs)))
      | None \<Rightarrow>
     (case list_field l ''allOf'' of
        Some vs \<Rightarrow> Some (any_proven (map (\<lambda>b. compare b (rp, JObj r) pointer) (branch_nodes lp ''allOf'' vs)) pointer)
      | None \<Rightarrow>
          if ''anyOf'' \<in> set (dkeys r) \<or> ''oneOf'' \<in> set (dkeys r)
          then Some (settled (finding RelUnknown (child pointer (if ''anyOf'' \<in> set (dkeys r) then ''anyOf'' else ''oneOf''))
                 ''declared union containment is not decidable for this schema''))
          else None))))"

text \<open>\<open>const\<close> and \<open>enum\<close> of the right schema, against a left schema that is not finite.\<close>

definition compare_const :: "(string, json) dict \<Rightarrow> (string, json) dict \<Rightarrow> string \<Rightarrow> relation_report list" where
  "compare_const l r pointer =
     (case dget r ''const'' of
        None \<Rightarrow> []
      | Some c \<Rightarrow>
          if (case dget l ''const'' of None \<Rightarrow> False | Some b \<Rightarrow> py_equal b c) then []
          else [finding RelConflict (child pointer ''const'') ''left schema does not prove the declared constant''])"

definition compare_enum :: "(string, json) dict \<Rightarrow> (string, json) dict \<Rightarrow> string \<Rightarrow> relation_report list" where
  "compare_enum l r pointer =
     (case dget r ''enum'' of
        None \<Rightarrow> []
      | Some rv \<Rightarrow>
          (case (dget l ''enum'', rv) of
             (Some (JArr ls), JArr rs) \<Rightarrow>
               if list_ex (\<lambda>v. \<not> list_ex (py_equal v) rs) ls
               then [finding RelConflict (child pointer ''enum'')
                       ''left enum contains values rejected by the declared enum'']
               else []
           | _ \<Rightarrow> [finding RelUnknown (child pointer ''enum'') ''enum containment is not decidable'']))"

definition types_or_empty :: "(string, json) dict \<Rightarrow> string list" where
  "types_or_empty schema = (case schema_types schema of None \<Rightarrow> [] | Some ts \<Rightarrow> ts)"

definition assertion_comparisons ::
    "comparer \<Rightarrow> node_path \<Rightarrow> (string, json) dict \<Rightarrow> node_path \<Rightarrow> (string, json) dict \<Rightarrow> string \<Rightarrow> comparison list" where
  "assertion_comparisons compare lp l rp r pointer =
     map settled
       ([compare_types l r pointer, compare_numeric_bound l r True pointer, compare_numeric_bound l r False pointer,
         compare_lower_bound l r ''minLength'' pointer, compare_lower_bound l r ''minItems'' pointer,
         compare_upper_bound l r ''maxLength'' pointer, compare_upper_bound l r ''maxItems'' pointer]
        @ compare_const l r pointer @ compare_enum l r pointer) @
     (if ''object'' \<in> set (types_or_empty l) \<or> ''object'' \<in> set (types_or_empty r)
      then object_comparisons compare lp l rp r pointer else []) @
     (if ''array'' \<in> set (types_or_empty l) \<or> ''array'' \<in> set (types_or_empty r)
      then [compare (node_or_true lp l ''items'') (node_or_true rp r ''items'') (child pointer ''items'')] else [])"

definition ref_siblings :: "(string, json) dict \<Rightarrow> string list" where
  "ref_siblings schema = filter (\<lambda>k. k \<noteq> ''$ref'' \<and> k \<notin> set annotation_keywords) (dkeys schema)"

definition unsupported_keywords :: "(string, json) dict \<Rightarrow> (string, json) dict \<Rightarrow> string list" where
  "unsupported_keywords l r =
     sorted_set (filter (\<lambda>k. k \<notin> set handled_keywords \<and> k \<notin> set annotation_keywords) (dkeys l @ dkeys r))"

definition target_of :: "json \<Rightarrow> node_path \<Rightarrow> (string, json) dict \<Rightarrow> node option" where
  "target_of root_schema p schema =
     (case dget schema ''$ref'' of
        None \<Rightarrow> Some (p, JObj schema)
      | Some reference \<Rightarrow> resolve_local_ref root_schema reference)"

text \<open>Two objects that differ and were not compared before; their pair is already in \<open>visited\<close>.\<close>

definition compare_new ::
    "(json \<Rightarrow> json \<Rightarrow> bool) \<Rightarrow> json \<Rightarrow> json \<Rightarrow> comparer \<Rightarrow> node_path \<Rightarrow> (string, json) dict \<Rightarrow> node_path \<Rightarrow>
     (string, json) dict \<Rightarrow> string \<Rightarrow> comparison" where
  "compare_new valid l_root r_root compare lp l rp r pointer =
     (if ''$ref'' \<in> set (dkeys l) \<or> ''$ref'' \<in> set (dkeys r)
      then (case (target_of l_root lp l, target_of r_root rp r) of
              (Some lt, Some rt) \<Rightarrow>
                if ref_siblings l \<noteq> [] \<or> ref_siblings r \<noteq> []
                then settled (finding RelUnknown (child pointer ''$ref'')
                       ''schema references with assertion siblings are not decidable'')
                else compare lt rt pointer
            | _ \<Rightarrow> settled (finding RelUnknown (child pointer ''$ref'')
                     ''only resolvable local schema references can be compared''))
      else
        (case unsupported_keywords l r of
           keyword # _ \<Rightarrow> settled (finding RelUnknown (child pointer keyword)
             (''schema keyword is not supported by the conservative comparator: '' @ keyword))
         | [] \<Rightarrow>
             (case combination compare lp l rp r pointer of
                Some c \<Rightarrow> c
              | None \<Rightarrow>
                  (case compare_finite_left valid l r pointer of
                     Some report \<Rightarrow> settled report
                   | None \<Rightarrow> combined (assertion_comparisons compare lp l rp r pointer)))))"

definition compare_step :: "(json \<Rightarrow> json \<Rightarrow> bool) \<Rightarrow> json \<Rightarrow> json \<Rightarrow> comparer \<Rightarrow> comparer" where
  "compare_step valid l_root r_root compare l r pointer visited =
     (if snd l = JBool False \<or> snd r = JBool True then Some (proven, visited)
      else if snd l = JBool True
      then Some (if snd r = JBool False
                 then finding RelConflict pointer ''declared schema rejects all values''
                 else finding RelUnknown pointer ''unbounded left schema cannot prove the declared constraint'', visited)
      else if snd r = JBool False
      then Some (finding RelConflict pointer ''declared schema rejects all values'', visited)
      else
        (case (l, r) of
           ((lp, JObj lfs), (rp, JObj rfs)) \<Rightarrow>
             if py_equal (JObj lfs) (JObj rfs) \<or> (lp, rp) \<in> set visited then Some (proven, visited)
             else compare_new valid l_root r_root compare lp lfs rp rfs pointer ((lp, rp) # visited)
         | _ \<Rightarrow> Some (finding RelUnknown pointer ''schema form is not comparable'', visited)))"

primrec compare :: "(json \<Rightarrow> json \<Rightarrow> bool) \<Rightarrow> json \<Rightarrow> json \<Rightarrow> nat \<Rightarrow> comparer" where
  "compare valid l_root r_root 0 = (\<lambda>l r pointer visited. None)"
| "compare valid l_root r_root (Suc n) = compare_step valid l_root r_root (compare valid l_root r_root n)"

lemma json_size_nth [termination_simp]: "i < length (xs :: json list) \<Longrightarrow> size (xs ! i) < Suc (size_list size xs)"
  using json_size_arr [of "xs ! i" xs] by simp

fun node_paths :: "json \<Rightarrow> node_path list" where
  "node_paths (JObj fs) = [] # concat (map (\<lambda>p. map ((#) (Field (fst p))) (node_paths (snd p))) fs)"
| "node_paths (JArr xs) = [] # concat (map (\<lambda>i. map ((#) (Item i)) (node_paths (xs ! i))) [0..<length xs])"
| "node_paths _ = [[]]"

definition compare_subset :: "(json \<Rightarrow> json \<Rightarrow> bool) \<Rightarrow> json \<Rightarrow> json \<Rightarrow> relation_report option" where
  "compare_subset valid l r =
     map_option fst (compare valid l r (Suc (length (node_paths l) * length (node_paths r))) ([], l) ([], r) [] [])"

definition compare_operation_input :: "(json \<Rightarrow> json \<Rightarrow> bool) \<Rightarrow> json \<Rightarrow> json \<Rightarrow> relation_report option" where
  "compare_operation_input valid declared source = compare_subset valid declared source"

definition compare_operation_output :: "(json \<Rightarrow> json \<Rightarrow> bool) \<Rightarrow> json \<Rightarrow> json \<Rightarrow> relation_report option" where
  "compare_operation_output valid source declared = compare_subset valid source declared"

end
