(* ===== verification/SchemaSemantics.thy ===== *)
theory SchemaSemantics
  imports SchemaRelation
begin

text \<open>
  The documented meaning of the JSON Schema keywords that the comparison handles, for documents without
  references: \<open>keywords_hold\<close> says when an object schema accepts a value, given the validity of values
  against its subschemas. Locale \<open>schema_validator\<close> is the contract of the JSON Schema library on those
  documents, and \<open>reference_valid\<close> is a function that fulfils it.
\<close>

lemma pred_option_code [code]: "pred_option P None = True" "pred_option P (Some x) = P x"
  by simp_all

section \<open>Keywords\<close>

fun float_integral :: "pyfloat \<Rightarrow> bool" where
  "float_integral (Finite q) = (of_int \<lfloor>q\<rfloor> = q)"
| "float_integral NegZero = True"
| "float_integral _ = False"

fun type_holds :: "string \<Rightarrow> json \<Rightarrow> bool" where
  "type_holds t JNull = (t = ''null'')"
| "type_holds t (JBool b) = (t = ''boolean'')"
| "type_holds t (JInt i) = (t = ''integer'' \<or> t = ''number'')"
| "type_holds t (JFloat f) = (t = ''number'' \<or> (t = ''integer'' \<and> float_integral f))"
| "type_holds t (JStr s) = (t = ''string'')"
| "type_holds t (JArr xs) = (t = ''array'')"
| "type_holds t (JObj fs) = (t = ''object'')"

definition numbers_hold :: "(string, json) dict \<Rightarrow> json \<Rightarrow> bool" where
  "numbers_hold s v =
     (case num_of v of
        None \<Rightarrow> True
      | Some f \<Rightarrow>
          pred_option (\<lambda>b. float_le b f) (number_field s ''minimum'') \<and>
          pred_option (\<lambda>b. float_less b f) (number_field s ''exclusiveMinimum'') \<and>
          pred_option (\<lambda>b. float_le f b) (number_field s ''maximum'') \<and>
          pred_option (\<lambda>b. float_less f b) (number_field s ''exclusiveMaximum''))"

fun length_holds :: "string \<Rightarrow> string \<Rightarrow> (string, json) dict \<Rightarrow> nat \<Rightarrow> bool" where
  "length_holds least most s n =
     (pred_option (\<lambda>b. float_le b (Finite (of_nat n))) (number_field s least) \<and>
      pred_option (\<lambda>b. float_le (Finite (of_nat n)) b) (number_field s most))"

definition values_hold :: "(string, json) dict \<Rightarrow> json \<Rightarrow> bool" where
  "values_hold s v \<longleftrightarrow>
     pred_option (json_equal v) (dget s ''const'') \<and>
     pred_option (list_ex (json_equal v)) (list_field s ''enum'')"

definition additional :: "(string, json) dict \<Rightarrow> string \<Rightarrow> json" where
  "additional s k = snd (node_or_true [] s k)"

fun parts_hold :: "(json \<Rightarrow> json \<Rightarrow> bool) \<Rightarrow> (string, json) dict \<Rightarrow> json \<Rightarrow> bool" where
  "parts_hold valid s (JStr t) = length_holds ''minLength'' ''maxLength'' s (length t)"
| "parts_hold valid s (JArr xs) =
     (length_holds ''minItems'' ''maxItems'' s (length xs) \<and> list_all (valid (additional s ''items'')) xs)"
| "parts_hold valid s (JObj fs) =
     (pred_option (\<lambda>ns. set ns \<subseteq> set (dkeys fs)) (required_names (dget s ''required'')) \<and>
      pred_option (\<lambda>ps. list_all (\<lambda>(k, x).
        valid (case dget ps k of Some p \<Rightarrow> p | None \<Rightarrow> additional s ''additionalProperties'') x) fs) (properties_of s))"
| "parts_hold valid s v = True"

definition branches_hold :: "(json \<Rightarrow> json \<Rightarrow> bool) \<Rightarrow> (string, json) dict \<Rightarrow> json \<Rightarrow> bool" where
  "branches_hold valid s v \<longleftrightarrow>
     pred_option (list_ex (\<lambda>b. valid b v)) (list_field s ''anyOf'') \<and>
     pred_option (\<lambda>bs. length (filter (\<lambda>b. valid b v) bs) = 1) (list_field s ''oneOf'') \<and>
     pred_option (list_all (\<lambda>b. valid b v)) (list_field s ''allOf'')"

definition keywords_hold :: "(json \<Rightarrow> json \<Rightarrow> bool) \<Rightarrow> (string, json) dict \<Rightarrow> json \<Rightarrow> bool" where
  "keywords_hold valid s v \<longleftrightarrow>
     pred_option (list_ex (\<lambda>t. type_holds t v)) (schema_types s) \<and>
     values_hold s v \<and> numbers_hold s v \<and> parts_hold valid s v \<and> branches_hold valid s v"

section \<open>Well-formed schemas\<close>

definition known_types :: "string list" where
  "known_types = [''null'', ''boolean'', ''integer'', ''number'', ''string'', ''array'', ''object'']"

definition number_keywords :: "string list" where
  "number_keywords =
     [''minimum'', ''maximum'', ''exclusiveMinimum'', ''exclusiveMaximum'', ''minLength'', ''maxLength'', ''minItems'',
      ''maxItems'']"

fun is_json_list :: "json \<Rightarrow> bool" where
  "is_json_list (JArr _) = True"
| "is_json_list _ = False"

definition keyword_forms_ok :: "(string, json) dict \<Rightarrow> bool" where
  "keyword_forms_ok s \<longleftrightarrow>
     set (dkeys s) \<subseteq> set handled_keywords \<union> set annotation_keywords - {''$ref''} \<and>
     (dget s ''type'' = None \<or> schema_types s \<noteq> None) \<and> set (types_or_empty s) \<subseteq> set known_types \<and>
     list_all (\<lambda>k. pred_option (\<lambda>v. num_of v \<noteq> None) (dget s k)) number_keywords \<and>
     required_names (dget s ''required'') \<noteq> None \<and> properties_of s \<noteq> None \<and>
     list_all (\<lambda>k. pred_option is_json_list (dget s k)) [''enum'', ''anyOf'', ''oneOf'', ''allOf'']"

text \<open>The subschemas of a schema object.\<close>

definition subschemas :: "(string, json) dict \<Rightarrow> json list" where
  "subschemas s =
     (case properties_of s of None \<Rightarrow> [] | Some ps \<Rightarrow> map snd ps) @
     concat (map (\<lambda>k. case dget s k of None \<Rightarrow> [] | Some v \<Rightarrow> [v]) [''additionalProperties'', ''items'']) @
     concat (map (\<lambda>k. case list_field s k of None \<Rightarrow> [] | Some vs \<Rightarrow> vs) [''anyOf'', ''oneOf'', ''allOf''])"

lemma properties_of_Some:
  "properties_of s = Some ps \<longleftrightarrow> (dget s ''properties'' = None \<and> ps = []) \<or> dget s ''properties'' = Some (JObj ps)"
  by (auto split: option.splits json.splits)

lemma list_field_Some: "list_field s k = Some vs \<longleftrightarrow> dget s k = Some (JArr vs)"
  by (auto split: option.splits json.splits)

declare properties_of.simps [simp del] list_field.simps [simp del]

lemma set_option_list:
  "set (case x of None \<Rightarrow> [] | Some v \<Rightarrow> f v) = (\<Union>v \<in> set_option x. set (f v))"
  by (cases x) auto

lemma subschemas_iff:
  "b \<in> set (subschemas s) \<longleftrightarrow>
     (\<exists>ps. properties_of s = Some ps \<and> b \<in> snd ` set ps) \<or>
     (\<exists>k \<in> {''additionalProperties'', ''items''}. dget s k = Some b) \<or>
     (\<exists>k \<in> {''anyOf'', ''oneOf'', ''allOf''}. \<exists>vs. list_field s k = Some vs \<and> b \<in> set vs)"
  by (simp add: subschemas_def set_option_list elem_set) blast

lemma subschema_branch:
  "k \<in> {''anyOf'', ''oneOf'', ''allOf''} \<Longrightarrow> list_field s k = Some vs \<Longrightarrow> b \<in> set vs \<Longrightarrow> b \<in> set (subschemas s)"
  unfolding subschemas_iff by blast

lemma subschema_property:
  "properties_of s = Some ps \<Longrightarrow> dget ps k = Some q \<Longrightarrow> q \<in> set (subschemas s)"
  unfolding subschemas_iff using dget_in_set [of ps k q] by (metis image_eqI snd_conv)

lemma subschema_size: "b \<in> set (subschemas s) \<Longrightarrow> size b < size (JObj s)"
  unfolding subschemas_iff
proof (elim disjE bexE exE conjE)
  fix ps assume p: "properties_of s = Some ps" "b \<in> snd ` set ps"
  then have "dget s ''properties'' = Some (JObj ps)" by (auto simp: properties_of_Some)
  moreover have "size b < size (JObj ps)" using p(2) json_size_obj by fastforce
  ultimately show ?thesis using json_size_field by fastforce
next
  fix k vs assume "list_field s k = Some vs" and b: "b \<in> set vs"
  then have "dget s k = Some (JArr vs)" by (simp add: list_field_Some)
  from json_size_field [OF this] json_size_arr [OF b] show ?thesis by linarith
qed (rule json_size_field)

text \<open>A schema all of whose schema objects satisfy \<open>P\<close>.\<close>

function every_schema :: "((string, json) dict \<Rightarrow> bool) \<Rightarrow> json \<Rightarrow> bool" where
  "every_schema P v =
     (case v of
        JBool b \<Rightarrow> True
      | JObj s \<Rightarrow> P s \<and> list_all (every_schema P) (subschemas s)
      | _ \<Rightarrow> False)"
  by pat_completeness auto
termination by (relation "measure (\<lambda>(P, v). size v)") (auto dest: subschema_size)

declare every_schema.simps [simp del]

lemma every_schema_simps [simp]:
  "every_schema P (JBool b)" "\<not> every_schema P JNull" "\<not> every_schema P (JInt i)" "\<not> every_schema P (JFloat f)"
  "\<not> every_schema P (JStr t)" "\<not> every_schema P (JArr xs)"
  by (simp_all add: every_schema.simps)

lemma every_schema_JObj:
  "every_schema P (JObj s) \<longleftrightarrow> P s \<and> (\<forall>b \<in> set (subschemas s). every_schema P b)"
  by (subst every_schema.simps) (simp add: list_all_iff)

definition schema_ok :: "json \<Rightarrow> bool" where
  "schema_ok = every_schema keyword_forms_ok"

section \<open>The contract of the library\<close>

locale schema_validator =
  fixes valid :: "json \<Rightarrow> json \<Rightarrow> bool"
  assumes valid_true: "valid (JBool True) v"
    and valid_false: "\<not> valid (JBool False) v"
    and valid_object: "schema_ok (JObj s) \<Longrightarrow> \<not> contains_reference (JObj s) \<Longrightarrow> valid (JObj s) v \<longleftrightarrow> keywords_hold valid s v"

text \<open>\<open>keywords_hold\<close> looks only at the validity against subschemas and \<open>true\<close>.\<close>

lemma additional_cases: "additional s k = JBool True \<or> dget s k = Some (additional s k)"
  by (auto simp: additional_def node_or_true_def split: option.splits)

lemma additional_subschema:
  "k \<in> {''additionalProperties'', ''items''} \<Longrightarrow> additional s k = JBool True \<or> additional s k \<in> set (subschemas s)"
  using additional_cases [of s k] unfolding subschemas_iff by blast

lemma keywords_hold_cong:
  assumes eq: "\<And>b x. b = JBool True \<or> b \<in> set (subschemas s) \<Longrightarrow> valid b x = valid' b x"
  shows "keywords_hold valid s v = keywords_hold valid' s v"
proof -
  have a: "valid (additional s k) x = valid' (additional s k) x" if "k \<in> {''additionalProperties'', ''items''}" for k x
    using additional_subschema [OF that, of s] eq by blast
  have p: "valid (case dget ps k of Some q \<Rightarrow> q | None \<Rightarrow> additional s ''additionalProperties'') x =
      valid' (case dget ps k of Some q \<Rightarrow> q | None \<Rightarrow> additional s ''additionalProperties'') x"
    if "properties_of s = Some ps" for ps k x
  proof (cases "dget ps k")
    case (Some q)
    then have "q \<in> set (subschemas s)" using that subschema_property by blast
    with Some eq show ?thesis by simp
  qed (simp add: a)
  have b: "valid b x = valid' b x" if "k \<in> {''anyOf'', ''oneOf'', ''allOf''}" "list_field s k = Some vs" "b \<in> set vs" for k vs b x
    using eq subschema_branch [OF that] by blast
  have parts: "parts_hold valid s v = parts_hold valid' s v"
  proof (cases v)
    case (JObj fs)
    show ?thesis unfolding JObj parts_hold.simps
      by (cases "properties_of s") (auto simp: list_all_iff p split: option.splits)
  qed (auto simp: list_all_iff a)
  have branches: "branches_hold valid s v = branches_hold valid' s v"
  proof -
    have "pred_option (list_ex (\<lambda>b. valid b v)) (list_field s ''anyOf'') = pred_option (list_ex (\<lambda>b. valid' b v)) (list_field s ''anyOf'')"
      using b [of "''anyOf''"] by (cases "list_field s ''anyOf''") (auto simp: list_ex_iff)
    moreover have "pred_option (\<lambda>bs. length (filter (\<lambda>b. valid b v) bs) = 1) (list_field s ''oneOf'') =
        pred_option (\<lambda>bs. length (filter (\<lambda>b. valid' b v) bs) = 1) (list_field s ''oneOf'')"
      using b [of "''oneOf''"] by (cases "list_field s ''oneOf''") (auto cong: filter_cong)
    moreover have "pred_option (list_all (\<lambda>b. valid b v)) (list_field s ''allOf'') = pred_option (list_all (\<lambda>b. valid' b v)) (list_field s ''allOf'')"
      using b [of "''allOf''"] by (cases "list_field s ''allOf''") (auto simp: list_all_iff)
    ultimately show ?thesis unfolding branches_hold_def by blast
  qed
  show ?thesis unfolding keywords_hold_def parts branches ..
qed

primrec bounded_valid :: "nat \<Rightarrow> json \<Rightarrow> json \<Rightarrow> bool" where
  "bounded_valid 0 s v = False"
| "bounded_valid (Suc n) s v =
     (case s of JBool b \<Rightarrow> b | JObj fs \<Rightarrow> keywords_hold (bounded_valid n) fs v | _ \<Rightarrow> False)"

definition reference_valid :: "json \<Rightarrow> json \<Rightarrow> bool" where
  "reference_valid s v = bounded_valid (Suc (size s)) s v"

lemma bounded_valid_enough:
  "size s < n \<Longrightarrow> size s < m \<Longrightarrow> bounded_valid n s v = bounded_valid m s v"
proof (induction "size s" arbitrary: s n m v rule: less_induct)
  case less
  obtain n' m' where nm: "n = Suc n'" "m = Suc m'" using less.prems by (metis less_imp_Suc_add)
  show ?case
  proof (cases s)
    case (JObj fs)
    have "keywords_hold (bounded_valid n') fs v = keywords_hold (bounded_valid m') fs v"
    proof (rule keywords_hold_cong)
      fix b x assume "b = JBool True \<or> b \<in> set (subschemas fs)"
      then show "bounded_valid n' b x = bounded_valid m' b x"
      proof
        assume b: "b = JBool True"
        have "n' \<noteq> 0" "m' \<noteq> 0" using less.prems nm JObj by auto
        with b show ?thesis by (cases n'; cases m') auto
      next
        assume "b \<in> set (subschemas fs)"
        from subschema_size [OF this] show ?thesis using less.prems nm JObj by (intro less.hyps) auto
      qed
    qed
    with JObj nm show ?thesis by simp
  qed (simp_all add: nm)
qed

interpretation reference: schema_validator reference_valid
proof
  show "reference_valid (JBool True) v" "\<not> reference_valid (JBool False) v" for v
    by (simp_all add: reference_valid_def)
  show "reference_valid (JObj s) v \<longleftrightarrow> keywords_hold reference_valid s v" for s v
  proof -
    have "keywords_hold (bounded_valid (size (JObj s))) s v = keywords_hold reference_valid s v"
    proof (rule keywords_hold_cong)
      fix b x assume "b = JBool True \<or> b \<in> set (subschemas s)"
      then show "bounded_valid (size (JObj s)) b x = reference_valid b x"
        using bounded_valid_enough [of b "size (JObj s)" "Suc (size b)" x] subschema_size [of b s]
        by (auto simp: reference_valid_def simp del: bounded_valid.simps)
    qed
    then show ?thesis by (simp add: reference_valid_def)
  qed
qed

end
