(* ===== verification/SchemaContainment.thy ===== *)
theory SchemaContainment
  imports SchemaSoundness
begin

text \<open>
  Documents without references whose finite values hold no booleans. On them equal values are accepted
  alike, and two schemas that Python finds equal accept the same values.
\<close>

section \<open>Plain documents\<close>

text \<open>Python's equality confuses a boolean with a number: no \<open>const\<close> or \<open>enum\<close> value contains one.\<close>

fun without_booleans :: "json \<Rightarrow> bool" where
  "without_booleans (JBool b) = False"
| "without_booleans (JArr xs) = (\<forall>x \<in> set xs. without_booleans x)"
| "without_booleans (JObj fs) = (\<forall>p \<in> set fs. without_booleans (snd p))"
| "without_booleans v = True"

definition finite_values :: "(string, json) dict \<Rightarrow> json list" where
  "finite_values s =
     (case dget s ''const'' of None \<Rightarrow> [] | Some c \<Rightarrow> [c]) @ (case list_field s ''enum'' of None \<Rightarrow> [] | Some vs \<Rightarrow> vs)"

definition object_ok :: "(string, json) dict \<Rightarrow> bool" where
  "object_ok s \<longleftrightarrow> list_all without_booleans (finite_values s)"

definition plain :: "json \<Rightarrow> bool" where
  "plain s \<longleftrightarrow> schema_ok s \<and> every_schema object_ok s \<and> \<not> contains_reference s \<and> json_ok s \<and> json_finite s"

definition value_ok :: "json \<Rightarrow> bool" where
  "value_ok v \<longleftrightarrow> json_ok v \<and> json_finite v"

lemma value_ok_field: "value_ok (JObj fs) \<Longrightarrow> dget fs k = Some v \<Longrightarrow> value_ok v"
  unfolding value_ok_def using dget_in_set by fastforce

lemma value_ok_fields: "value_ok (JObj fs) \<Longrightarrow> (k, v) \<in> set fs \<Longrightarrow> value_ok v"
  unfolding value_ok_def by fastforce

lemma value_ok_items: "value_ok (JArr xs) \<Longrightarrow> x \<in> set xs \<Longrightarrow> value_ok x"
  unfolding value_ok_def by simp

lemma no_reference_field: "\<not> contains_reference (JObj fs) \<Longrightarrow> dget fs k = Some v \<Longrightarrow> \<not> contains_reference v"
  using dget_in_set by fastforce

lemma subschema_closed:
  assumes "b \<in> set (subschemas s)"
    and "\<And>k v. dget s k = Some v \<Longrightarrow> P v" "\<And>fs k v. P (JObj fs) \<Longrightarrow> (k, v) \<in> set fs \<Longrightarrow> P v"
      "\<And>xs x. P (JArr xs) \<Longrightarrow> x \<in> set xs \<Longrightarrow> P x"
  shows "P b"
  using assms(1) unfolding subschemas_iff
proof (elim disjE exE conjE bexE)
  fix ps assume p: "properties_of s = Some ps" "b \<in> snd ` set ps"
  then have "dget s ''properties'' = Some (JObj ps)" by (auto simp: properties_of_Some)
  with assms(2) have "P (JObj ps)" by blast
  moreover from p(2) obtain k where "(k, b) \<in> set ps" by auto
  ultimately show "P b" by (rule assms(3))
next
  fix k assume "dget s k = Some b"
  then show "P b" by (rule assms(2))
next
  fix k vs assume v: "list_field s k = Some vs" "b \<in> set vs"
  then have "dget s k = Some (JArr vs)" by (simp add: list_field_Some)
  with assms(2) have "P (JArr vs)" by blast
  then show "P b" using v(2) by (rule assms(4))
qed

lemma plain_subschema:
  assumes "plain (JObj s)" "b \<in> set (subschemas s)"
  shows "plain b"
proof -
  have "schema_ok b" "every_schema object_ok b" using assms by (simp_all add: plain_def schema_ok_def every_schema_JObj)
  moreover have "\<not> contains_reference b \<and> value_ok b"
  proof (rule subschema_closed [OF assms(2), where P = "\<lambda>v. \<not> contains_reference v \<and> value_ok v"])
    have "\<not> contains_reference (JObj s)" "value_ok (JObj s)" using assms(1) by (simp_all add: plain_def value_ok_def)
    then show "\<not> contains_reference v \<and> value_ok v" if "dget s k = Some v" for k v
      using that no_reference_field value_ok_field by blast
  next
    fix fs k v assume "\<not> contains_reference (JObj fs) \<and> value_ok (JObj fs)" and f: "(k, v) \<in> set fs"
    then show "\<not> contains_reference v \<and> value_ok v" using value_ok_fields [OF _ f] by fastforce
  next
    fix xs x assume "\<not> contains_reference (JArr xs) \<and> value_ok (JArr xs)" and x: "x \<in> set xs"
    then show "\<not> contains_reference x \<and> value_ok x" using value_ok_items [OF _ x] by simp
  qed
  ultimately show ?thesis by (simp add: plain_def value_ok_def)
qed

lemma plain_true [simp]: "plain (JBool b)"
  by (simp add: plain_def schema_ok_def)

lemma plain_additional:
  "plain (JObj s) \<Longrightarrow> k \<in> {''additionalProperties'', ''items''} \<Longrightarrow> plain (additional s k)"
  using additional_subschema [of k s] plain_subschema by auto

lemma plain_forms: "plain (JObj s) \<Longrightarrow> keyword_forms_ok s"
  by (simp add: plain_def schema_ok_def every_schema_JObj)

section \<open>Equal values\<close>

definition ceq :: "json \<Rightarrow> json \<Rightarrow> bool" where
  "ceq v w \<longleftrightarrow> canon_of v = canon_of w"

lemma ceq_refl [simp]: "ceq v v"
  by (simp add: ceq_def)

lemma ceq_simple [simp]:
  "ceq JNull w \<longleftrightarrow> w = JNull" "ceq (JBool b) w \<longleftrightarrow> w = JBool b" "ceq (JStr s) w \<longleftrightarrow> w = JStr s"
  subgoal by (cases w) (simp_all add: ceq_def)
  subgoal by (cases w) (auto simp: ceq_def)
  subgoal by (cases w) (auto simp: ceq_def)
  done

lemma ceq_number:
  "ceq v w \<Longrightarrow> num_of v = Some f \<Longrightarrow> \<exists>g. num_of w = Some g \<and> float_norm f = float_norm g"
  by (cases v; cases w) (auto simp: ceq_def)

lemma ceq_number_None: "ceq v w \<Longrightarrow> num_of v = None \<longleftrightarrow> num_of w = None"
  by (cases v; cases w) (auto simp: ceq_def)

lemma map_eq_list_all2: "map f xs = map f ys \<longleftrightarrow> list_all2 (\<lambda>x y. f x = f y) xs ys"
proof (induction xs arbitrary: ys)
  case (Cons x xs)
  then show ?case by (cases ys) auto
qed simp

lemma ceq_JArr: "ceq (JArr xs) w \<Longrightarrow> \<exists>ys. w = JArr ys \<and> list_all2 ceq xs ys"
proof (cases w)
  case (JArr ys)
  assume "ceq (JArr xs) w"
  then have "map canon_of xs = map canon_of ys" by (simp add: ceq_def JArr)
  then have "list_all2 ceq xs ys" unfolding map_eq_list_all2 by (rule list_all2_mono) (simp add: ceq_def)
  with JArr show ?thesis by blast
qed (auto simp: ceq_def)

lemma ceq_JObj: "ceq (JObj fs) w \<Longrightarrow> \<exists>gs. w = JObj gs \<and> (\<forall>k. rel_option ceq (dget fs k) (dget gs k))"
proof (cases w)
  case (JObj gs)
  assume "ceq (JObj fs) w"
  then have eq: "canon_fields fs = canon_fields gs" by (simp add: ceq_def JObj)
  have "rel_option ceq (dget fs k) (dget gs k)" for k
    using fun_cong [OF eq, of k] by (cases "dget fs k"; cases "dget gs k") (auto simp: canon_fields_dget ceq_def)
  with JObj show ?thesis by blast
qed (auto simp: ceq_def)

lemma json_equal_ceq: "value_ok v \<Longrightarrow> json_ok c \<Longrightarrow> json_equal v c \<longleftrightarrow> ceq v c"
  by (simp add: json_equal_canon value_ok_def ceq_def)

lemma float_less_norm: "float_norm f = float_norm f' \<Longrightarrow> float_norm g = float_norm g' \<Longrightarrow> float_less f g = float_less f' g'"
  by (cases f; cases f'; cases g; cases g') auto

lemma float_le_norm: "float_norm f = float_norm f' \<Longrightarrow> float_norm g = float_norm g' \<Longrightarrow> float_le f g = float_le f' g'"
  unfolding float_le_def by (simp add: float_less_norm [of f f' g g'] float_eq_norm) (cases f; cases f'; cases g; cases g'; simp)

lemma float_integral_norm: "float_norm f = float_norm g \<Longrightarrow> float_integral f = float_integral g"
  by (cases f; cases g) auto

lemma type_holds_number:
  "num_of v = Some f \<Longrightarrow> type_holds t v \<longleftrightarrow> t = ''number'' \<or> (t = ''integer'' \<and> float_integral f)"
  by (cases v) auto

lemma type_holds_ceq: "ceq v w \<Longrightarrow> type_holds t v = type_holds t w"
proof (cases "num_of v")
  case None
  assume "ceq v w"
  then show ?thesis using None by (cases v) (auto dest: ceq_JArr ceq_JObj)
next
  case (Some f)
  assume c: "ceq v w"
  from ceq_number [OF this Some] obtain g where "num_of w = Some g" "float_norm f = float_norm g" by blast
  with Some show ?thesis using float_integral_norm [of f g] by (simp add: type_holds_number)
qed

lemma numbers_hold_ceq: "ceq v w \<Longrightarrow> numbers_hold s v = numbers_hold s w"
proof (cases "num_of v")
  case (Some f)
  assume "ceq v w"
  from ceq_number [OF this Some] obtain g where g: "num_of w = Some g" "float_norm f = float_norm g" by blast
  then have "float_le f = float_le g" "float_less f = float_less g"
    using float_le_norm [of f g] float_less_norm [of f g] by (auto simp: fun_eq_iff)
  moreover have "float_le b f = float_le b g" "float_less b f = float_less b g" for b
    using g float_le_norm [of b b f g] float_less_norm [of b b f g] by simp_all
  ultimately show ?thesis using Some g by (simp add: numbers_hold_def)
next
  case None
  assume "ceq v w"
  with None have "num_of w = None" by (simp add: ceq_number_None)
  with None show ?thesis by (simp add: numbers_hold_def)
qed

lemma pred_option_cong2: "rel_option (\<lambda>x y. P x = Q y) a b \<Longrightarrow> pred_option P a = pred_option Q b"
  by (cases a; cases b) auto

lemma values_hold_ceq:
  assumes "ceq v w" "value_ok v" "value_ok w" "json_ok (JObj s)"
  shows "values_hold s v = values_hold s w"
proof -
  have ok: "json_ok c" if "dget s k = Some c" for k c using assms(4) dget_in_set [OF that] by fastforce
  have eq: "json_equal v c = json_equal w c" if "json_ok c" for c
    using assms that by (simp add: json_equal_ceq) (simp add: ceq_def)
  have "pred_option (json_equal v) (dget s ''const'') = pred_option (json_equal w) (dget s ''const'')"
    using eq ok [of "''const''"] by (cases "dget s ''const''") auto
  moreover have "pred_option (list_ex (json_equal v)) (list_field s ''enum'') = pred_option (list_ex (json_equal w)) (list_field s ''enum'')"
  proof (cases "list_field s ''enum''")
    case (Some cs)
    then have "json_ok (JArr cs)" using ok [of "''enum''"] by (simp add: list_field_Some)
    with Some eq show ?thesis by (auto simp: list_ex_iff)
  qed simp
  ultimately show ?thesis by (simp add: values_hold_def)
qed

section \<open>Equal values are accepted alike\<close>

lemma list_all_ceq:
  assumes "list_all2 ceq xs ys" "\<And>x y. x \<in> set xs \<Longrightarrow> y \<in> set ys \<Longrightarrow> ceq x y \<Longrightarrow> P x = P y"
  shows "list_all P xs = list_all P ys"
  using assms by (induction rule: list_all2_induct) auto

lemma dict_all_ceq:
  assumes "dict_ok fs" "dict_ok gs" "\<And>k. rel_option ceq (dget fs k) (dget gs k)"
    and "\<And>k x y. dget fs k = Some x \<Longrightarrow> dget gs k = Some y \<Longrightarrow> ceq x y \<Longrightarrow> P k x = P k y"
  shows "list_all (\<lambda>(k, x). P k x) fs = list_all (\<lambda>(k, x). P k x) gs"
proof -
  have all: "list_all (\<lambda>(k, x). P k x) hs \<longleftrightarrow> (\<forall>k x. dget hs k = Some x \<longrightarrow> P k x)" if "dict_ok hs" for hs
    using that by (auto simp: list_all_iff in_set_dget dest: dget_in_set)
  have "(dget fs k = Some x \<longrightarrow> P k x) = (\<forall>y. dget gs k = Some y \<longrightarrow> P k y)" if "dget fs k = Some x" for k x
    using assms(3) [of k] assms(4) [of k x] that by (cases "dget gs k") auto
  moreover have "\<exists>x. dget fs k = Some x" if "dget gs k = Some y" for k y
    using assms(3) [of k] that by (cases "dget fs k") auto
  ultimately show ?thesis unfolding all [OF assms(1)] all [OF assms(2)] by (metis (no_types, opaque_lifting))
qed

lemma dkeys_iff: "k \<in> set (dkeys fs) \<longleftrightarrow> dget fs k \<noteq> None"
  by (simp add: dkeys_def dget_None_iff)

lemma dkeys_ceq:
  assumes "\<And>k. rel_option ceq (dget fs k) (dget gs k)"
  shows "set (dkeys fs) = set (dkeys gs)"
proof (rule set_eqI)
  show "k \<in> set (dkeys fs) \<longleftrightarrow> k \<in> set (dkeys gs)" for k
    unfolding dkeys_iff using assms [of k] by (cases "dget fs k"; cases "dget gs k") simp_all
qed

lemma parts_hold_number [simp]: "num_of v \<noteq> None \<Longrightarrow> parts_hold valid s v"
  by (cases v) auto

context schema_validator
begin

lemma valid_bool [simp]: "valid (JBool b) v = b"
  by (cases b) (simp_all add: valid_true valid_false)

lemma valid_ceq:
  "plain s \<Longrightarrow> ceq v w \<Longrightarrow> value_ok v \<Longrightarrow> value_ok w \<Longrightarrow> valid s v = valid s w"
proof (induction "size s" arbitrary: s v w rule: less_induct)
  case less
  show ?case
  proof (cases s)
    case (JObj fs)
    note plain = less.prems(1) [unfolded JObj]
    have IH: "valid b x = valid b y" if "b = JBool True \<or> b \<in> set (subschemas fs)" "ceq x y" "value_ok x" "value_ok y" for b x y
      using that(1)
    proof
      assume b: "b \<in> set (subschemas fs)"
      then have "size b < size s" by (simp only: JObj subschema_size)
      then show ?thesis using plain_subschema [OF plain b] that(2-4) by (rule less.hyps)
    qed (simp add: valid_true)
    have add: "valid (additional fs k) x = valid (additional fs k) y"
      if "k \<in> {''additionalProperties'', ''items''}" "ceq x y" "value_ok x" "value_ok y" for k x y
      using additional_subschema [OF that(1)] that(2-4) by (rule IH)
    have parts: "parts_hold valid fs v = parts_hold valid fs w"
    proof (cases v)
      case (JArr xs)
      with less.prems(2) obtain ys where ys: "w = JArr ys" "list_all2 ceq xs ys" using ceq_JArr by blast
      have "list_all (valid (additional fs ''items'')) xs = list_all (valid (additional fs ''items'')) ys"
        using less.prems(3,4) JArr ys(1)
        by (intro list_all_ceq [OF ys(2)] add) (auto intro: value_ok_items)
      with JArr ys show ?thesis by (simp add: list_all2_lengthD)
    next
      case (JObj xs)
      with less.prems(2) obtain ys where ys: "w = JObj ys" "\<And>k. rel_option ceq (dget xs k) (dget ys k)" using ceq_JObj by blast
      have ok: "dict_ok xs" "dict_ok ys" using less.prems(3,4) JObj ys(1) by (simp_all add: value_ok_def dict_ok_def)
      have "list_all (\<lambda>(k, x). valid (case dget ps k of Some p \<Rightarrow> p | None \<Rightarrow> additional fs ''additionalProperties'') x) xs =
          list_all (\<lambda>(k, x). valid (case dget ps k of Some p \<Rightarrow> p | None \<Rightarrow> additional fs ''additionalProperties'') x) ys"
        if ps: "properties_of fs = Some ps" for ps
      proof (rule dict_all_ceq [OF ok ys(2)])
        fix k x y assume k: "dget xs k = Some x" "dget ys k = Some y" "ceq x y"
        have v: "value_ok x" "value_ok y" using value_ok_field k less.prems(3,4) JObj ys(1) by blast+
        show "valid (case dget ps k of Some p \<Rightarrow> p | None \<Rightarrow> additional fs ''additionalProperties'') x =
            valid (case dget ps k of Some p \<Rightarrow> p | None \<Rightarrow> additional fs ''additionalProperties'') y"
          using add [OF _ k(3) v] IH [OF _ k(3) v] subschema_property [OF ps]
          by (auto split: option.splits)
      qed
      then show ?thesis using JObj ys(1) dkeys_ceq [OF ys(2)] by (cases "properties_of fs") auto
    next
      case (JInt i)
      then have "num_of v \<noteq> None" by simp
      then show ?thesis using ceq_number_None [OF less.prems(2)] by simp
    next
      case (JFloat f)
      then have "num_of v \<noteq> None" by simp
      then show ?thesis using ceq_number_None [OF less.prems(2)] by simp
    qed (use less.prems(2) in auto)
    have branches: "branches_hold valid fs v = branches_hold valid fs w"
    proof -
      have b: "valid b v = valid b w"
        if "list_field fs k = Some vs" "k \<in> {''anyOf'', ''oneOf'', ''allOf''}" "b \<in> set vs" for k vs b
        using subschema_branch [OF that(2,1,3)] less.prems(2-4) by (intro IH) simp
      have "pred_option (list_ex (\<lambda>b. valid b v)) (list_field fs ''anyOf'') =
          pred_option (list_ex (\<lambda>b. valid b w)) (list_field fs ''anyOf'')"
        using b [of "''anyOf''"] by (cases "list_field fs ''anyOf''") (auto simp: list_ex_iff)
      moreover have "pred_option (\<lambda>bs. length (filter (\<lambda>b. valid b v) bs) = 1) (list_field fs ''oneOf'') =
          pred_option (\<lambda>bs. length (filter (\<lambda>b. valid b w) bs) = 1) (list_field fs ''oneOf'')"
        using b [of "''oneOf''"] by (cases "list_field fs ''oneOf''") (auto cong: filter_cong)
      moreover have "pred_option (list_all (\<lambda>b. valid b v)) (list_field fs ''allOf'') =
          pred_option (list_all (\<lambda>b. valid b w)) (list_field fs ''allOf'')"
        using b [of "''allOf''"] by (cases "list_field fs ''allOf''") (auto simp: list_all_iff)
      ultimately show ?thesis unfolding branches_hold_def by blast
    qed
    have ok: "schema_ok (JObj fs)" "\<not> contains_reference (JObj fs)" "json_ok (JObj fs)" using plain by (simp_all add: plain_def)
    show ?thesis
      unfolding JObj valid_object [OF ok(1,2)] keywords_hold_def parts branches
        values_hold_ceq [OF less.prems(2-4) ok(3)] numbers_hold_ceq [OF less.prems(2)] type_holds_ceq [OF less.prems(2)] ..
  qed (use less.prems in \<open>auto simp: plain_def schema_ok_def\<close>)
qed

end

section \<open>Schemas that Python finds equal\<close>

definition peq :: "json \<Rightarrow> json \<Rightarrow> bool" where
  "peq a b \<longleftrightarrow> ceq (bool_as_int a) (bool_as_int b)"

lemma bool_as_int_ok: "json_ok v \<Longrightarrow> json_ok (bool_as_int v)" "json_finite v \<Longrightarrow> json_finite (bool_as_int v)"
  by (induction v rule: bool_as_int.induct) (auto simp: comp_def)

lemma py_equal_peq: "value_ok a \<Longrightarrow> value_ok b \<Longrightarrow> py_equal a b \<longleftrightarrow> peq a b"
  unfolding py_equal_def peq_def by (intro json_equal_ceq) (simp_all add: value_ok_def bool_as_int_ok)

lemma without_booleans_id: "without_booleans v \<Longrightarrow> bool_as_int v = v"
  by (induction v rule: bool_as_int.induct) (auto intro: map_idI)

lemma dget_bool_as_int: "dget (map (\<lambda>p. (fst p, bool_as_int (snd p))) fs) k = map_option bool_as_int (dget fs k)"
  by (induction fs) auto

lemma bool_as_int_cases:
  "bool_as_int y = JStr t \<longleftrightarrow> y = JStr t" "bool_as_int y = JNull \<longleftrightarrow> y = JNull"
  "bool_as_int y = JArr zs \<longleftrightarrow> (\<exists>ys. y = JArr ys \<and> zs = map bool_as_int ys)"
  "bool_as_int y = JObj hs \<longleftrightarrow> (\<exists>gs. y = JObj gs \<and> hs = map (\<lambda>p. (fst p, bool_as_int (snd p))) gs)"
  by (cases y; auto)+

lemma peq_JStr [simp]: "peq (JStr t) y \<longleftrightarrow> y = JStr t"
  by (simp add: peq_def bool_as_int_cases)

lemma peq_JArr: "peq (JArr xs) y \<Longrightarrow> \<exists>ys. y = JArr ys \<and> list_all2 peq xs ys"
  unfolding peq_def by (auto dest!: ceq_JArr simp: bool_as_int_cases list.rel_map)

lemma peq_JObj: "peq (JObj fs) y \<Longrightarrow> \<exists>gs. y = JObj gs \<and> (\<forall>k. rel_option peq (dget fs k) (dget gs k))"
  unfolding peq_def by (auto dest!: ceq_JObj simp: bool_as_int_cases dget_bool_as_int option.rel_map)

lemma peq_sym: "peq a b \<Longrightarrow> peq b a"
  by (simp add: peq_def ceq_def)

lemma peq_number: "peq x y \<Longrightarrow> num_of x = Some f \<Longrightarrow> num_of y \<noteq> None \<Longrightarrow> \<exists>g. num_of y = Some g \<and> float_norm f = float_norm g"
  unfolding peq_def by (cases x; cases y) (auto simp: ceq_def)

lemma strings_in_peq: "list_all2 peq xs ys \<Longrightarrow> strings_in xs = Some ts \<Longrightarrow> strings_in ys = Some ts"
proof (induction arbitrary: ts rule: list_all2_induct)
  case (Cons x xs y ys)
  then show ?case by (cases x) (auto split: option.splits)
qed simp

definition fields_peq :: "(string, json) dict \<Rightarrow> (string, json) dict \<Rightarrow> bool" where
  "fields_peq l r \<longleftrightarrow> (\<forall>k. rel_option peq (dget l k) (dget r k))"

lemma field_both: "fields_peq l r \<Longrightarrow> dget l k = Some a \<Longrightarrow> \<exists>b. dget r k = Some b \<and> peq a b"
  unfolding fields_peq_def by (cases "dget r k") (auto dest: spec [of _ k])

lemma field_none: "fields_peq l r \<Longrightarrow> dget l k = None \<longleftrightarrow> dget r k = None"
  unfolding fields_peq_def by (cases "dget l k"; cases "dget r k") (auto dest: spec [of _ k])

lemma types_equal:
  assumes "plain (JObj l)" "fields_peq l r"
  shows "schema_types l = schema_types r"
proof (cases "dget l ''type''")
  case None
  then show ?thesis using field_none [OF assms(2), of "''type''"] by (simp add: schema_types_def)
next
  case (Some a)
  with field_both [OF assms(2)] obtain b where b: "dget r ''type'' = Some b" "peq a b" by blast
  from plain_forms [OF assms(1)] Some obtain ts where ts: "schema_types l = Some ts"
    unfolding keyword_forms_ok_def by auto
  show ?thesis
  proof (cases a)
    case (JArr xs)
    with b obtain ys where "b = JArr ys" "list_all2 peq xs ys" using peq_JArr by blast
    with ts Some JArr b(1) strings_in_peq show ?thesis by (simp add: schema_types_def)
  qed (use ts Some b in \<open>auto simp: schema_types_def\<close>)
qed

lemma required_equal:
  assumes "plain (JObj l)" "fields_peq l r"
  shows "required_names (dget l ''required'') = required_names (dget r ''required'')"
proof (cases "dget l ''required''")
  case None
  then show ?thesis using field_none [OF assms(2), of "''required''"] by simp
next
  case (Some a)
  with field_both [OF assms(2)] obtain b where b: "dget r ''required'' = Some b" "peq a b" by blast
  from plain_forms [OF assms(1)] have n: "required_names (dget l ''required'') \<noteq> None" by (simp add: keyword_forms_ok_def)
  show ?thesis
  proof (cases a)
    case (JArr xs)
    with b obtain ys where "b = JArr ys" "list_all2 peq xs ys" using peq_JArr by blast
    with n Some JArr b(1) strings_in_peq [of xs ys] show ?thesis by (cases "strings_in xs") auto
  qed (use n Some in auto)
qed

lemma number_equal:
  assumes "plain (JObj l)" "plain (JObj r)" "fields_peq l r" "k \<in> set number_keywords"
  shows "rel_option (\<lambda>f g. float_norm f = float_norm g) (number_field l k) (number_field r k)"
proof (cases "dget l k")
  case None
  then show ?thesis using field_none [OF assms(3), of k] by (simp add: number_field_def)
next
  case (Some a)
  with field_both [OF assms(3)] obtain b where b: "dget r k = Some b" "peq a b" by blast
  have "num_of a \<noteq> None" "num_of b \<noteq> None"
    using plain_forms [OF assms(1)] plain_forms [OF assms(2)] assms(4) Some b(1)
    by (fastforce simp: keyword_forms_ok_def list_all_iff)+
  with peq_number [OF b(2)] Some b(1) show ?thesis by (auto simp: number_field_def)
qed

lemma properties_peq:
  assumes "plain (JObj l)" "plain (JObj r)" "fields_peq l r"
  obtains ps qs where "properties_of l = Some ps" "properties_of r = Some qs" "fields_peq ps qs"
proof (cases "dget l ''properties''")
  case None
  then have "properties_of l = Some []" "properties_of r = Some []"
    using field_none [OF assms(3), of "''properties''"] by (simp_all add: properties_of.simps)
  with that show ?thesis by (simp add: fields_peq_def)
next
  case (Some a)
  with field_both [OF assms(3)] obtain b where b: "dget r ''properties'' = Some b" "peq a b" by blast
  have "properties_of l \<noteq> None" using plain_forms [OF assms(1)] by (simp add: keyword_forms_ok_def)
  then obtain ps where ps: "a = JObj ps" "properties_of l = Some ps" using Some by (auto simp: properties_of_Some)
  with b(2) obtain qs where qs: "b = JObj qs" "fields_peq ps qs" using peq_JObj unfolding fields_peq_def by blast
  then have "properties_of r = Some qs" using b(1) by (simp add: properties_of_Some)
  with ps qs that show ?thesis by blast
qed

lemma list_field_peq:
  assumes "fields_peq l r" "list_field l k = Some vs"
  shows "\<exists>ws. list_field r k = Some ws \<and> list_all2 peq vs ws"
proof -
  from assms(2) have "dget l k = Some (JArr vs)" by (simp add: list_field_Some)
  from field_both [OF assms(1) this] obtain b where "dget r k = Some b" "peq (JArr vs) b" by blast
  then show ?thesis using peq_JArr by (auto simp: list_field_Some)
qed

lemma fields_peq_sym: "fields_peq l r \<Longrightarrow> fields_peq r l"
proof -
  assume f: "fields_peq l r"
  have "rel_option peq (dget r k) (dget l k)" for k
    using f [unfolded fields_peq_def, THEN spec, of k] peq_sym by (cases "dget l k"; cases "dget r k") auto
  then show ?thesis by (simp add: fields_peq_def)
qed

lemma list_field_none:
  assumes "fields_peq l r"
  shows "list_field l k = None \<longleftrightarrow> list_field r k = None"
  using list_field_peq [OF assms] list_field_peq [OF fields_peq_sym [OF assms]]
  by (metis not_None_eq)

text \<open>A property of a keyword's list is the same for both schemas when its elements agree.\<close>

lemma pred_list_peq:
  assumes "fields_peq l r"
    and "\<And>vs ws. list_field l k = Some vs \<Longrightarrow> list_field r k = Some ws \<Longrightarrow> list_all2 peq vs ws \<Longrightarrow> P vs = Q ws"
  shows "pred_option P (list_field l k) = pred_option Q (list_field r k)"
proof (cases "list_field l k")
  case None
  then show ?thesis using list_field_none [OF assms(1), of k] by simp
next
  case (Some vs)
  with list_field_peq [OF assms(1)] obtain ws where "list_field r k = Some ws" "list_all2 peq vs ws" by blast
  with Some assms(2) show ?thesis by simp
qed

lemma list_all2_filter_length:
  "list_all2 (\<lambda>a b. P a = Q b) xs ys \<Longrightarrow> length (filter P xs) = length (filter Q ys)"
  by (induction rule: list_all2_induct) auto

lemma list_all2_all_ex:
  "list_all2 (\<lambda>a b. P a = Q b) xs ys \<Longrightarrow> list_all P xs = list_all Q ys"
  "list_all2 (\<lambda>a b. P a = Q b) xs ys \<Longrightarrow> list_ex P xs = list_ex Q ys"
  by (induction rule: list_all2_induct; simp)+

lemma finite_value_ok:
  assumes "plain (JObj s)" "dget s ''const'' = Some c \<or> (\<exists>vs. list_field s ''enum'' = Some vs \<and> c \<in> set vs)"
  shows "without_booleans c" "json_ok c"
proof -
  have "c \<in> set (finite_values s)" using assms(2) by (auto simp: finite_values_def)
  then show "without_booleans c"
    using assms(1) by (simp add: plain_def every_schema_JObj object_ok_def list_all_iff)
  have v: "value_ok (JObj s)" using assms(1) by (simp add: plain_def value_ok_def)
  show "json_ok c"
    using assms(2)
  proof
    assume "dget s ''const'' = Some c"
    then show ?thesis using value_ok_field [OF v] by (simp add: value_ok_def)
  next
    assume "\<exists>vs. list_field s ''enum'' = Some vs \<and> c \<in> set vs"
    then obtain vs where vs: "dget s ''enum'' = Some (JArr vs)" "c \<in> set vs" by (auto simp: list_field_Some)
    from value_ok_items [OF value_ok_field [OF v vs(1)] vs(2)] show ?thesis by (simp add: value_ok_def)
  qed
qed

lemma peq_values: "peq c d \<Longrightarrow> without_booleans c \<Longrightarrow> without_booleans d \<Longrightarrow> ceq c d"
  by (simp add: peq_def without_booleans_id)

lemma json_equal_right: "ceq c d \<Longrightarrow> json_ok c \<Longrightarrow> json_ok d \<Longrightarrow> value_ok v \<Longrightarrow> json_equal v c = json_equal v d"
  by (simp add: json_equal_ceq) (simp add: ceq_def)

lemma values_equal:
  assumes "plain (JObj l)" "plain (JObj r)" "fields_peq l r" "value_ok v"
  shows "values_hold l v = values_hold r v"
proof -
  have "pred_option (json_equal v) (dget l ''const'') = pred_option (json_equal v) (dget r ''const'')"
  proof (cases "dget l ''const''")
    case None
    then show ?thesis using field_none [OF assms(3), of "''const''"] by simp
  next
    case (Some c)
    with field_both [OF assms(3)] obtain d where d: "dget r ''const'' = Some d" "peq c d" by blast
    have "without_booleans c" "json_ok c" "without_booleans d" "json_ok d"
      using finite_value_ok [OF assms(1), of c] finite_value_ok [OF assms(2), of d] Some d(1) by simp_all
    with d(2) assms(4) have "json_equal v c = json_equal v d" by (intro json_equal_right peq_values)
    with Some d show ?thesis by simp
  qed
  moreover have "pred_option (list_ex (json_equal v)) (list_field l ''enum'') = pred_option (list_ex (json_equal v)) (list_field r ''enum'')"
  proof (rule pred_list_peq [OF assms(3)])
    fix vs ws assume e: "list_field l ''enum'' = Some vs" "list_field r ''enum'' = Some ws" "list_all2 peq vs ws"
    have "list_all2 (\<lambda>c d. json_equal v c = json_equal v d) vs ws"
    proof (rule list.rel_mono_strong [OF e(3)])
      fix c d assume m: "c \<in> set vs" "d \<in> set ws" "peq c d"
      have "without_booleans c" "json_ok c" "without_booleans d" "json_ok d"
        using finite_value_ok [OF assms(1), of c] finite_value_ok [OF assms(2), of d] e(1,2) m(1,2) by simp_all
      with m(3) assms(4) show "json_equal v c = json_equal v d" by (intro json_equal_right peq_values)
    qed
    then show "list_ex (json_equal v) vs = list_ex (json_equal v) ws" by (rule list_all2_all_ex)
  qed
  ultimately show ?thesis by (simp add: values_hold_def)
qed

lemma pred_number_equal:
  assumes "plain (JObj l)" "plain (JObj r)" "fields_peq l r" "k \<in> set number_keywords"
    and "\<And>f g. float_norm f = float_norm g \<Longrightarrow> P f = P g"
  shows "pred_option P (number_field l k) = pred_option P (number_field r k)"
proof (cases "number_field l k")
  case None
  then show ?thesis using number_equal [OF assms(1-4)] by (cases "number_field r k") simp_all
next
  case (Some f)
  then obtain g where "number_field r k = Some g" "float_norm f = float_norm g"
    using number_equal [OF assms(1-4)] by (cases "number_field r k") simp_all
  with Some assms(5) [of f g] show ?thesis by simp
qed

lemma float_norm_respects:
  "float_norm f = float_norm g \<Longrightarrow> float_le f x = float_le g x" "float_norm f = float_norm g \<Longrightarrow> float_le x f = float_le x g"
  "float_norm f = float_norm g \<Longrightarrow> float_less f x = float_less g x" "float_norm f = float_norm g \<Longrightarrow> float_less x f = float_less x g"
  by (rule float_le_norm float_less_norm; simp)+

lemma numbers_equal:
  assumes "plain (JObj l)" "plain (JObj r)" "fields_peq l r"
  shows "numbers_hold l v = numbers_hold r v"
proof (cases "num_of v")
  case (Some f)
  note eq = pred_number_equal [OF assms]
  have "pred_option (\<lambda>b. float_le b f) (number_field l ''minimum'') = pred_option (\<lambda>b. float_le b f) (number_field r ''minimum'')"
    "pred_option (\<lambda>b. float_less b f) (number_field l ''exclusiveMinimum'') = pred_option (\<lambda>b. float_less b f) (number_field r ''exclusiveMinimum'')"
    "pred_option (\<lambda>b. float_le f b) (number_field l ''maximum'') = pred_option (\<lambda>b. float_le f b) (number_field r ''maximum'')"
    "pred_option (\<lambda>b. float_less f b) (number_field l ''exclusiveMaximum'') = pred_option (\<lambda>b. float_less f b) (number_field r ''exclusiveMaximum'')"
    by (rule eq, simp add: number_keywords_def, erule float_norm_respects)+
  with Some show ?thesis by (simp add: numbers_hold_def)
qed (simp add: numbers_hold_def)

lemma lengths_equal:
  assumes "plain (JObj l)" "plain (JObj r)" "fields_peq l r" "least \<in> set number_keywords" "most \<in> set number_keywords"
  shows "length_holds least most l n = length_holds least most r n"
proof -
  have "pred_option (\<lambda>b. float_le b (Finite (of_nat n))) (number_field l least) =
      pred_option (\<lambda>b. float_le b (Finite (of_nat n))) (number_field r least)"
    by (rule pred_number_equal [OF assms(1-4)]) (erule float_norm_respects)
  moreover have "pred_option (\<lambda>b. float_le (Finite (of_nat n)) b) (number_field l most) =
      pred_option (\<lambda>b. float_le (Finite (of_nat n)) b) (number_field r most)"
    by (rule pred_number_equal [OF assms(1-3,5)]) (erule float_norm_respects)
  ultimately show ?thesis by simp
qed

context schema_validator
begin

lemma valid_plain: "plain (JObj s) \<Longrightarrow> valid (JObj s) v \<longleftrightarrow> keywords_hold valid s v"
  by (simp add: plain_def valid_object)

lemma valid_peq:
  "plain a \<Longrightarrow> plain b \<Longrightarrow> peq a b \<Longrightarrow> value_ok v \<Longrightarrow> valid a v = valid b v"
proof (induction "size a" arbitrary: a b v rule: less_induct)
  case less
  show ?case
  proof (cases a)
    case (JObj l)
    with less.prems(3) obtain r where r: "b = JObj r" "fields_peq l r" using peq_JObj unfolding fields_peq_def by blast
    note pl = less.prems(1) [unfolded JObj] and pr = less.prems(2) [unfolded r(1)]
    have IH: "valid x w = valid y w" if "x \<in> set (subschemas l)" "y \<in> set (subschemas r)" "peq x y" "value_ok w" for x y w
    proof -
      have "size x < size a" using that(1) by (simp only: JObj subschema_size)
      then show ?thesis using plain_subschema [OF pl that(1)] plain_subschema [OF pr that(2)] that(3,4) by (rule less.hyps)
    qed
    have add: "valid (additional l k) w = valid (additional r k) w"
      if "k \<in> {''additionalProperties'', ''items''}" "value_ok w" for k w
    proof (cases "dget l k")
      case None
      then show ?thesis using field_none [OF r(2), of k] by (simp add: additional_def node_or_true_def)
    next
      case (Some x)
      with field_both [OF r(2)] obtain y where y: "dget r k = Some y" "peq x y" by blast
      have "x \<in> set (subschemas l)" "y \<in> set (subschemas r)" using Some y(1) that(1) by (auto simp: subschemas_iff)
      from IH [OF this y(2) that(2)] Some y(1) show ?thesis by (simp add: additional_def node_or_true_def)
    qed
    obtain ps qs where ps: "properties_of l = Some ps" "properties_of r = Some qs" "fields_peq ps qs"
      using properties_peq [OF pl pr r(2)] .
    have props: "valid (case dget ps k of Some p \<Rightarrow> p | None \<Rightarrow> additional l ''additionalProperties'') w =
        valid (case dget qs k of Some p \<Rightarrow> p | None \<Rightarrow> additional r ''additionalProperties'') w" if "value_ok w" for k w
    proof (cases "dget ps k")
      case None
      then show ?thesis using field_none [OF ps(3), of k] add that by simp
    next
      case (Some x)
      with field_both [OF ps(3)] obtain y where y: "dget qs k = Some y" "peq x y" by blast
      from IH [OF subschema_property [OF ps(1) Some] subschema_property [OF ps(2) y(1)] y(2) that] Some y(1)
      show ?thesis by simp
    qed
    have parts: "parts_hold valid l v = parts_hold valid r v"
    proof (cases v)
      case (JStr t)
      then show ?thesis using lengths_equal [OF pl pr r(2)]
        by (simp add: number_keywords_def del: length_holds.simps)
    next
      case (JArr xs)
      have "list_all (valid (additional l ''items'')) xs = list_all (valid (additional r ''items'')) xs"
        using add value_ok_items less.prems(4) JArr by (auto simp: list_all_iff)
      with JArr show ?thesis using lengths_equal [OF pl pr r(2)]
        by (simp add: number_keywords_def del: length_holds.simps)
    next
      case (JObj xs)
      have "list_all (\<lambda>(k, x). valid (case dget ps k of Some p \<Rightarrow> p | None \<Rightarrow> additional l ''additionalProperties'') x) xs =
          list_all (\<lambda>(k, x). valid (case dget qs k of Some p \<Rightarrow> p | None \<Rightarrow> additional r ''additionalProperties'') x) xs"
        using props value_ok_fields less.prems(4) JObj by (auto simp: list_all_iff)
      with JObj show ?thesis by (simp add: ps required_equal [OF pl r(2)])
    qed simp_all
    have branches: "branches_hold valid l v = branches_hold valid r v"
    proof -
      have b: "list_all2 (\<lambda>x y. valid x v = valid y v) vs ws"
        if "k \<in> {''anyOf'', ''oneOf'', ''allOf''}" "list_field l k = Some vs" "list_field r k = Some ws" "list_all2 peq vs ws"
        for k vs ws
        by (rule list.rel_mono_strong [OF that(4)])
          (rule IH [OF subschema_branch [OF that(1,2)] subschema_branch [OF that(1,3)] _ less.prems(4)])
      have "pred_option (list_ex (\<lambda>b. valid b v)) (list_field l ''anyOf'') = pred_option (list_ex (\<lambda>b. valid b v)) (list_field r ''anyOf'')"
        by (rule pred_list_peq [OF r(2)], rule list_all2_all_ex(2), rule b [of "''anyOf''"]) simp_all
      moreover have "pred_option (\<lambda>bs. length (filter (\<lambda>b. valid b v) bs) = 1) (list_field l ''oneOf'') =
          pred_option (\<lambda>bs. length (filter (\<lambda>b. valid b v) bs) = 1) (list_field r ''oneOf'')"
        by (rule pred_list_peq [OF r(2)], subst list_all2_filter_length [OF b [of "''oneOf''"]]) simp_all
      moreover have "pred_option (list_all (\<lambda>b. valid b v)) (list_field l ''allOf'') =
          pred_option (list_all (\<lambda>b. valid b v)) (list_field r ''allOf'')"
        by (rule pred_list_peq [OF r(2)], rule list_all2_all_ex(1), rule b [of "''allOf''"]) simp_all
      ultimately show ?thesis unfolding branches_hold_def by blast
    qed
    show ?thesis
      unfolding JObj r(1) valid_plain [OF pl] valid_plain [OF pr] keywords_hold_def types_equal [OF pl r(2)]
        values_equal [OF pl pr r(2) less.prems(4)] numbers_equal [OF pl pr r(2)] parts branches ..
  next
    case (JBool c)
    with less.prems(2,3) show ?thesis by (cases b) (auto simp: plain_def schema_ok_def peq_def ceq_def split: if_splits)
  qed (use less.prems(1) in \<open>auto simp: plain_def schema_ok_def\<close>)
qed

end

end
