(* ===== verification/SchemaProof.thy ===== *)
theory SchemaProof
  imports SchemaContainment
begin

text \<open>
  The soundness of the comparison: on the fragment below, the report \<open>proven\<close> means that every finite value
  the left schema accepts is accepted by the right one.
\<close>

section \<open>The fragment\<close>

text \<open>
  Left schemas have no \<open>allOf\<close>. On the right, \<open>allOf\<close> stands alone, and the keywords of arrays and
  objects come with a \<open>type\<close>: without one the code does not look at them.
\<close>

definition left_object_ok :: "(string, json) dict \<Rightarrow> bool" where
  "left_object_ok s \<longleftrightarrow> ''allOf'' \<notin> set (dkeys s)"

definition right_object_ok :: "(string, json) dict \<Rightarrow> bool" where
  "right_object_ok s \<longleftrightarrow>
     (''allOf'' \<in> set (dkeys s) \<longrightarrow> set (dkeys s) \<subseteq> insert ''allOf'' (set annotation_keywords)) \<and>
     (list_ex (\<lambda>k. k \<in> set (dkeys s)) [''properties'', ''required'', ''additionalProperties'', ''items''] \<longrightarrow>
        ''type'' \<in> set (dkeys s))"

definition comparable_left :: "json \<Rightarrow> bool" where
  "comparable_left s \<longleftrightarrow> plain s \<and> every_schema left_object_ok s"

definition comparable_right :: "json \<Rightarrow> bool" where
  "comparable_right s \<longleftrightarrow> plain s \<and> every_schema right_object_ok s"

lemma comparable_subschema:
  "comparable_left (JObj s) \<Longrightarrow> b \<in> set (subschemas s) \<Longrightarrow> comparable_left b"
  "comparable_right (JObj s) \<Longrightarrow> b \<in> set (subschemas s) \<Longrightarrow> comparable_right b"
  unfolding comparable_left_def comparable_right_def
  using plain_subschema by (auto simp: every_schema_JObj)

lemma comparable_bool [simp]: "comparable_left (JBool b)" "comparable_right (JBool b)"
  by (simp_all add: comparable_left_def comparable_right_def)

lemma comparable_plain: "comparable_left s \<Longrightarrow> plain s" "comparable_right s \<Longrightarrow> plain s"
  by (simp_all add: comparable_left_def comparable_right_def)

lemma kid_comparable:
  "kid p s n \<Longrightarrow> comparable_left (JObj s) \<Longrightarrow> comparable_left (snd n)"
  "kid p s n \<Longrightarrow> comparable_right (JObj s) \<Longrightarrow> comparable_right (snd n)"
  using kid_subschema comparable_subschema by (metis comparable_bool)+

lemma kid_size: "kid p s n \<Longrightarrow> size (snd n) < size (JObj s)"
  using kid_subschema [of p s n] subschema_size [of "snd n" s] by auto

section \<open>Finite numbers\<close>

fun float_rat :: "pyfloat \<Rightarrow> rat" where
  "float_rat (Finite q) = q"
| "float_rat _ = 0"

lemma float_order:
  "float_finite f \<Longrightarrow> float_finite g \<Longrightarrow> float_less f g \<longleftrightarrow> float_rat f < float_rat g"
  "float_finite f \<Longrightarrow> float_finite g \<Longrightarrow> float_eq f g \<longleftrightarrow> float_rat f = float_rat g"
  "float_finite f \<Longrightarrow> float_finite g \<Longrightarrow> float_le f g \<longleftrightarrow> float_rat f \<le> float_rat g"
  unfolding float_le_def by (cases f; cases g; auto)+

lemma num_of_finite: "json_finite v \<Longrightarrow> num_of v = Some f \<Longrightarrow> float_finite f"
  by (cases v) auto

lemma number_field_finite: "plain (JObj s) \<Longrightarrow> number_field s k = Some f \<Longrightarrow> float_finite f"
  unfolding number_field_def
  using value_ok_field [of s k] num_of_finite by (auto simp: plain_def value_ok_def split: bind_splits)

section \<open>Single keywords\<close>

lemma finding_not_proven [simp]: "relation (finding rel p m) = RelProven \<longleftrightarrow> rel = RelProven"
  "relation (no_bound p k) \<noteq> RelProven" "relation proven = RelProven"
  by (simp_all add: finding_def no_bound_def proven_def)

lemma numeric_bound_le:
  assumes "plain (JObj s)" "float_finite f"
  shows "pred_option (\<lambda>b. float_le b f) (number_field s ''minimum'') \<and>
       pred_option (\<lambda>b. float_less b f) (number_field s ''exclusiveMinimum'') \<longleftrightarrow>
     (case numeric_bound s True of None \<Rightarrow> True
      | Some (b, exclusive, k) \<Rightarrow> if exclusive then float_less b f else float_le b f)"
    "pred_option (\<lambda>b. float_le f b) (number_field s ''maximum'') \<and>
       pred_option (\<lambda>b. float_less f b) (number_field s ''exclusiveMaximum'') \<longleftrightarrow>
     (case numeric_bound s False of None \<Rightarrow> True
      | Some (b, exclusive, k) \<Rightarrow> if exclusive then float_less f b else float_le f b)"
    "numeric_bound s lower = Some (b, exclusive, k) \<Longrightarrow> float_finite b"
proof -
  note fin = number_field_finite [OF assms(1)]
  show "pred_option (\<lambda>b. float_le b f) (number_field s ''minimum'') \<and>
       pred_option (\<lambda>b. float_less b f) (number_field s ''exclusiveMinimum'') \<longleftrightarrow>
     (case numeric_bound s True of None \<Rightarrow> True
      | Some (b, exclusive, k) \<Rightarrow> if exclusive then float_less b f else float_le b f)"
    using fin [of "''minimum''"] fin [of "''exclusiveMinimum''"] assms(2)
    by (cases "number_field s ''minimum''"; cases "number_field s ''exclusiveMinimum''")
      (auto simp: numeric_bound_def Let_def float_order)
  show "pred_option (\<lambda>b. float_le f b) (number_field s ''maximum'') \<and>
       pred_option (\<lambda>b. float_less f b) (number_field s ''exclusiveMaximum'') \<longleftrightarrow>
     (case numeric_bound s False of None \<Rightarrow> True
      | Some (b, exclusive, k) \<Rightarrow> if exclusive then float_less f b else float_le f b)"
    using fin [of "''maximum''"] fin [of "''exclusiveMaximum''"] assms(2)
    by (cases "number_field s ''maximum''"; cases "number_field s ''exclusiveMaximum''")
      (auto simp: numeric_bound_def Let_def float_order)
  show "float_finite b" if "numeric_bound s lower = Some (b, exclusive, k)"
    using that fin unfolding numeric_bound_def Let_def by (auto split: option.splits if_splits)
qed

lemma compare_numbers:
  assumes "plain (JObj l)" "plain (JObj r)" "json_finite v"
    and "relation (compare_numeric_bound l r True p) = RelProven" "relation (compare_numeric_bound l r False p) = RelProven"
    and "numbers_hold l v"
  shows "numbers_hold r v"
proof (cases "num_of v")
  case (Some f)
  have f: "float_finite f" using assms(3) Some by (rule num_of_finite)
  have "case numeric_bound r True of None \<Rightarrow> True
      | Some (b, exclusive, k) \<Rightarrow> if exclusive then float_less b f else float_le b f"
    using assms(4,6) Some f numeric_bound_le(1) [OF assms(1) f]
      numeric_bound_le(3) [OF assms(1) f] numeric_bound_le(3) [OF assms(2) f]
    by (auto simp: numbers_hold_def compare_numeric_bound_def float_order split: option.splits if_splits)
  moreover have "case numeric_bound r False of None \<Rightarrow> True
      | Some (b, exclusive, k) \<Rightarrow> if exclusive then float_less f b else float_le f b"
    using assms(5,6) Some f numeric_bound_le(2) [OF assms(1) f]
      numeric_bound_le(3) [OF assms(1) f] numeric_bound_le(3) [OF assms(2) f]
    by (auto simp: numbers_hold_def compare_numeric_bound_def float_order split: option.splits if_splits)
  ultimately show ?thesis
    using Some numeric_bound_le(1,2) [OF assms(2) f] by (auto simp: numbers_hold_def)
qed (simp add: numbers_hold_def)

lemma compare_lengths:
  assumes "plain (JObj l)" "plain (JObj r)"
    and "relation (compare_lower_bound l r least p) = RelProven" "relation (compare_upper_bound l r most p) = RelProven"
    and "length_holds least most l n"
  shows "length_holds least most r n"
  using assms(3-5) number_field_finite [OF assms(1)] number_field_finite [OF assms(2)]
  by (auto simp: compare_lower_bound_def compare_upper_bound_def float_order split: option.splits if_splits)

lemma compare_types_holds:
  assumes "relation (compare_types l r p) = RelProven" "pred_option (list_ex (\<lambda>t. type_holds t v)) (schema_types l)"
  shows "pred_option (list_ex (\<lambda>t. type_holds t v)) (schema_types r)"
proof -
  have "type_holds ''number'' v" if "type_holds ''integer'' v" using that by (cases v) auto
  then show ?thesis
    using assms by (auto simp: compare_types_def list_all_iff list_ex_iff split: option.splits if_splits)
qed

lemma compare_types_both:
  "relation (compare_types l r p) = RelProven \<Longrightarrow> schema_types r \<noteq> None \<Longrightarrow> schema_types l \<noteq> None"
  by (auto simp: compare_types_def split: option.splits)

section \<open>Containment and visited pairs\<close>

definition contained :: "(json \<Rightarrow> json \<Rightarrow> bool) \<Rightarrow> json \<Rightarrow> json \<Rightarrow> bool" where
  "contained valid l r \<longleftrightarrow> (\<forall>v. value_ok v \<longrightarrow> valid l v \<longrightarrow> valid r v)"

definition contained_at :: "(json \<Rightarrow> json \<Rightarrow> bool) \<Rightarrow> json \<Rightarrow> json \<Rightarrow> node_path \<times> node_path \<Rightarrow> bool" where
  "contained_at valid l_root r_root pq \<longleftrightarrow>
     (\<forall>a b. node_at l_root (fst pq) = Some a \<longrightarrow> node_at r_root (snd pq) = Some b \<longrightarrow> contained valid a b)"

definition pair_size :: "json \<Rightarrow> json \<Rightarrow> node_path \<times> node_path \<Rightarrow> nat" where
  "pair_size l_root r_root pq =
     (case (node_at l_root (fst pq), node_at r_root (snd pq)) of (Some a, Some b) \<Rightarrow> size a + size b | _ \<Rightarrow> 0)"

text \<open>Visited pairs are contained, or are at least as large as the comparison in progress.\<close>

definition in_progress :: "(json \<Rightarrow> json \<Rightarrow> bool) \<Rightarrow> json \<Rightarrow> json \<Rightarrow> nat \<Rightarrow> visited \<Rightarrow> bool" where
  "in_progress valid l_root r_root k visited \<longleftrightarrow>
     (\<forall>pq \<in> set visited. contained_at valid l_root r_root pq \<or> k \<le> pair_size l_root r_root pq)"

definition grows :: "(json \<Rightarrow> json \<Rightarrow> bool) \<Rightarrow> json \<Rightarrow> json \<Rightarrow> visited \<Rightarrow> visited \<Rightarrow> bool" where
  "grows valid l_root r_root visited visited' \<longleftrightarrow>
     (\<forall>pq \<in> set visited'. pq \<in> set visited \<or> contained_at valid l_root r_root pq)"

lemma grows_refl [simp]: "grows valid l_root r_root visited visited"
  by (simp add: grows_def)

lemma grows_trans:
  "grows valid l_root r_root v1 v2 \<Longrightarrow> grows valid l_root r_root v2 v3 \<Longrightarrow> grows valid l_root r_root v1 v3"
  by (auto simp: grows_def)

lemma in_progress_grows:
  "in_progress valid l_root r_root k v1 \<Longrightarrow> grows valid l_root r_root v1 v2 \<Longrightarrow> in_progress valid l_root r_root k v2"
  by (auto simp: in_progress_def grows_def)

text \<open>A comparison that keeps the pairs in order whenever it proves; and one that can prove.\<close>

definition keeps :: "(json \<Rightarrow> json \<Rightarrow> bool) \<Rightarrow> json \<Rightarrow> json \<Rightarrow> nat \<Rightarrow> comparison \<Rightarrow> bool" where
  "keeps valid l_root r_root k c \<longleftrightarrow>
     (\<forall>visited report visited'. in_progress valid l_root r_root k visited \<longrightarrow> c visited = Some (report, visited') \<longrightarrow>
        relation report = RelProven \<longrightarrow> grows valid l_root r_root visited visited')"

definition proves :: "(json \<Rightarrow> json \<Rightarrow> bool) \<Rightarrow> json \<Rightarrow> json \<Rightarrow> nat \<Rightarrow> comparison \<Rightarrow> bool" where
  "proves valid l_root r_root k c \<longleftrightarrow>
     (\<exists>visited report visited'. in_progress valid l_root r_root k visited \<and> c visited = Some (report, visited') \<and>
        relation report = RelProven)"

lemma settled_proves [simp]: "proves valid l_root r_root k (settled report) \<Longrightarrow> relation report = RelProven"
  by (auto simp: proves_def settled_def)

lemma settled_keeps [simp]: "keeps valid l_root r_root k (settled report)"
  by (simp add: keeps_def settled_def)

lemma foldl_worse: "foldl worse acc rels = RelProven \<longleftrightarrow> acc = RelProven \<and> (\<forall>rel \<in> set rels. rel = RelProven)"
proof (induction rels arbitrary: acc)
  case (Cons rel rels)
  have "worse acc rel = RelProven \<longleftrightarrow> acc = RelProven \<and> rel = RelProven"
    by (cases acc; cases rel) (simp_all add: worse_def)
  with Cons show ?case by auto
qed simp

lemma combine_proven: "relation (combine reports) = RelProven \<longleftrightarrow> (\<forall>report \<in> set reports. relation report = RelProven)"
  by (simp add: combine_def foldl_worse)

lemma run_all_proven:
  "(\<And>c. c \<in> set cs \<Longrightarrow> keeps valid l_root r_root k c) \<Longrightarrow> in_progress valid l_root r_root k visited \<Longrightarrow>
   run_all cs visited = Some (reports, visited') \<Longrightarrow> (\<forall>report \<in> set reports. relation report = RelProven) \<Longrightarrow>
     grows valid l_root r_root visited visited' \<and> (\<forall>c \<in> set cs. proves valid l_root r_root k c)"
proof (induction cs arbitrary: visited reports)
  case (Cons c cs)
  from Cons.prems(3) obtain report visited1 reports' where
    c: "c visited = Some (report, visited1)" "run_all cs visited1 = Some (reports', visited')" "reports = report # reports'"
    by (auto split: option.splits)
  have g: "grows valid l_root r_root visited visited1"
    using Cons.prems(1) [of c] Cons.prems(2,4) c(1,3) unfolding keeps_def by simp
  have "grows valid l_root r_root visited1 visited' \<and> (\<forall>c \<in> set cs. proves valid l_root r_root k c)"
    using Cons.prems(1,4) c(3) by (intro Cons.IH [OF _ in_progress_grows [OF Cons.prems(2) g] c(2)]) auto
  moreover have "proves valid l_root r_root k c"
    unfolding proves_def using Cons.prems(2,4) c(1,3) by (intro exI [of _ visited] exI conjI) auto
  ultimately show ?case using g grows_trans by auto
qed simp

lemma combined_proven:
  assumes "\<And>c. c \<in> set cs \<Longrightarrow> keeps valid l_root r_root k c" "in_progress valid l_root r_root k visited"
    "combined cs visited = Some (report, visited')" "relation report = RelProven"
  shows "grows valid l_root r_root visited visited'" "\<And>c. c \<in> set cs \<Longrightarrow> proves valid l_root r_root k c"
proof -
  from assms(3) obtain reports where "run_all cs visited = Some (reports, visited')" "report = combine reports"
    by (auto simp: combined_def split: option.splits)
  with run_all_proven [OF assms(1,2)] assms(4) show "grows valid l_root r_root visited visited'"
    "\<And>c. c \<in> set cs \<Longrightarrow> proves valid l_root r_root k c" by (simp_all add: combine_proven)
qed

section \<open>The rules of the comparison\<close>

lemma plain_no_ref: "plain (JObj s) \<Longrightarrow> ''$ref'' \<notin> set (dkeys s)"
  by (simp add: plain_def)

lemma unsupported_none:
  assumes "plain (JObj l)" "plain (JObj r)"
  shows "unsupported_keywords l r = []"
proof -
  have "set (dkeys s) \<subseteq> set handled_keywords \<union> set annotation_keywords" if "plain (JObj s)" for s
    using plain_forms [OF that] unfolding keyword_forms_ok_def by blast
  from this [OF assms(1)] this [OF assms(2)] show ?thesis
    by (auto simp: unsupported_keywords_def filter_empty_conv)
qed

lemma keyword_list:
  assumes "plain (JObj s)" "k \<in> {''enum'', ''anyOf'', ''oneOf'', ''allOf''}"
  shows "k \<in> set (dkeys s) \<longleftrightarrow> list_field s k \<noteq> None"
proof -
  have "pred_option is_json_list (dget s k)"
    using plain_forms [OF assms(1)] assms(2) unfolding keyword_forms_ok_def by (auto simp: list_all_iff)
  then show ?thesis
    unfolding dkeys_iff by (cases "dget s k"; cases "the (dget s k)") (auto simp: list_field.simps)
qed

text \<open>The keywords that \<open>right_object_ok\<close> excludes beside \<open>allOf\<close>.\<close>

lemma alone_allOf:
  assumes "set (dkeys r) \<subseteq> insert ''allOf'' (set annotation_keywords)" "list_field r ''allOf'' = Some vs"
    and valid_true: "\<And>v. valid (JBool True) v"
  shows "keywords_hold valid r v \<longleftrightarrow> list_all (\<lambda>b. valid b v) vs"
proof -
  have none: "dget r k = None" if "k \<in> set handled_keywords - {''allOf''}" for k
  proof -
    have "k \<notin> insert ''allOf'' (set annotation_keywords)"
      using that by (auto simp: handled_keywords_def annotation_keywords_def)
    then have "k \<notin> set (dkeys r)" using assms(1) by blast
    then show ?thesis by (simp add: dkeys_iff)
  qed
  have n: "dget r ''type'' = None" "dget r ''const'' = None" "dget r ''enum'' = None" "dget r ''minimum'' = None"
    "dget r ''maximum'' = None" "dget r ''exclusiveMinimum'' = None" "dget r ''exclusiveMaximum'' = None"
    "dget r ''minLength'' = None" "dget r ''maxLength'' = None" "dget r ''minItems'' = None" "dget r ''maxItems'' = None"
    "dget r ''required'' = None" "dget r ''properties'' = None" "dget r ''additionalProperties'' = None"
    "dget r ''items'' = None" "dget r ''anyOf'' = None" "dget r ''oneOf'' = None"
    by (rule none; simp add: handled_keywords_def)+
  have parts: "parts_hold valid r v"
    by (cases v) (auto simp: n number_field_def additional_def node_or_true_def properties_of.simps list_all_iff valid_true)
  have vals: "values_hold r v" by (simp add: values_hold_def n list_field.simps)
  have nums: "numbers_hold r v" by (simp add: numbers_hold_def n number_field_def split: option.splits)
  show ?thesis
    using parts vals nums assms(2)
    by (simp add: keywords_hold_def branches_hold_def schema_types_def n list_field.simps [of r "''anyOf''"]
        list_field.simps [of r "''oneOf''"])
qed

context schema_validator
begin

lemma contained_anyOf:
  assumes "plain (JObj l)" "list_field l k = Some vs" "k \<in> {''anyOf'', ''oneOf''}"
    and "\<And>b. b \<in> set vs \<Longrightarrow> contained valid b r"
  shows "contained valid (JObj l) r"
  unfolding contained_def
proof (intro allI impI)
  fix v assume v: "value_ok v" "valid (JObj l) v"
  then have "branches_hold valid l v" using valid_plain [OF assms(1)] by (simp add: keywords_hold_def)
  have "\<exists>b \<in> set vs. valid b v"
  proof (cases "k = ''anyOf''")
    case True
    with \<open>branches_hold valid l v\<close> assms(2) show ?thesis by (simp add: branches_hold_def list_ex_iff)
  next
    case False
    with \<open>branches_hold valid l v\<close> assms(2,3) have "length (filter (\<lambda>b. valid b v) vs) = 1" by (simp add: branches_hold_def)
    then have "filter (\<lambda>b. valid b v) vs \<noteq> []" by auto
    then show ?thesis by (auto simp: filter_empty_conv)
  qed
  with assms(4) v(1) show "valid r v" by (auto simp: contained_def)
qed

lemma contained_allOf:
  assumes "comparable_right (JObj r)" "list_field r ''allOf'' = Some vs"
    and "\<And>b. b \<in> set vs \<Longrightarrow> contained valid l b"
  shows "contained valid l (JObj r)"
proof -
  note plain = comparable_plain(2) [OF assms(1)]
  have "''allOf'' \<in> set (dkeys r)" using assms(2) keyword_list [OF plain] by simp
  then have "set (dkeys r) \<subseteq> insert ''allOf'' (set annotation_keywords)"
    using assms(1) by (simp add: comparable_right_def every_schema_JObj right_object_ok_def)
  from alone_allOf [of r vs valid, OF this assms(2) valid_true] valid_plain [OF plain]
  have "valid (JObj r) v \<longleftrightarrow> list_all (\<lambda>b. valid b v) vs" for v by simp
  with assms(3) show ?thesis by (simp add: contained_def list_all_iff)
qed

lemma contained_finite:
  assumes "plain (JObj l)" "plain (JObj r)" "compare_finite_left valid l r p = Some report" "relation report = RelProven"
  shows "contained valid (JObj l) (JObj r)"
  unfolding contained_def
proof (intro allI impI)
  fix v assume v: "value_ok v" "valid (JObj l) v"
  have ok: "value_ok (JObj l)" using assms(1) by (simp add: plain_def value_ok_def)
  from v(2) have vals: "values_hold l v" using valid_plain [OF assms(1)] by (simp add: keywords_hold_def)
  obtain cs where cs: "(case dget l ''const'' of Some c \<Rightarrow> Some [c]
        | None \<Rightarrow> (case dget l ''enum'' of Some (JArr vs) \<Rightarrow> Some vs | _ \<Rightarrow> None)) = Some cs"
    "list_all (valid (JObj r)) (filter (valid (JObj l)) cs)"
    using assms(3,4) by (auto simp: compare_finite_left_def Let_def split: option.splits if_splits)
  have "\<exists>c \<in> set cs. json_equal v c \<and> value_ok c"
  proof (cases "dget l ''const''")
    case (Some c)
    with cs(1) vals value_ok_field [OF ok Some] show ?thesis by (auto simp: values_hold_def)
  next
    case None
    with cs(1) have e: "dget l ''enum'' = Some (JArr cs)" by (auto split: option.splits json.splits)
    with vals have "list_ex (json_equal v) cs" by (simp add: values_hold_def list_field.simps)
    then obtain c where "c \<in> set cs" "json_equal v c" by (auto simp: list_ex_iff)
    with value_ok_items [OF value_ok_field [OF ok e]] show ?thesis by blast
  qed
  then obtain c where c: "c \<in> set cs" "json_equal v c" "value_ok c" by blast
  then have eq: "ceq v c" using v(1) json_equal_ceq by (simp add: value_ok_def)
  have "valid (JObj l) c" using valid_ceq [OF assms(1) eq v(1) c(3)] v(2) by simp
  with cs(2) c(1) have "valid (JObj r) c" by (auto simp: list_all_iff)
  then show "valid (JObj r) v" using valid_ceq [OF assms(2) eq v(1) c(3)] by simp
qed

text \<open>
  The members of objects: \<open>P\<close> is what holds of every comparison in the list, here that it proves.
\<close>

lemma contained_members:
  assumes settled: "\<And>report. P (settled report) \<Longrightarrow> relation report = RelProven"
    and rec: "\<And>a b ptr. P (rec a b ptr) \<Longrightarrow> kid lp l a \<Longrightarrow> kid rp r b \<Longrightarrow> contained valid (snd a) (snd b)"
    and ps: "properties_of l = Some lps" "properties_of r = Some rps" "dict_ok lps" "dict_ok rps"
    and form: "is_JObj (additional r ''additionalProperties'') \<or> (\<exists>b. additional r ''additionalProperties'' = JBool b)"
    and all: "\<And>c. c \<in> set (object_comparisons rec lp l rp r pointer) \<Longrightarrow> P c"
    and x: "value_ok x" "valid (case dget lps k of Some p \<Rightarrow> p | None \<Rightarrow> additional l ''additionalProperties'') x"
  shows "valid (case dget rps k of Some p \<Rightarrow> p | None \<Rightarrow> additional r ''additionalProperties'') x"
proof -
  let ?L = "node_or_true lp l ''additionalProperties''" and ?R = "node_or_true rp r ''additionalProperties''"
  have snd: "snd ?L = additional l ''additionalProperties''" "snd ?R = additional r ''additionalProperties''"
    by (simp_all add: node_or_true_def additional_def)
  have member: "P c" if "c \<in> set (declared_comparisons rec lp lps ?L rp rps pointer) \<union>
      set (undeclared_comparisons rec lp lps rps ?R pointer) \<union> set (additional_comparisons rec ?L ?R pointer)" for c
    using all that by (auto simp: object_comparisons_def ps(1,2) Let_def)
  have step: "valid (snd b) x" if "P (rec a b ptr)" "kid lp l a" "kid rp r b" "valid (snd a) x" for a b ptr
    using rec [OF that(1-3)] x(1) that(4) by (simp add: contained_def)
  have kidL: "kid lp l ?L" and kidR: "kid rp r ?R" by auto
  show ?thesis
  proof (cases "dget rps k")
    case (Some rv)
    let ?lp = "case dget lps k of Some lv \<Rightarrow> (lp @ [Field ''properties'', Field k], lv) | None \<Rightarrow> ?L"
    have v: "valid (snd ?lp) x" using x(2) snd by (cases "dget lps k") simp_all
    then have "snd ?lp \<noteq> JBool False" using valid_false by auto
    then have "rec ?lp (rp @ [Field ''properties'', Field k], rv) (child (child pointer ''properties'') k)
        \<in> set (declared_comparisons rec lp lps ?L rp rps pointer)"
      using dget_in_set [OF Some] unfolding declared_comparisons_def by (auto simp: Let_def intro!: bexI)
    then have "P (rec ?lp (rp @ [Field ''properties'', Field k], rv) (child (child pointer ''properties'') k))"
      by (intro member) blast
    moreover have "kid lp l ?lp" using kidL ps(1) by (auto intro: kid.property split: option.splits)
    ultimately show ?thesis using step kid.property [OF ps(2) Some] v Some by fastforce
  next
    case none: None
    show ?thesis
    proof (cases "dget lps k")
      case (Some lv)
      show ?thesis
      proof (cases "additional r ''additionalProperties'' = JBool True")
        case False
        have k: "k \<notin> set (dkeys rps)" using none by (simp add: dkeys_iff)
        let ?c = "if additional r ''additionalProperties'' = JBool False
          then settled (finding RelConflict (child pointer ''additionalProperties'') (''declared schema rejects left property: '' @ k))
          else rec (lp @ [Field ''properties'', Field k], lv) ?R (child (child pointer ''properties'') k)"
        have "?c \<in> set (undeclared_comparisons rec lp lps rps ?R pointer)"
          using dget_in_set [OF Some] k False form unfolding undeclared_comparisons_def snd
          by (auto intro!: bexI [of _ "(k, lv)"])
        then have P: "P ?c" by (intro member) blast
        then have "additional r ''additionalProperties'' \<noteq> JBool False" using settled by fastforce
        with P step [OF _ kid.property [OF ps(1) Some] kidR] x(2) Some none snd show ?thesis by fastforce
      qed (use none in simp)
    next
      case l: None
      with x(2) have v: "valid (snd ?L) x" by (simp add: snd)
      then have nf: "snd ?L \<noteq> JBool False" using valid_false by auto
      show ?thesis
      proof (cases "additional r ''additionalProperties'' = JBool True")
        case False
        have P: "P c" if "c \<in> set (additional_comparisons rec ?L ?R pointer)" for c using member that by blast
        have "snd ?R \<noteq> JBool False"
        proof
          assume "snd ?R = JBool False"
          with nf P settled show False unfolding additional_comparisons_def by fastforce
        qed
        moreover from this have "is_JObj (snd ?R) \<Longrightarrow> P (rec ?L ?R (child pointer ''additionalProperties''))"
          using nf P unfolding additional_comparisons_def by simp
        ultimately have "P (rec ?L ?R (child pointer ''additionalProperties''))"
          using False form snd by auto
        from step [OF this kidL kidR v] none snd show ?thesis by simp
      qed (use none in simp)
    qed
  qed
qed

lemma required_kept:
  assumes "relation (compare_required l r p) = RelProven" "pred_option (\<lambda>ns. set ns \<subseteq> d) (required_names (dget l ''required''))"
  shows "pred_option (\<lambda>ns. set ns \<subseteq> d) (required_names (dget r ''required''))"
  using assms by (auto simp: compare_required_def Let_def filter_empty_conv split: option.splits if_splits)

lemma additional_form:
  assumes "plain (JObj s)" "k \<in> {''additionalProperties'', ''items''}"
  shows "is_JObj (additional s k) \<or> (\<exists>b. additional s k = JBool b)"
  using plain_additional [OF assms] by (cases "additional s k") (auto simp: plain_def schema_ok_def)

lemma type_given:
  assumes "pred_option (list_ex (\<lambda>t. type_holds t v)) (schema_types s)" "schema_types s \<noteq> None"
  shows "\<exists>t \<in> set (types_or_empty s). type_holds t v"
  using assms by (auto simp: types_or_empty_def list_ex_iff)

lemma untyped_parts:
  assumes "comparable_right (JObj r)" "schema_types r = None"
  shows "dget r ''properties'' = None" "dget r ''required'' = None" "dget r ''additionalProperties'' = None" "dget r ''items'' = None"
proof -
  have "dget r ''type'' = None"
    using plain_forms [OF comparable_plain(2) [OF assms(1)]] assms(2) unfolding keyword_forms_ok_def
    by (cases "dget r ''type''") auto
  then show "dget r ''properties'' = None" "dget r ''required'' = None" "dget r ''additionalProperties'' = None" "dget r ''items'' = None"
    using assms(1) by (auto simp: comparable_right_def every_schema_JObj right_object_ok_def dkeys_iff)
qed

lemma contained_assertions:
  assumes settled: "\<And>report. P (settled report) \<Longrightarrow> relation report = RelProven"
    and rec: "\<And>a b ptr. P (rec a b ptr) \<Longrightarrow> kid lp l a \<Longrightarrow> kid rp r b \<Longrightarrow> contained valid (snd a) (snd b)"
    and l: "comparable_left (JObj l)" and r: "comparable_right (JObj r)"
    and all: "\<And>c. c \<in> set (assertion_comparisons rec lp l rp r pointer) \<Longrightarrow> P c"
    and v: "value_ok v" "parts_hold valid l v" "pred_option (list_ex (\<lambda>t. type_holds t v)) (schema_types r)"
  shows "parts_hold valid r v"
proof -
  note pl = comparable_plain(1) [OF l] and pr = comparable_plain(2) [OF r]
  have rel: "relation report = RelProven" if "settled report \<in> set (assertion_comparisons rec lp l rp r pointer)" for report
    using that by (intro settled all)
  have lengths: "length_holds ''minLength'' ''maxLength'' l n \<Longrightarrow> length_holds ''minLength'' ''maxLength'' r n"
    "length_holds ''minItems'' ''maxItems'' l n \<Longrightarrow> length_holds ''minItems'' ''maxItems'' r n" for n
    by (erule compare_lengths [OF pl pr, where p = pointer, rotated 2]; rule rel, simp add: assertion_comparisons_def)+
  show ?thesis
  proof (cases v)
    case (JStr t)
    with v(2) lengths(1) show ?thesis by (simp del: length_holds.simps)
  next
    case (JArr xs)
    have "list_all (valid (additional r ''items'')) xs"
    proof (cases "schema_types r")
      case None
      then have "additional r ''items'' = JBool True"
        using untyped_parts(4) [OF r] by (simp add: additional_def node_or_true_def)
      then show ?thesis by (simp add: list_all_iff)
    next
      case (Some ts)
      then have "''array'' \<in> set (types_or_empty r)" using type_given [OF v(3)] JArr by fastforce
      then have "P (rec (node_or_true lp l ''items'') (node_or_true rp r ''items'') (child pointer ''items''))"
        by (intro all) (simp add: assertion_comparisons_def)
      from rec [OF this kid_node_or_true kid_node_or_true]
      have "contained valid (additional l ''items'') (additional r ''items'')"
        by (simp add: additional_def node_or_true_def)
      with v(1,2) JArr value_ok_items show ?thesis by (auto simp: contained_def list_all_iff)
    qed
    with JArr v(2) lengths(2) show ?thesis by (simp del: length_holds.simps)
  next
    case (JObj fs)
    obtain lps rps where ps: "properties_of l = Some lps" "properties_of r = Some rps"
      using plain_forms [OF pl] plain_forms [OF pr] unfolding keyword_forms_ok_def by blast
    then have ok: "dict_ok lps" "dict_ok rps"
      using json_ok_properties [of l] json_ok_properties [of r] pl pr by (simp_all add: plain_def)
    show ?thesis
    proof (cases "schema_types r")
      case None
      then show ?thesis using untyped_parts [OF r None] JObj
        by (auto simp: properties_of.simps additional_def node_or_true_def list_all_iff)
    next
      case (Some ts)
      then have "''object'' \<in> set (types_or_empty r)" using type_given [OF v(3)] JObj by fastforce
      then have P: "P c" if "c \<in> set (object_comparisons rec lp l rp r pointer)" for c
        using that all by (simp add: assertion_comparisons_def)
      have "P (settled (compare_required l r pointer))" by (rule P) (simp add: object_comparisons_def ps Let_def)
      from required_kept [OF settled [OF this]] v(2) JObj
      have "pred_option (\<lambda>ns. set ns \<subseteq> set (dkeys fs)) (required_names (dget r ''required''))" by simp
      moreover have "valid (case dget rps k of Some p \<Rightarrow> p | None \<Rightarrow> additional r ''additionalProperties'') x"
        if "(k, x) \<in> set fs" for k x
      proof -
        have "value_ok x" using v(1) value_ok_fields that JObj by blast
        moreover have "valid (case dget lps k of Some p \<Rightarrow> p | None \<Rightarrow> additional l ''additionalProperties'') x"
          using v(2) that by (auto simp: JObj ps list_all_iff)
        ultimately show ?thesis
          using contained_members [of P rec lp l rp r lps rps pointer x k] settled rec ps ok additional_form [OF pr] P
          by blast
      qed
      ultimately show ?thesis by (auto simp: JObj ps list_all_iff)
    qed
  qed simp_all
qed

text \<open>Two objects without a combining keyword that decides, the left one not finite.\<close>

lemma contained_keywords:
  assumes settled: "\<And>report. P (settled report) \<Longrightarrow> relation report = RelProven"
    and rec: "\<And>a b ptr. P (rec a b ptr) \<Longrightarrow> kid lp l a \<Longrightarrow> kid rp r b \<Longrightarrow> contained valid (snd a) (snd b)"
    and l: "comparable_left (JObj l)" and r: "comparable_right (JObj r)"
    and all: "\<And>c. c \<in> set (assertion_comparisons rec lp l rp r pointer) \<Longrightarrow> P c"
    and combos: "combination rec lp l rp r pointer = None" and finite: "compare_finite_left valid l r pointer = None"
  shows "contained valid (JObj l) (JObj r)"
  unfolding contained_def
proof (intro allI impI)
  fix v assume v: "value_ok v" "valid (JObj l) v"
  note pl = comparable_plain(1) [OF l] and pr = comparable_plain(2) [OF r]
  have rel: "relation report = RelProven" if "settled report \<in> set (assertion_comparisons rec lp l rp r pointer)" for report
    using that by (intro settled all)
  have kl: "pred_option (list_ex (\<lambda>t. type_holds t v)) (schema_types l)" "numbers_hold l v" "parts_hold valid l v"
    using v(2) valid_plain [OF pl] by (simp_all add: keywords_hold_def)
  have types: "pred_option (list_ex (\<lambda>t. type_holds t v)) (schema_types r)"
    by (rule compare_types_holds [where p = pointer, OF rel kl(1)]) (simp add: assertion_comparisons_def)
  have numbers: "numbers_hold r v"
    by (rule compare_numbers [where p = pointer, OF pl pr _ rel rel kl(2)]) (use v in \<open>simp_all add: assertion_comparisons_def value_ok_def\<close>)
  have branches: "branches_hold valid r v"
  proof -
    have "list_field r ''allOf'' = None" "''anyOf'' \<notin> set (dkeys r)" "''oneOf'' \<notin> set (dkeys r)"
      using combos by (auto simp: combination_def split: option.splits if_splits)
    then show ?thesis using keyword_list [OF pr] by (simp add: branches_hold_def)
  qed
  have vals: "values_hold r v"
  proof -
    have fin: "dget l ''const'' = None" "list_field l ''enum'' = None"
      using finite pl pr unfolding compare_finite_left_def plain_def
      by (auto simp: Let_def list_field.simps split: option.splits if_splits simp del: contains_reference.simps)
    have "dget r ''const'' = None"
    proof (rule ccontr)
      assume "dget r ''const'' \<noteq> None"
      then have "settled (finding RelConflict (child pointer ''const'') ''left schema does not prove the declared constant'')
          \<in> set (assertion_comparisons rec lp l rp r pointer)"
        using fin(1) by (auto simp: assertion_comparisons_def compare_const_def)
      from rel [OF this] show False by simp
    qed
    moreover have "dget r ''enum'' = None"
    proof (rule ccontr)
      assume e: "dget r ''enum'' \<noteq> None"
      have "settled (finding RelUnknown (child pointer ''enum'') ''enum containment is not decidable'')
          \<in> set (assertion_comparisons rec lp l rp r pointer)"
        using e fin(2) unfolding assertion_comparisons_def compare_enum_def
        by (auto simp: list_field.simps split: option.splits json.splits)
      from rel [OF this] show False by simp
    qed
    ultimately show ?thesis by (simp add: values_hold_def list_field.simps)
  qed
  have "parts_hold valid r v"
    using contained_assertions [of P rec lp l rp r pointer v] settled rec l r all v(1) kl(3) types by blast
  with types numbers branches vals show "valid (JObj r) v"
    using valid_plain [OF pr] by (simp add: keywords_hold_def)
qed

end

end
