(* ===== verification/SchemaRecursion.thy ===== *)
theory SchemaRecursion
  imports SchemaProof
begin

text \<open>
  The comparison of two schema objects and the recursion over their subschemas: a pair of objects in
  \<open>visited\<close> is contained already or encloses the pair under comparison, so skipping it is sound.
\<close>

section \<open>The recursion\<close>

lemma branch_nodes_all: "(\<forall>n \<in> set (branch_nodes p k vs). Q (snd n)) \<longleftrightarrow> (\<forall>b \<in> set vs. Q b)"
proof -
  have "map snd (branch_nodes p k vs) = vs" by (simp add: branch_nodes_def comp_def map_nth)
  then have "set vs = snd ` set (branch_nodes p k vs)" by (metis set_map)
  then show ?thesis by auto
qed

context schema_validator
begin

lemma combination_sound:
  assumes ih: "\<And>a b ptr. a = (lp, JObj l) \<or> kid lp l a \<Longrightarrow> b = (rp, JObj r) \<or> kid rp r b \<Longrightarrow> kid lp l a \<or> kid rp r b \<Longrightarrow>
      keeps valid l_root r_root k (rec a b ptr) \<and>
      (proves valid l_root r_root k (rec a b ptr) \<longrightarrow> contained valid (snd a) (snd b))"
    and l: "comparable_left (JObj l)" and r: "comparable_right (JObj r)"
    and start: "in_progress valid l_root r_root k visited"
    and some: "combination rec lp l rp r pointer = Some c" and c: "c visited = Some (report, visited')"
    and proven: "relation report = RelProven"
  shows "grows valid l_root r_root visited visited' \<and> contained valid (JObj l) (JObj r)"
proof -
  note pl = comparable_plain(1) [OF l] and pr = comparable_plain(2) [OF r]
  let ?keeps = "keeps valid l_root r_root k" and ?proves = "proves valid l_root r_root k"
  have combo: "grows valid l_root r_root visited visited' \<and> (\<forall>n \<in> set ns. ?proves (f n))"
    if "combined (map f ns) visited = Some (report, visited')" "\<And>n. n \<in> set ns \<Longrightarrow> ?keeps (f n)" for f and ns :: "node list"
  proof -
    have "\<And>c. c \<in> set (map f ns) \<Longrightarrow> ?keeps c" using that(2) by auto
    from combined_proven [OF this start that(1) proven] show ?thesis by auto
  qed
  have left_union: ?thesis
    if u: "k' \<in> {''anyOf'', ''oneOf''}" "list_field l k' = Some vs"
      "combined (map (\<lambda>b. rec b (rp, JObj r) pointer) (branch_nodes lp k' vs)) visited = Some (report, visited')" for k' vs
  proof -
    have kid: "kid lp l n" if "n \<in> set (branch_nodes lp k' vs)" for n
      using kid_branch_nodes [OF _ u(2) that] u(1) by auto
    from combo [OF u(3)] kid ih have "grows valid l_root r_root visited visited' \<and>
        (\<forall>n \<in> set (branch_nodes lp k' vs). contained valid (snd n) (JObj r))" by (metis snd_conv)
    then show ?thesis using contained_anyOf [OF pl u(2,1)] branch_nodes_all [of lp k' vs "\<lambda>b. contained valid b (JObj r)"] by blast
  qed
  show ?thesis
  proof (cases "list_field l ''anyOf''")
    case A: (Some vs)
    with some c show ?thesis by (intro left_union [of "''anyOf''" vs]) (simp_all add: combination_def)
  next
    case nA: None
    show ?thesis
    proof (cases "list_field l ''oneOf''")
      case O: (Some vs)
      with some c nA show ?thesis by (intro left_union [of "''oneOf''" vs]) (simp_all add: combination_def)
    next
      case nO: None
      have nL: "list_field l ''allOf'' = None"
        using l keyword_list [OF pl, of "''allOf''"] by (simp add: comparable_left_def every_schema_JObj left_object_ok_def)
      show ?thesis
      proof (cases "list_field r ''allOf''")
        case None
        with some c nA nO nL proven show ?thesis by (auto simp: combination_def settled_def split: if_splits)
      next
        case R: (Some vs)
        with some c nA nO have c: "combined (map (\<lambda>b. rec (lp, JObj l) b pointer) (branch_nodes rp ''allOf'' vs)) visited =
            Some (report, visited')" by (simp add: combination_def)
        have kid: "kid rp r n" if "n \<in> set (branch_nodes rp ''allOf'' vs)" for n
          using kid_branch_nodes [OF _ R that] by simp
        from combo [OF c] kid ih have "grows valid l_root r_root visited visited' \<and>
            (\<forall>n \<in> set (branch_nodes rp ''allOf'' vs). contained valid (JObj l) (snd n))" by (metis snd_conv)
        then show ?thesis
          using contained_allOf [OF r R] branch_nodes_all [of rp "''allOf''" vs "\<lambda>b. contained valid (JObj l) b"] by blast
      qed
    qed
  qed
qed

lemma compare_new_sound:
  assumes ih: "\<And>a b ptr. a = (lp, JObj l) \<or> kid lp l a \<Longrightarrow> b = (rp, JObj r) \<or> kid rp r b \<Longrightarrow> kid lp l a \<or> kid rp r b \<Longrightarrow>
      keeps valid l_root r_root k (rec a b ptr) \<and>
      (proves valid l_root r_root k (rec a b ptr) \<longrightarrow> contained valid (snd a) (snd b))"
    and l: "comparable_left (JObj l)" and r: "comparable_right (JObj r)"
    and start: "in_progress valid l_root r_root k visited"
    and run: "compare_new valid l_root r_root rec lp l rp r pointer visited = Some (report, visited')"
    and proven: "relation report = RelProven"
  shows "grows valid l_root r_root visited visited' \<and> contained valid (JObj l) (JObj r)"
proof -
  note pl = comparable_plain(1) [OF l] and pr = comparable_plain(2) [OF r]
  let ?keeps = "keeps valid l_root r_root k" and ?proves = "proves valid l_root r_root k"
  have calls: "?keeps c" if "calls_kids rec lp l rp r c" for c
    using that ih unfolding calls_kids_def by fastforce
  have run': "(case combination rec lp l rp r pointer of Some c \<Rightarrow> c
      | None \<Rightarrow> (case compare_finite_left valid l r pointer of Some report \<Rightarrow> settled report
                | None \<Rightarrow> combined (assertion_comparisons rec lp l rp r pointer))) visited = Some (report, visited')"
    using run plain_no_ref [OF pl] plain_no_ref [OF pr] unsupported_none [OF pl pr] by (simp add: compare_new_def)
  show ?thesis
  proof (cases "combination rec lp l rp r pointer")
    case None
    show ?thesis
    proof (cases "compare_finite_left valid l r pointer")
      case (Some report')
      with run' None have "report' = report" "visited' = visited" by (simp_all add: settled_def)
      with contained_finite [OF pl pr Some] proven show ?thesis by simp
    next
      case finite: None
      from run' None finite have run: "combined (assertion_comparisons rec lp l rp r pointer) visited = Some (report, visited')" by simp
      have calls': "?keeps c" if "c \<in> set (assertion_comparisons rec lp l rp r pointer)" for c
      proof -
        have "properties_of l \<noteq> None" "properties_of r \<noteq> None"
          using plain_forms [OF pl] plain_forms [OF pr] by (simp_all add: keyword_forms_ok_def)
        then show ?thesis
          using assertion_calls [OF _ _ that] json_ok_properties [of l] json_ok_properties [of r] pl pr calls
          by (simp add: plain_def)
      qed
      note all = combined_proven [OF calls' start run proven]
      have rec: "contained valid (snd a) (snd b)" if "?proves (rec a b ptr)" "kid lp l a" "kid rp r b" for a b ptr
        using ih [of a b ptr] that by blast
      have "contained valid (JObj l) (JObj r)"
        using contained_keywords [of ?proves rec lp l rp r pointer] rec l r all(2) None finite by fastforce
      with all(1) show ?thesis by simp
    qed
  next
    case (Some c)
    with run' have "c visited = Some (report, visited')" by simp
    from combination_sound [OF ih l r start Some this proven] show ?thesis .
  qed
qed

lemma in_progress_less: "in_progress valid l_root r_root k visited \<Longrightarrow> j \<le> k \<Longrightarrow> in_progress valid l_root r_root j visited"
  unfolding in_progress_def by (meson le_trans)

lemma keeps_less: "keeps valid l_root r_root j c \<Longrightarrow> j \<le> k \<Longrightarrow> keeps valid l_root r_root k c"
  unfolding keeps_def by (meson in_progress_less)

lemma proves_less: "proves valid l_root r_root k c \<Longrightarrow> j \<le> k \<Longrightarrow> proves valid l_root r_root j c"
  unfolding proves_def by (meson in_progress_less)

lemma compare_sound:
  assumes "located l_root l" "located r_root r" "comparable_left (snd l)" "comparable_right (snd r)"
    and "in_progress valid l_root r_root (Suc (size (snd l) + size (snd r))) visited"
    and "compare valid l_root r_root n l r pointer visited = Some (report, visited')" "relation report = RelProven"
  shows "grows valid l_root r_root visited visited' \<and> contained valid (snd l) (snd r)"
  using assms
proof (induction "size (snd l) + size (snd r)" arbitrary: l r n pointer visited report visited' rule: less_induct)
  case less
  from less.prems(6) obtain m where n: "n = Suc m" by (cases n) auto
  note run = less.prems(6) [unfolded n, simplified, unfolded compare_step_def]
  consider (false) "snd l = JBool False" | (true) "snd r = JBool True"
    | (objects) lp lfs rp rfs where "l = (lp, JObj lfs)" "r = (rp, JObj rfs)"
    | (other) "snd l \<noteq> JBool False" "snd r \<noteq> JBool True" "\<not> (is_JObj (snd l) \<and> is_JObj (snd r))"
    by (cases l; cases r; cases "snd l"; cases "snd r") auto
  then show ?case
  proof cases
    case objects
    have at: "node_at l_root lp = Some (JObj lfs)" "node_at r_root rp = Some (JObj rfs)"
      using less.prems(1,2) objects by (simp_all add: located_def)
    have l: "comparable_left (JObj lfs)" and r: "comparable_right (JObj rfs)" using less.prems(3,4) objects by simp_all
    note pl = comparable_plain(1) [OF l] and pr = comparable_plain(2) [OF r]
    let ?k = "size (JObj lfs) + size (JObj rfs)"
    have start: "in_progress valid l_root r_root (Suc ?k) visited" using less.prems(5) objects by simp
    show ?thesis
    proof (cases "py_equal (JObj lfs) (JObj rfs) \<or> (lp, rp) \<in> set visited")
      case True
      have "contained valid (JObj lfs) (JObj rfs)"
        using True
      proof
        assume "py_equal (JObj lfs) (JObj rfs)"
        then have "peq (JObj lfs) (JObj rfs)" using pl pr by (simp add: py_equal_peq plain_def value_ok_def)
        with valid_peq [OF pl pr] show ?thesis by (simp add: contained_def)
      next
        assume "(lp, rp) \<in> set visited"
        with start at show ?thesis by (fastforce simp: in_progress_def contained_at_def pair_size_def)
      qed
      with True run objects show ?thesis by simp
    next
      case False
      with run objects have new: "compare_new valid l_root r_root (compare valid l_root r_root m) lp lfs rp rfs pointer
          ((lp, rp) # visited) = Some (report, visited')" by simp
      have "grows valid l_root r_root ((lp, rp) # visited) visited' \<and> contained valid (JObj lfs) (JObj rfs)"
      proof (rule compare_new_sound [OF _ l r _ new less.prems(7)])
        show "in_progress valid l_root r_root ?k ((lp, rp) # visited)"
          using in_progress_less [OF start, of ?k] at by (simp add: in_progress_def pair_size_def)
      next
        fix a b ptr assume ab: "a = (lp, JObj lfs) \<or> kid lp lfs a" "b = (rp, JObj rfs) \<or> kid rp rfs b"
          "kid lp lfs a \<or> kid rp rfs b"
        let ?j = "size (snd a) + size (snd b)"
        have small: "?j < ?k" using ab kid_size [of lp lfs a] kid_size [of rp rfs b] by fastforce
        have ok: "located l_root a" "located r_root b" "comparable_left (snd a)" "comparable_right (snd b)"
          using ab kid_located [OF _ at(1)] kid_located [OF _ at(2)] kid_comparable(1) [OF _ l] kid_comparable(2) [OF _ r]
            l r less.prems(1,2) objects
          by (metis snd_conv)+
        have ih: "grows valid l_root r_root w w' \<and> contained valid (snd a) (snd b)"
          if "in_progress valid l_root r_root (Suc ?j) w" "compare valid l_root r_root m a b ptr w = Some (rep, w')"
            "relation rep = RelProven" for w rep w'
          by (rule less.hyps [OF _ ok that]) (use small objects in simp)
        have "keeps valid l_root r_root (Suc ?j) (compare valid l_root r_root m a b ptr)"
          unfolding keeps_def using ih by blast
        moreover have "contained valid (snd a) (snd b)"
          if "proves valid l_root r_root (Suc ?j) (compare valid l_root r_root m a b ptr)"
          using that ih unfolding proves_def by blast
        ultimately show "keeps valid l_root r_root ?k (compare valid l_root r_root m a b ptr) \<and>
            (proves valid l_root r_root ?k (compare valid l_root r_root m a b ptr) \<longrightarrow> contained valid (snd a) (snd b))"
          using keeps_less proves_less Suc_leI [OF small] by blast
      qed
      then show ?thesis using objects at by (auto simp: grows_def contained_at_def)
    qed
  next
    case false
    with run show ?thesis by (simp add: contained_def)
  next
    case true
    with run show ?thesis by (simp add: contained_def)
  next
    case other
    with run less.prems(7) show ?thesis
      by (cases l; cases r; cases "snd l"; cases "snd r") (auto split: if_splits)
  qed
qed

lemma subset_sound:
  assumes "comparable_left l" "comparable_right r" "compare_subset valid l r = Some report" "relation report = RelProven"
  shows "contained valid l r"
proof -
  from assms(3) obtain visited' where
    "compare valid l r (Suc (length (node_paths l) * length (node_paths r))) ([], l) ([], r) [] [] = Some (report, visited')"
    by (auto simp: compare_subset_def)
  then have "grows valid l r [] visited' \<and> contained valid (snd ([]:: node_path, l)) (snd ([]:: node_path, r))"
    by (rule compare_sound [rotated 5]) (use assms(1,2,4) in \<open>simp_all add: located_def in_progress_def\<close>)
  then show ?thesis by simp
qed

end

end
