(* ===== verification/SchemaExamples.thy ===== *)
theory SchemaExamples
  imports SchemaRecursion
begin

text \<open>
  Concrete schemas: a pair whose containment the comparison proves, a cyclic pair, and pairs outside the
  fragment of \<^verbatim>\<open>SchemaProof\<close> for which the report \<open>proven\<close> is wrong.
\<close>

section \<open>A contained pair\<close>

definition ticket_source :: json where
  "ticket_source = JObj
     [(''type'', JStr ''object''), (''required'', JArr [JStr ''id'', JStr ''kind'']),
      (''properties'', JObj
        [(''id'', JObj [(''type'', JStr ''integer''), (''minimum'', JInt 1), (''maximum'', JInt 9)]),
         (''kind'', JObj [(''enum'', JArr [JStr ''bug'', JStr ''task''])])]),
      (''additionalProperties'', JBool False)]"

definition ticket_declared :: json where
  "ticket_declared = JObj
     [(''type'', JStr ''object''), (''required'', JArr [JStr ''id'']),
      (''properties'', JObj
        [(''id'', JObj [(''type'', JStr ''number''), (''exclusiveMinimum'', JInt 0)]),
         (''kind'', JObj [(''allOf'', JArr [JObj [(''type'', JStr ''string''), (''maxLength'', JInt 4)]])])])]"

definition ticket :: json where
  "ticket = JObj [(''id'', JInt 7), (''kind'', JStr ''task'')]"

lemma ticket_comparable: "comparable_left ticket_source" "comparable_right ticket_declared" "value_ok ticket"
  by code_simp+

lemma ticket_proven: "compare_subset reference_valid ticket_source ticket_declared = Some proven"
  by code_simp

lemma ticket_valid: "reference_valid ticket_source ticket"
  by code_simp

section \<open>A cyclic pair\<close>

definition tree_schema :: "json \<Rightarrow> json" where
  "tree_schema leaf = JObj
     [(''$defs'', JObj [(''tree'', JObj [(''type'', JStr ''array''), (''items'', JObj [(''$ref'', JStr ''#/$defs/tree''), (''title'', leaf)])])]),
      (''$ref'', JStr ''#/$defs/tree'')]"

lemma tree_ok: "json_ok (tree_schema (JStr ''left''))" "json_ok (tree_schema (JStr ''right''))"
  by code_simp+

lemma tree_result: "compare_subset valid (tree_schema (JStr ''left'')) (tree_schema (JStr ''right'')) = Some proven"
  by code_simp

section \<open>Pairs that are proven and not contained\<close>

definition untyped_left :: json where "untyped_left = JObj [(''title'', JStr ''anything'')]"
definition untyped_right :: json where "untyped_right = JObj [(''required'', JArr [JStr ''id''])]"

definition sibling_left :: json where "sibling_left = JObj [(''type'', JStr ''integer'')]"
definition sibling_right :: json where
  "sibling_right = JObj [(''allOf'', JArr [JObj []]), (''type'', JStr ''string'')]"

definition constant_left :: json where "constant_left = JObj [(''const'', JInt 1)]"
definition constant_right :: json where "constant_right = JObj [(''const'', JBool True)]"

definition reference_schema :: "string \<Rightarrow> json" where
  "reference_schema t = JObj
     [(''$defs'', JObj [(''id'', JObj [(''type'', JStr t)])]), (''type'', JStr ''array''),
      (''items'', JObj [(''$ref'', JStr ''#/$defs/id'')])]"

lemmas unsound_defs = untyped_left_def untyped_right_def sibling_left_def sibling_right_def constant_left_def constant_right_def

lemma unsound_ok: "\<forall>s \<in> {untyped_left, untyped_right, sibling_left, sibling_right, constant_left, constant_right}.
   schema_ok s \<and> \<not> contains_reference s"
  by (simp, intro conjI; code_simp)

lemma unsound_reports:
  "compare_subset valid untyped_left untyped_right = Some proven"
  "compare_subset valid sibling_left sibling_right = Some proven"
  "compare_subset valid constant_left constant_right = Some proven"
  "compare_subset valid (reference_schema ''integer'') (reference_schema ''string'') = Some proven"
  by code_simp+

text \<open>What each right schema of these pairs rejects although the left one accepts it.\<close>

lemma unsound_values:
  assumes "schema_validator valid"
  shows "valid untyped_left (JObj []) \<and> \<not> valid untyped_right (JObj [])"
    "valid sibling_left (JInt 1) \<and> \<not> valid sibling_right (JInt 1)"
    "valid constant_left (JInt 1) \<and> \<not> valid constant_right (JInt 1)"
proof -
  have object: "valid c v \<longleftrightarrow> (\<exists>s. c = JObj s \<and> keywords_hold valid s v)"
    if "c \<in> {untyped_left, untyped_right, sibling_left, sibling_right, constant_left, constant_right}" for c v
  proof -
    from that obtain s where s: "c = JObj s" unfolding unsound_defs by auto
    with schema_validator.valid_object [OF assms, of s v] unsound_ok that show ?thesis by (metis json.inject(6))
  qed
  note eval = keywords_hold_def values_hold_def numbers_hold_def branches_hold_def schema_types_def number_field_def dkeys_def
    properties_of.simps list_field.simps additional_def node_or_true_def schema_validator.valid_true [OF assms]
  note objects = object [of untyped_left] object [of untyped_right] object [of sibling_left] object [of sibling_right]
    object [of constant_left] object [of constant_right]
  show "valid untyped_left (JObj []) \<and> \<not> valid untyped_right (JObj [])"
    by (simp add: objects) (simp add: unsound_defs eval)
  show "valid sibling_left (JInt 1) \<and> \<not> valid sibling_right (JInt 1)"
    by (simp add: objects) (simp add: unsound_defs eval)
  show "valid constant_left (JInt 1) \<and> \<not> valid constant_right (JInt 1)"
    by (simp add: objects) (simp add: unsound_defs eval)
qed

lemma reference_targets:
  "resolve_local_ref (reference_schema t) (JStr ''#/$defs/id'') =
     Some ([Field ''$defs'', Field ''id''], JObj [(''type'', JStr t)])"
  by code_simp

text \<open>A left \<open>allOf\<close> that refers twice to one definition: the second comparison finds the pair visited.\<close>

definition list_of_id :: json where
  "list_of_id = JObj [(''type'', JStr ''array''), (''items'', JObj [(''$ref'', JStr ''#/$defs/id'')])]"

definition branches_left :: "nat \<Rightarrow> json" where
  "branches_left n = JObj
     [(''$defs'', JObj [(''id'', JObj [(''type'', JStr ''integer'')])]), (''allOf'', JArr (replicate n list_of_id))]"

definition list_of_text :: json where
  "list_of_text = JObj
     [(''$defs'', JObj [(''text'', JObj [(''type'', JStr ''string'')])]), (''type'', JStr ''array''),
      (''items'', JObj [(''$ref'', JStr ''#/$defs/text'')])]"

lemma repeated_reports:
  "compare_subset valid (branches_left 2) list_of_text = Some proven"
  "map_option relation (compare_subset valid (branches_left 1) list_of_text) = Some RelUnknown"
  by code_simp+

end
