(* ===== verification/ActionProof.thy ===== *)
theory ActionProof
  imports SchemaRelation WorkflowCheck ActionProgram PolicyEnforcer
begin

text \<open>
  \<^verbatim>\<open>acc_core/compiler/actions.py\<close>: the safety proof of one Action, its diagnostics and the inventory
  (mutations, effects, risk, scopes, approval) the runtime reads. The code and the pointer of a
  diagnostic are modelled, in the order of the code but for the strings of one step, which come in the
  order of its sorted keys. \<open>valid\<close> is the JSON Schema library.
\<close>

section \<open>Pointers into schemas\<close>

definition pointer_tokens :: "string \<Rightarrow> string list" where
  "pointer_tokens pointer = map unescape_token (split_on (CHR ''/'') (drop 1 pointer))"

definition inert_siblings :: "string list" where
  "inert_siblings = [''$comment'', ''$id'', ''$schema'', ''default'', ''deprecated'', ''description'', ''title'']"

fun strings_within :: "json \<Rightarrow> string set" where
  "strings_within (JStr s) = {s}"
| "strings_within (JArr xs) = (\<Union>x \<in> set xs. strings_within x)"
| "strings_within (JObj fs) = (\<Union>p \<in> set fs. strings_within (snd p))"
| "strings_within _ = {}"

lemma finite_strings_within [simp]: "finite (strings_within v)"
  by (induction v) auto

lemma strings_within_field: "dget fs k = Some w \<Longrightarrow> strings_within w \<subseteq> strings_within (JObj fs)"
  by (auto dest!: dget_in_set)

lemma strings_within_path: "lookup_path v ks = Some w \<Longrightarrow> strings_within w \<subseteq> strings_within v"
proof (induction v ks rule: lookup_path.induct)
  case (2 v k ks)
  then show ?case using strings_within_field by (cases v) (fastforce split: option.splits)+
qed simp

text \<open>\<open>_dereference_schema\<close>; \<open>seen\<close> are the references already followed.\<close>

function dereference_schema :: "json \<Rightarrow> string list \<Rightarrow> json \<Rightarrow> (string, json) dict option" where
  "dereference_schema root_schema seen current =
     (case current of
        JObj fs \<Rightarrow>
          (case dget fs ''$ref'' of
             None \<Rightarrow> Some fs
           | Some (JStr r) \<Rightarrow>
               if \<not> prefix ''#/'' r \<or> r \<in> set seen \<or>
                  list_ex (\<lambda>k. k \<noteq> ''$ref'' \<and> k \<notin> set inert_siblings) (dkeys fs)
               then None
               else (case lookup_path root_schema (pointer_tokens (drop 1 r)) of
                       None \<Rightarrow> None
                     | Some w \<Rightarrow> dereference_schema root_schema (r # seen) w)
           | Some _ \<Rightarrow> None)
      | _ \<Rightarrow> None)"
  by pat_completeness auto
termination
proof (relation "measure (\<lambda>(root_schema, seen, current).
    card (strings_within root_schema \<union> strings_within current - set seen))")
  fix root_schema current v w :: json and seen fs r
  assume a: "current = JObj fs" "dget fs ''$ref'' = Some v" "v = JStr r"
    "\<not> (\<not> prefix ''#/'' r \<or> r \<in> set seen \<or> list_ex (\<lambda>k. k \<noteq> ''$ref'' \<and> k \<notin> set inert_siblings) (dkeys fs))"
    "lookup_path root_schema (pointer_tokens (drop 1 r)) = Some w"
  have "r \<in> strings_within current" using strings_within_field [OF a(2)] a(1,3) by simp
  moreover have "strings_within w \<subseteq> strings_within root_schema" using a(5) by (rule strings_within_path)
  ultimately have "strings_within root_schema \<union> strings_within w - set (r # seen) \<subset>
      strings_within root_schema \<union> strings_within current - set seen" using a(4) by auto
  then show "((root_schema, r # seen, w), root_schema, seen, current) \<in> measure (\<lambda>(root_schema, seen, current).
      card (strings_within root_schema \<union> strings_within current - set seen))"
    by (simp add: psubset_card_mono)
qed simp

declare dereference_schema.simps [simp del]

text \<open>\<open>token.isdecimal()\<close> without a leading zero, and \<open>int(token)\<close>\<close>

definition index_token :: "string \<Rightarrow> bool" where
  "index_token t \<longleftrightarrow> t \<noteq> [] \<and> list_all is_ascii_digit t \<and> \<not> (1 < length t \<and> hd t = CHR ''0'')"

definition index_value :: "string \<Rightarrow> nat" where
  "index_value t = foldl (\<lambda>n c. 10 * n + (of_char c - 48)) 0 t"

text \<open>One token of \<open>_schema_at_data_pointer\<close>, and of \<open>_schema_pointer_is_guaranteed\<close>.\<close>

definition property_schema :: "(string, json) dict \<Rightarrow> string \<Rightarrow> json option" where
  "property_schema fs token =
     (case dget fs ''properties'' of
        Some (JObj ps) \<Rightarrow> (case dget ps token of Some (JObj s) \<Rightarrow> Some (JObj s) | _ \<Rightarrow> None)
      | _ \<Rightarrow> None)"

definition items_schema :: "(string, json) dict \<Rightarrow> json option" where
  "items_schema fs = (case dget fs ''items'' of Some (JObj s) \<Rightarrow> Some (JObj s) | _ \<Rightarrow> None)"

definition schema_child :: "(string, json) dict \<Rightarrow> string \<Rightarrow> json option" where
  "schema_child fs token =
     (if dget fs ''type'' = Some (JStr ''array'')
      then (if index_token token then items_schema fs else None)
      else property_schema fs token)"

definition child_guaranteed :: "(string, json) dict \<Rightarrow> string \<Rightarrow> bool" where
  "child_guaranteed fs token =
     (if dget fs ''type'' = Some (JStr ''array'')
      then (case dget fs ''minItems'' of Some (JInt n) \<Rightarrow> int (index_value token) < n | _ \<Rightarrow> False)
      else (case dget fs ''required'' of Some (JArr names) \<Rightarrow> JStr token \<in> set names | _ \<Rightarrow> False))"

fun schema_walk :: "bool \<Rightarrow> json \<Rightarrow> json \<Rightarrow> string list \<Rightarrow> (string, json) dict option" where
  "schema_walk guaranteed root_schema current [] = dereference_schema root_schema [] current"
| "schema_walk guaranteed root_schema current (t # ts) =
     (case dereference_schema root_schema [] current of
        None \<Rightarrow> None
      | Some fs \<Rightarrow>
          (case schema_child fs t of
             None \<Rightarrow> None
           | Some s \<Rightarrow>
               if guaranteed \<and> \<not> child_guaranteed fs t then None
               else schema_walk guaranteed root_schema s ts))"

definition schema_at_data_pointer :: "json \<Rightarrow> string \<Rightarrow> (string, json) dict option" where
  "schema_at_data_pointer schema pointer = schema_walk False schema schema (pointer_tokens pointer)"

definition schema_pointer_is_guaranteed :: "json \<Rightarrow> string \<Rightarrow> bool" where
  "schema_pointer_is_guaranteed schema pointer \<longleftrightarrow> schema_walk True schema schema (pointer_tokens pointer) \<noteq> None"

section \<open>Disclosure of a pointer\<close>

definition policy_path_tokens :: "string \<Rightarrow> string list" where
  "policy_path_tokens value =
     (let v = (if prefix ''$.'' value then drop 2 value else value)
      in if prefix ''/'' v then pointer_tokens v
         else filter (\<lambda>token. token \<noteq> []) (split_on (CHR ''.'') v))"

definition paths_overlap :: "string list \<Rightarrow> string list \<Rightarrow> bool" where
  "paths_overlap l r = (let common = min (length l) (length r) in take common l = take common r)"

definition policy_discloses_unmodified :: "policy \<Rightarrow> string \<Rightarrow> bool" where
  "policy_discloses_unmodified p pointer =
     (let source = pointer_tokens pointer
      in list_ex (\<lambda>rule. length rule \<le> length source \<and> take (length rule) source = rule)
           (map policy_path_tokens (readable_fields p)) \<and>
         \<not> list_ex (paths_overlap source)
           (map policy_path_tokens (denied_fields p) @ map (\<lambda>r. policy_path_tokens (rule_path r)) (redaction_rules p)))"

section \<open>Call sites and mutation counts\<close>

datatype container = InParallel | InForeach

record call_site =
  site_operation :: string
  site_arguments :: "(string, json) dict"
  site_pointer :: string
  site_containers :: "container list"

text \<open>\<open>_call_sites\<close>, with the pointer of the step or of the list of steps.\<close>

fun step_sites :: "string \<Rightarrow> container list \<Rightarrow> step \<Rightarrow> call_site list"
  and sites_from :: "string \<Rightarrow> nat \<Rightarrow> container list \<Rightarrow> step list \<Rightarrow> call_site list"
  and parallel_sites :: "string \<Rightarrow> nat \<Rightarrow> container list \<Rightarrow> step list \<Rightarrow> call_site list" where
  "step_sites pointer cs (CallStep i oid args) =
     [\<lparr>site_operation = oid, site_arguments = args, site_pointer = pointer @ ''/call'', site_containers = cs\<rparr>]"
| "step_sites pointer cs (BranchStep i k ts es) =
     sites_from (pointer @ ''/branch/then'') 0 cs ts @ sites_from (pointer @ ''/branch/else'') 0 cs es"
| "step_sites pointer cs (ParallelStep i ss) = parallel_sites (pointer @ ''/parallel'') 0 (cs @ [InParallel]) ss"
| "step_sites pointer cs (ForeachStep i v nm n ss) =
     sites_from (pointer @ ''/foreach/workflow'') 0 (cs @ [InForeach]) ss"
| "step_sites pointer cs _ = []"
| "sites_from pointer index cs [] = []"
| "sites_from pointer index cs (s # ss) =
     step_sites (at_index pointer index) cs s @ sites_from pointer (Suc index) cs ss"
| "parallel_sites pointer index cs [] = []"
| "parallel_sites pointer index cs (s # ss) =
     step_sites (at_index (at_index pointer index) 0) cs s @ parallel_sites pointer (Suc index) cs ss"

definition call_sites :: "string \<Rightarrow> step list \<Rightarrow> call_site list" where
  "call_sites pointer ss = sites_from pointer 0 [] ss"

fun is_action :: "operations \<Rightarrow> string \<Rightarrow> bool" where
  "is_action ops oid = (case dget ops oid of None \<Rightarrow> False | Some oper \<Rightarrow> op_kind oper = ActionKind)"

fun is_read :: "operations \<Rightarrow> string \<Rightarrow> bool" where
  "is_read ops oid = (case dget ops oid of None \<Rightarrow> False | Some oper \<Rightarrow> op_kind oper = ReadKind)"

definition sum_counts :: "nat set \<Rightarrow> nat set \<Rightarrow> nat set" where
  "sum_counts l r = (\<lambda>(a, b). a + b) ` (l \<times> r)"

text \<open>\<open>_mutation_path_counts\<close>: \<open>path_counts\<close> continues with the counts of the steps before.\<close>

fun step_counts :: "operations \<Rightarrow> step \<Rightarrow> nat set"
  and path_counts :: "operations \<Rightarrow> nat set \<Rightarrow> step list \<Rightarrow> nat set"
  and parallel_counts :: "operations \<Rightarrow> nat set \<Rightarrow> step list \<Rightarrow> nat set" where
  "step_counts ops (CallStep i oid args) = (if is_action ops oid then {1} else {0})"
| "step_counts ops (BranchStep i k ts es) = path_counts ops {0} ts \<union> path_counts ops {0} es"
| "step_counts ops (ParallelStep i ss) = parallel_counts ops {0} ss"
| "step_counts ops (ForeachStep i v nm n ss) =
     (let item_counts = path_counts ops {0} ss in {0} \<union> item_counts \<union> (\<lambda>c. c * n) ` item_counts)"
| "step_counts ops _ = {0}"
| "path_counts ops counts [] = counts"
| "path_counts ops counts (s # ss) = path_counts ops (sum_counts counts (step_counts ops s)) ss"
| "parallel_counts ops counts [] = counts"
| "parallel_counts ops counts (s # ss) = parallel_counts ops (sum_counts counts (sum_counts {0} (step_counts ops s))) ss"

definition mutation_path_counts :: "step list \<Rightarrow> operations \<Rightarrow> nat set" where
  "mutation_path_counts ss ops = path_counts ops {0} ss"

section \<open>References in workflows\<close>

fun walk_strings :: "json \<Rightarrow> string \<Rightarrow> (string \<times> string) list" where
  "walk_strings (JStr s) pointer = [(s, pointer)]"
| "walk_strings (JArr xs) pointer =
     concat (map (\<lambda>i. walk_strings (xs ! i) (at_index pointer i)) [0..<length xs])"
| "walk_strings (JObj fs) pointer = concat (map (\<lambda>p. walk_strings (snd p) (child pointer (fst p))) fs)"
| "walk_strings _ pointer = []"

definition workflow_strings :: "string \<Rightarrow> step list \<Rightarrow> (string \<times> string) list" where
  "workflow_strings pointer ss =
     concat (map (\<lambda>i. walk_strings (step_json (ss ! i)) (at_index pointer i)) [0..<length ss])"

text \<open>\<open>_PREPARED_REFERENCE\<close>, \<open>_DIRECT_INPUT_REFERENCE\<close> and \<open>_FRESH_STEP_REFERENCE\<close>\<close>

definition prepared_reference :: "string \<Rightarrow> bool" where
  "prepared_reference s =
     (case split_on (CHR ''.'') s of
        a # b # c # path \<Rightarrow>
          a = ''$'' \<and> b = ''prepared'' \<and> (c = ''input'' \<or> c = ''preview'') \<and> list_all is_segment path
      | _ \<Rightarrow> False)"

definition direct_input_reference :: "string \<Rightarrow> bool" where
  "direct_input_reference s =
     (case split_on (CHR ''.'') s of a # b # path \<Rightarrow> a = ''$'' \<and> b = ''input'' \<and> list_all is_segment path | _ \<Rightarrow> False)"

definition fresh_step_reference :: "string \<Rightarrow> bool" where
  "fresh_step_reference s =
     (case split_on (CHR ''.'') s of
        a # b # c # path \<Rightarrow> a = ''$'' \<and> b = ''steps'' \<and> is_segment c \<and> list_all is_segment path
      | _ \<Rightarrow> False)"

definition names_prepared :: "string \<Rightarrow> bool" where
  "names_prepared s \<longleftrightarrow> s = ''$.prepared'' \<or> prefix ''$.prepared.'' s"

section \<open>Source semantics\<close>

datatype semantics_authority = ContractAuthority | ImplementationAuthority | TestAuthority

datatype semantics_field =
  ConflictControlField | EffectField | IdempotencyField | OutcomeField | ReversibilityField | RetryField | RiskField

record provenance_claim =
  pv_field :: semantics_field
  pv_evidence :: evidence
  pv_pointer :: string
  pv_authority :: semantics_authority

record action_semantics =
  sem_method :: http_method
  sem_safety :: safety
  sem_outcome :: "outcome_resolution option"
  sem_evidence :: evidence
  sem_authority :: semantics_authority
  sem_provenance :: "provenance_claim list"

text \<open>\<open>ActionSemantics.validate_replay_contract\<close>\<close>

definition semantics_ok :: "action_semantics \<Rightarrow> bool" where
  "semantics_ok sem \<longleftrightarrow>
     \<not> (retry_of (sem_safety sem) = RetryIdempotentOnly \<and> \<not> is_source_key (idempotency_of (sem_safety sem))) \<and>
     (case sem_outcome sem of
        Some (OutcomeStatusQuery q) \<Rightarrow>
          (let source_key = is_source_key (idempotency_of (sem_safety sem));
               has_success = success_pointer q \<noteq> None \<and> success_values q \<noteq> None;
               runtime_bindings = filter (\<lambda>b. binding_source b = FromRuntimeKey) (request_bindings q)
           in (source_key \<longrightarrow> has_success \<and> length runtime_bindings = 1) \<and>
              (\<not> source_key \<longrightarrow> \<not> has_success \<and> runtime_bindings = []) \<and>
              (success_pointer q = None) = (success_values q = None))
      | _ \<Rightarrow> True) \<and>
     (is_server_serialized (concurrency_of (sem_safety sem)) \<longrightarrow>
        (case sem_outcome sem of Some (OutcomeStatusQuery _) \<Rightarrow> True | _ \<Rightarrow> False) \<and>
        map pv_field (sem_provenance sem) =
          [ConflictControlField, EffectField, IdempotencyField, OutcomeField, ReversibilityField, RetryField, RiskField])"

text \<open>
  \<open>compile_action_semantics_attestation\<close> compares the dumped contracts with Python's equality, which
  matters for the JSON values in them.
\<close>

fun idempotency_equal :: "idempotency \<Rightarrow> idempotency \<Rightarrow> bool" where
  "idempotency_equal (IdemState p vs) (IdemState q ws) = (p = q \<and> list_all2 py_equal vs ws)"
| "idempotency_equal a b = (a = b)"

fun concurrency_equal :: "concurrency \<Rightarrow> concurrency \<Rightarrow> bool" where
  "concurrency_equal (ConcServerSerialized r p vs) (ConcServerSerialized s q ws) =
     (r = s \<and> p = q \<and> list_all2 py_equal vs ws)"
| "concurrency_equal a b = (a = b)"

definition claims_operation :: "operation \<Rightarrow> action_semantics \<Rightarrow> bool" where
  "claims_operation oper sem \<longleftrightarrow>
     (let s = http_safety (http_contract oper); t = sem_safety sem
      in sem_method sem = http_method (http_contract oper) \<and> effect_of t = effect_of s \<and> risk_of t = risk_of s \<and>
         reversibility_of t = reversibility_of s \<and> retry_of t = retry_of s \<and>
         idempotency_equal (idempotency_of t) (idempotency_of s) \<and> concurrency_equal (concurrency_of t) (concurrency_of s))"

definition semantics_bound :: "operation \<Rightarrow> action_semantics \<Rightarrow> bool" where
  "semantics_bound oper sem \<longleftrightarrow>
     claims_operation oper sem \<and> sem_evidence sem \<in> set (op_evidence oper) \<and>
     list_all (\<lambda>c. pv_evidence c \<in> set (op_evidence oper)) (sem_provenance sem)"

text \<open>The JSON form of the semantics is pydantic's: \<open>dump\<close> and \<open>parse\<close> are parameters.\<close>

definition compile_attestation :: "crypto \<Rightarrow> (action_semantics \<Rightarrow> json) \<Rightarrow> operation \<Rightarrow> action_semantics \<Rightarrow> json option" where
  "compile_attestation cr dump oper sem =
     (if semantics_bound oper sem
      then map_option (\<lambda>h. JObj [(''summary'', dump sem), (''digest'', JStr (''sha256:'' @ h))]) (json_digest cr (dump sem))
      else None)"

definition verify_attestation ::
    "crypto \<Rightarrow> (action_semantics \<Rightarrow> json) \<Rightarrow> (json \<Rightarrow> action_semantics option) \<Rightarrow> operation \<Rightarrow> json \<Rightarrow> bool" where
  "verify_attestation cr dump parse oper v =
     (case v of
        JObj fs \<Rightarrow>
          if set (dkeys fs) \<noteq> {''summary'', ''digest''} then False
          else
            (case (dget fs ''summary'', dget fs ''digest'') of
               (Some (JObj summary), Some (JStr digest)) \<Rightarrow>
                 (case parse (JObj summary) of
                    None \<Rightarrow> False
                  | Some sem \<Rightarrow>
                      (case compile_attestation cr dump oper sem of None \<Rightarrow> False | Some expected \<Rightarrow> py_equal v expected))
             | _ \<Rightarrow> False)
      | _ \<Rightarrow> False)"

end
