(* ===== verification/ActionProver.thy ===== *)
theory ActionProver
  imports ActionProof
begin

text \<open>
  \<open>prove_action_capability\<close> of \<^verbatim>\<open>acc_core/compiler/actions.py\<close>: every check of the proof in the
  order of the code, and the inventory it returns. The report of the code is the diagnostics, the part
  of the proof the runtime reads, and the operations of the outcome and state strategies.
\<close>

section \<open>Diagnostics\<close>

datatype action_code =
    ActOperationNotFound | ActPreviewMutation | ActMutationInParallel | ActMutationInForeach
  | ActModeUnsupported | ActSingleMutationRequired | ActPreparedInPreview | ActPreparedInvalid
  | ActUnpreparedInput | ActFreshStepInput | ActResourceKeyInvalid | ActLocalReadRequired | ActLocalStateInvalid
  | ActStatusQueryInvalid | ActBindingTargetInvalid | ActBindingContextForbidden | ActRuntimeKeyTargetInvalid
  | ActBindingSourceInvalid | ActPreviewNotPublic | ActBindingSchemaUnproven | ActSuccessFieldUnproven
  | ActSuccessValueInvalid | ActRequiredUnbound | ActSourceIdempotencyRequired | ActLocalSafetyInvalid
  | ActConcurrencyRequired | ActSerializedEffect | ActSerializedRetry | ActStateIdempotencyRequired
  | ActStateReadRequired | ActProvenanceRequired | ActStatusQueryRequired | ActApprovalRequired

type_synonym action_diagnostic = "action_code \<times> string"

record proof_report =
  report_diagnostics :: "action_diagnostic list"
  report_proof :: action_proof
  report_strategies :: "string list"

section \<open>The schema of the preview\<close>

text \<open>\<open>_preview_result_schema\<close>\<close>

definition escaped_pointer :: "string list \<Rightarrow> string" where
  "escaped_pointer tokens = CHR ''/'' # join_with (CHR ''/'') (map pointer_token tokens)"

definition producers :: "string \<Rightarrow> step list \<Rightarrow> string list" where
  "producers sid ss = concat (map (\<lambda>s. case s of CallStep (Some i) oid _ \<Rightarrow> if i = sid then [oid] else [] | _ \<Rightarrow> []) ss)"

definition preview_result_schema :: "step list \<Rightarrow> operations \<Rightarrow> json option" where
  "preview_result_schema preview ops =
     (case last preview of
        EmitStep _ (JStr reference) \<Rightarrow>
          if \<not> prefix ''$.steps.'' reference then None
          else
            (case split_on (CHR ''.'') (drop 8 reference) of
               [] \<Rightarrow> None
             | sid # tokens \<Rightarrow>
                 if [] \<in> set (sid # tokens) then None
                 else
                   (case producers sid preview of
                      [oid] \<Rightarrow>
                        (case dget ops oid of
                           None \<Rightarrow> None
                         | Some oper \<Rightarrow>
                             if op_kind oper \<noteq> ReadKind then None
                             else if tokens = [] then Some (op_output_schema oper)
                             else if \<not> schema_pointer_is_guaranteed (op_output_schema oper) (escaped_pointer tokens) then None
                             else map_option JObj (schema_at_data_pointer (op_output_schema oper) (escaped_pointer tokens)))
                    | _ \<Rightarrow> None))
      | _ \<Rightarrow> None)"

section \<open>Status queries\<close>

text \<open>\<open>properties\<close> and \<open>required\<close> of the query's input schema, and the bindings, defaults included.\<close>

definition query_properties :: "operation \<Rightarrow> (string, json) dict option" where
  "query_properties oper = (case jget (op_input_schema oper) ''properties'' of Some (JObj ps) \<Rightarrow> Some ps | _ \<Rightarrow> None)"

definition query_required :: "operation \<Rightarrow> json list option" where
  "query_required oper =
     (case jget (op_input_schema oper) ''required'' of None \<Rightarrow> Some [] | Some (JArr vs) \<Rightarrow> Some vs | _ \<Rightarrow> None)"

definition required_inputs :: "operation \<Rightarrow> json list \<Rightarrow> string list" where
  "required_inputs oper vs =
     filter (\<lambda>t. t \<notin> set (dkeys (context_bindings oper)))
       (concat (map (\<lambda>v. case v of JStr t \<Rightarrow> [t] | _ \<Rightarrow> []) vs))"

definition default_binding :: "string \<Rightarrow> request_binding" where
  "default_binding t =
     \<lparr>binding_target = t, binding_source = FromCapabilityInput, source_pointer = Some (CHR ''/'' # pointer_token t)\<rparr>"

definition query_bindings :: "status_query \<Rightarrow> string list \<Rightarrow> request_binding list" where
  "query_bindings q names = (if request_bindings q \<noteq> [] then request_bindings q else map default_binding (sorted_set names))"

definition proven_output :: "(json \<Rightarrow> json \<Rightarrow> bool) \<Rightarrow> json \<Rightarrow> json \<Rightarrow> bool" where
  "proven_output valid source declared \<longleftrightarrow>
     (case compare_operation_output valid source declared of None \<Rightarrow> False | Some result \<Rightarrow> relation result = RelProven)"

definition runtime_key_schema :: json where
  "runtime_key_schema = JObj [(''type'', JStr ''string''), (''minLength'', JInt 1), (''maxLength'', JInt 200)]"

text \<open>The body of the loop over the bindings: the first problem, or \<open>None\<close> when the target is constructed.\<close>

definition binding_problem ::
    "(json \<Rightarrow> json \<Rightarrow> bool) \<Rightarrow> capability \<Rightarrow> operation \<Rightarrow> json option \<Rightarrow> policy option \<Rightarrow> (string, json) dict \<Rightarrow>
     string \<Rightarrow> request_binding \<Rightarrow> action_diagnostic option" where
  "binding_problem valid c oper preview_schema pol properties pointer b =
     (case dget properties (binding_target b) of
        Some (JObj target) \<Rightarrow>
          if binding_target b \<in> set (dkeys (context_bindings oper))
          then Some (ActBindingContextForbidden, pointer @ ''/target'')
          else if binding_source b = FromRuntimeKey
          then (if proven_output valid runtime_key_schema (JObj target) then None
                else Some (ActRuntimeKeyTargetInvalid, pointer))
          else
            (case source_pointer b of
               None \<Rightarrow> Some (ActBindingSourceInvalid, pointer @ ''/source_pointer'')
             | Some p \<Rightarrow>
                 if binding_source b = FromPreparedPreview \<and>
                    (case pol of None \<Rightarrow> True
                     | Some pol' \<Rightarrow> policy_id pol' \<noteq> cap_policy c \<or> \<not> policy_discloses_unmodified pol' p)
                 then Some (ActPreviewNotPublic, pointer @ ''/source_pointer'')
                 else
                   (case (if binding_source b = FromCapabilityInput then Some (cap_input_schema c) else preview_schema) of
                      None \<Rightarrow> Some (ActBindingSourceInvalid, pointer @ ''/source_pointer'')
                    | Some source_root \<Rightarrow>
                        (case schema_at_data_pointer source_root p of
                           None \<Rightarrow> Some (ActBindingSourceInvalid, pointer @ ''/source_pointer'')
                         | Some source \<Rightarrow>
                             if \<not> schema_pointer_is_guaranteed source_root p
                             then Some (ActBindingSourceInvalid, pointer @ ''/source_pointer'')
                             else if \<not> proven_output valid (JObj source) (JObj target)
                             then Some (ActBindingSchemaUnproven, pointer)
                             else None)))
      | _ \<Rightarrow> Some (ActBindingTargetInvalid, pointer @ ''/target''))"

definition success_problem :: "(json \<Rightarrow> json \<Rightarrow> bool) \<Rightarrow> operation \<Rightarrow> status_query \<Rightarrow> action_diagnostic list" where
  "success_problem valid oper q =
     (case (success_pointer q, success_values q) of
        (Some p, Some vs) \<Rightarrow>
          (case schema_at_data_pointer (op_output_schema oper) p of
             None \<Rightarrow> [(ActSuccessFieldUnproven, ''/commit_workflow/status_query/success_pointer'')]
           | Some s \<Rightarrow>
               if \<not> schema_pointer_is_guaranteed (op_output_schema oper) p
               then [(ActSuccessFieldUnproven, ''/commit_workflow/status_query/success_pointer'')]
               else if list_ex (\<lambda>v. \<not> valid (JObj s) v) vs
               then [(ActSuccessValueInvalid, ''/commit_workflow/status_query/success_values'')]
               else [])
      | _ \<Rightarrow> [])"

text \<open>\<open>_prove_status_query_bindings\<close>\<close>

definition prove_status_query_bindings ::
    "(json \<Rightarrow> json \<Rightarrow> bool) \<Rightarrow> capability \<Rightarrow> operation \<Rightarrow> status_query \<Rightarrow> json option \<Rightarrow> policy option \<Rightarrow>
     action_diagnostic list" where
  "prove_status_query_bindings valid c oper q preview_schema pol =
     (case (query_properties oper, query_required oper) of
        (Some properties, Some vs) \<Rightarrow>
          (let required = required_inputs oper vs;
               bindings = query_bindings q required;
               problem = (\<lambda>i. binding_problem valid c oper preview_schema pol properties
                                (at_index ''/commit_workflow/status_query/request_bindings'' i) (bindings ! i));
               problems = map problem [0..<length bindings];
               constructed = map (\<lambda>i. binding_target (bindings ! i))
                               (filter (\<lambda>i. problem i = None) [0..<length bindings])
           in concat (map (\<lambda>o1. case o1 of None \<Rightarrow> [] | Some d \<Rightarrow> [d]) problems)
              @ success_problem valid oper q
              @ map (\<lambda>t. (ActRequiredUnbound, child ''/commit_workflow/status_query/required'' t))
                  (filter (\<lambda>t. t \<notin> set constructed) (sorted_set required)))
      | _ \<Rightarrow> [(ActBindingTargetInvalid, ''/commit_workflow'')])"

section \<open>The workflows\<close>

definition diag_if :: "bool \<Rightarrow> action_code \<Rightarrow> string \<Rightarrow> action_diagnostic list" where
  "diag_if b code pointer = (if b then [(code, pointer)] else [])"

definition mutation_sites :: "operations \<Rightarrow> step list \<Rightarrow> call_site list" where
  "mutation_sites ops commit = filter (\<lambda>s. is_action ops (site_operation s)) (call_sites ''/commit_workflow'' commit)"

definition site_problems :: "operations \<Rightarrow> step list \<Rightarrow> step list \<Rightarrow> action_diagnostic list" where
  "site_problems ops preview commit =
     (let preview_sites = call_sites ''/preview_workflow'' preview;
          all_sites = preview_sites @ call_sites ''/commit_workflow'' commit
      in concat (map (\<lambda>s. diag_if (dget ops (site_operation s) = None) ActOperationNotFound (site_pointer s @ ''/operation''))
           all_sites)
         @ concat (map (\<lambda>s. diag_if (is_action ops (site_operation s)) ActPreviewMutation (site_pointer s @ ''/operation''))
             preview_sites)
         @ concat (map (\<lambda>s.
             diag_if (InParallel \<in> set (site_containers s)) ActMutationInParallel (site_pointer s @ ''/operation'')
             @ diag_if (InForeach \<in> set (site_containers s)) ActMutationInForeach (site_pointer s @ ''/operation''))
             (mutation_sites ops commit)))"

definition count_problems :: "operations \<Rightarrow> action_contract \<Rightarrow> step list \<Rightarrow> action_diagnostic list" where
  "count_problems ops a commit =
     (if execution_mode a \<noteq> Single then [(ActModeUnsupported, ''/action/execution_mode'')]
      else diag_if (mutation_path_counts commit ops \<noteq> {1}) ActSingleMutationRequired ''/commit_workflow'')"

definition reference_problems :: "operations \<Rightarrow> step list \<Rightarrow> step list \<Rightarrow> action_diagnostic list" where
  "reference_problems ops preview commit =
     concat (map (\<lambda>(s, pointer). diag_if (names_prepared s) ActPreparedInPreview pointer)
       (workflow_strings ''/preview_workflow'' preview))
     @ concat (map (\<lambda>(s, pointer). diag_if (names_prepared s \<and> \<not> prepared_reference s) ActPreparedInvalid pointer)
         (workflow_strings ''/commit_workflow'' commit))
     @ concat (map (\<lambda>site. concat (map (\<lambda>(s, pointer).
           diag_if (direct_input_reference s) ActUnpreparedInput pointer
           @ diag_if (fresh_step_reference s) ActFreshStepInput pointer)
         (walk_strings (JObj (site_arguments site)) (site_pointer site @ ''/arguments'')))) (mutation_sites ops commit))"

section \<open>The local development guard\<close>

definition guard_problems ::
    "capability \<Rightarrow> operations \<Rightarrow> step list \<Rightarrow> json option \<Rightarrow> policy option \<Rightarrow> local_guard \<Rightarrow> action_diagnostic list" where
  "guard_problems c ops preview preview_schema pol g =
     diag_if (case schema_at_data_pointer (cap_input_schema c) (resource_key_pointer g) of
             None \<Rightarrow> True
           | Some s \<Rightarrow> \<not> schema_pointer_is_guaranteed (cap_input_schema c) (resource_key_pointer g) \<or>
               dget s ''type'' \<notin> {Some (JStr ''string''), Some (JStr ''integer'')})
       ActResourceKeyInvalid ''/action/local_development_state_guard/resource_key_pointer''
     @ diag_if (guard_read_operation g \<notin> set (map site_operation (call_sites ''/preview_workflow'' preview)) \<or>
             \<not> is_read ops (guard_read_operation g))
         ActLocalReadRequired ''/preview_workflow''
     @ diag_if (case (preview_schema, pol) of
               (Some s, Some p) \<Rightarrow> \<not> schema_pointer_is_guaranteed s (state_pointer g) \<or>
                  \<not> policy_discloses_unmodified p (state_pointer g)
             | _ \<Rightarrow> True)
         ActLocalStateInvalid ''/action/local_development_state_guard/state_pointer''"

text \<open>\<open>type not in {"string", "integer"}\<close> raises for a list of types, which is unhashable.\<close>

definition guard_raises :: "capability \<Rightarrow> local_guard \<Rightarrow> bool" where
  "guard_raises c g \<longleftrightarrow>
     (case schema_at_data_pointer (cap_input_schema c) (resource_key_pointer g) of
        None \<Rightarrow> False
      | Some s \<Rightarrow> schema_pointer_is_guaranteed (cap_input_schema c) (resource_key_pointer g) \<and>
          (case dget s ''type'' of Some (JArr _) \<Rightarrow> True | Some (JObj _) \<Rightarrow> True | _ \<Rightarrow> False))"

definition guard_strategies :: "operations \<Rightarrow> step list \<Rightarrow> local_guard \<Rightarrow> string list" where
  "guard_strategies ops preview g =
     (if guard_read_operation g \<in> set (map site_operation (call_sites ''/preview_workflow'' preview)) \<and>
         is_read ops (guard_read_operation g)
      then [guard_read_operation g] else [])"

section \<open>One mutating operation\<close>

definition trusted_fields :: "provenance_claim list \<Rightarrow> (semantics_field, semantics_authority) dict" where
  "trusted_fields claims = foldl (\<lambda>d c. dset d (pv_field c) (pv_authority c)) [] claims"

definition provenance_ok :: "operation \<Rightarrow> action_semantics option \<Rightarrow> bool" where
  "provenance_ok oper semantics \<longleftrightarrow>
     (case semantics of
        None \<Rightarrow> False
      | Some sem \<Rightarrow>
          semantics_bound oper sem \<and>
          list_all (\<lambda>k. dget (trusted_fields (sem_provenance sem)) k \<in> {Some ImplementationAuthority, Some TestAuthority})
            [ConflictControlField, IdempotencyField, OutcomeField])"

definition uses_local_guard :: "bool \<Rightarrow> safety \<Rightarrow> bool" where
  "uses_local_guard guard_valid s \<longleftrightarrow>
     guard_valid \<and> effect_of s \<in> {Update, Delete, Transition} \<and> risk_of s = Low \<and> retry_of s = RetryNever \<and>
     idempotency_of s = IdemRuntimeDeduplicate \<and> concurrency_of s = ConcNotSupported"

definition status_problems ::
    "(json \<Rightarrow> json \<Rightarrow> bool) \<Rightarrow> capability \<Rightarrow> operations \<Rightarrow> json option \<Rightarrow> policy option \<Rightarrow> action_semantics option \<Rightarrow>
     action_diagnostic list \<times> string list \<times> bool" where
  "status_problems valid c ops preview_schema pol semantics =
     (case Option.bind semantics sem_outcome of
        Some (OutcomeStatusQuery q) \<Rightarrow>
          (case dget ops (query_operation q) of
             None \<Rightarrow> ([(ActStatusQueryInvalid, ''/commit_workflow'')], [], False)
           | Some oper \<Rightarrow>
               if op_kind oper \<noteq> ReadKind then ([(ActStatusQueryInvalid, ''/commit_workflow'')], [], False)
               else (prove_status_query_bindings valid c oper q preview_schema pol, [query_operation q], True))
      | _ \<Rightarrow> ([], [], False))"

definition serialized_problems ::
    "operations \<Rightarrow> step list \<Rightarrow> operation \<Rightarrow> action_semantics option \<Rightarrow> bool \<Rightarrow> action_diagnostic list \<times> string list" where
  "serialized_problems ops preview oper semantics status_valid =
     (let s = http_safety (http_contract oper) in
      case concurrency_of s of
        ConcServerSerialized r p vs \<Rightarrow>
          (let readable = r \<in> set (map site_operation (call_sites ''/preview_workflow'' preview)) \<and> is_read ops r
           in (diag_if (effect_of s \<notin> {Delete, Transition}) ActSerializedEffect ''/commit_workflow''
               @ diag_if (retry_of s \<noteq> RetryNever) ActSerializedRetry ''/commit_workflow''
               @ diag_if (\<not> is_state_idempotent (idempotency_of s)) ActStateIdempotencyRequired ''/commit_workflow''
               @ diag_if (\<not> readable) ActStateReadRequired ''/preview_workflow''
               @ diag_if (\<not> provenance_ok oper semantics) ActProvenanceRequired ''/commit_workflow''
               @ diag_if (\<not> status_valid) ActStatusQueryRequired ''/commit_workflow'',
               if readable then [r] else []))
      | _ \<Rightarrow> ([], []))"

definition operation_problems ::
    "(json \<Rightarrow> json \<Rightarrow> bool) \<Rightarrow> capability \<Rightarrow> operations \<Rightarrow> step list \<Rightarrow> json option \<Rightarrow> policy option \<Rightarrow>
     (string, action_semantics) dict \<Rightarrow> (bool \<times> bool) \<Rightarrow> operation \<Rightarrow> action_diagnostic list \<times> string list" where
  "operation_problems valid c ops preview preview_schema pol semantics_by_operation guard oper =
     (let s = http_safety (http_contract oper);
          semantics = dget semantics_by_operation (op_id oper);
          (status_diags, status_ids, status_valid) = status_problems valid c ops preview_schema pol semantics;
          local = uses_local_guard (snd guard) s;
          (serialized_diags, serialized_ids) = serialized_problems ops preview oper semantics status_valid
      in (status_diags
          @ diag_if (effect_of s \<in> {Create, Execute} \<and> \<not> is_source_key (idempotency_of s))
              ActSourceIdempotencyRequired ''/commit_workflow''
          @ diag_if (fst guard \<and> \<not> local) ActLocalSafetyInvalid ''/action/local_development_state_guard''
          @ diag_if (effect_of s \<in> {Update, Delete, Transition} \<and>
                  (case concurrency_of s of ConcNotSupported \<Rightarrow> True | _ \<Rightarrow> False) \<and> \<not> local)
              ActConcurrencyRequired ''/commit_workflow''
          @ serialized_diags,
          status_ids @ serialized_ids))"

section \<open>The proof\<close>

definition needs_approval :: "safety \<Rightarrow> bool" where
  "needs_approval s \<longleftrightarrow>
     risk_of s \<in> {High, Critical} \<or> reversibility_of s \<noteq> Reversible \<or> effect_of s \<in> {Delete, Execute} \<or>
     \<not> is_source_key (idempotency_of s)"

definition derived_approval_required :: "operation list \<Rightarrow> bool" where
  "derived_approval_required opers = list_ex (\<lambda>oper. needs_approval (http_safety (http_contract oper))) opers"

definition highest_risk :: "risk list \<Rightarrow> risk option" where
  "highest_risk rs = (if rs = [] then None else Some (last (sort_key risk_rank (remdups rs))))"

definition prove_action ::
    "(json \<Rightarrow> json \<Rightarrow> bool) \<Rightarrow> capability \<Rightarrow> action_contract \<Rightarrow> step list \<Rightarrow> step list \<Rightarrow> operations \<Rightarrow>
     (string, action_semantics) dict \<Rightarrow> policy option \<Rightarrow> proof_report" where
  "prove_action valid c a preview commit ops semantics_by_operation pol =
     (let all_sites = call_sites ''/preview_workflow'' preview @ call_sites ''/commit_workflow'' commit;
          mutation_ids = sorted_set (map site_operation (mutation_sites ops commit));
          mutations = map (\<lambda>oid. the (dget ops oid)) mutation_ids;
          preview_schema = preview_result_schema preview ops;
          guard = local_development_state_guard a;
          guard_diags = (case guard of None \<Rightarrow> [] | Some g \<Rightarrow> guard_problems c ops preview preview_schema pol g);
          guard_ids = (case guard of None \<Rightarrow> [] | Some g \<Rightarrow> guard_strategies ops preview g);
          checked = map (operation_problems valid c ops preview preview_schema pol semantics_by_operation
                      (guard \<noteq> None, guard \<noteq> None \<and> guard_diags = [])) mutations;
          derived = derived_approval_required mutations;
          diagnostics =
            site_problems ops preview commit @ count_problems ops a commit @ reference_problems ops preview commit
            @ guard_diags @ concat (map fst checked)
            @ diag_if (derived \<and> \<not> approval_mode_required a) ActApprovalRequired ''/action/approval/mode'';
          strategies = sorted_set (guard_ids @ concat (map snd checked));
          used = filter (\<lambda>oid. dget ops oid \<noteq> None) (map site_operation all_sites @ strategies)
      in \<lparr>report_diagnostics = diagnostics,
          report_proof =
            \<lparr>proof_ok = (diagnostics = []),
             mutation_operation_ids = mutation_ids,
             proof_effects = sort_key effect_name (remdups (map (\<lambda>oper. effect_of (http_safety (http_contract oper))) mutations)),
             maximum_risk = highest_risk (map (\<lambda>oper. risk_of (http_safety (http_contract oper))) mutations),
             proof_scopes = sorted_set (concat (map (\<lambda>oid. http_scopes (http_contract (the (dget ops oid)))) used)),
             approval_required = (approval_mode_required a \<or> derived)\<rparr>,
          report_strategies = strategies\<rparr>)"

definition prove_action_capability ::
    "(json \<Rightarrow> json \<Rightarrow> bool) \<Rightarrow> capability \<Rightarrow> operations \<Rightarrow> (string, action_semantics) dict \<Rightarrow> policy option \<Rightarrow>
     py_error + proof_report" where
  "prove_action_capability valid c ops semantics_by_operation pol =
     (case cap_body c of
        ReadBody _ \<Rightarrow> Inl TypeError
      | ActionBody a preview commit \<Rightarrow>
          (case local_development_state_guard a of
             Some g \<Rightarrow>
               if guard_raises c g then Inl TypeError
               else Inr (prove_action valid c a preview commit ops semantics_by_operation pol)
           | None \<Rightarrow> Inr (prove_action valid c a preview commit ops semantics_by_operation pol)))"

end
