(* ===== verification/ActionRuntime.thy ===== *)
theory ActionRuntime
  imports ActionProver Executor
begin

text \<open>
  \<^verbatim>\<open>acc_runtime/actions/runtime_executor.py\<close>: compiled Actions over a provider. Preview and commit
  are workflows of the executor whose calls pass through \<open>_ActionOperationCaller\<close>: \<open>through_caller\<close>
  replaces each call of a process by the provider request the caller makes of it, or by its refusal.
  What the caller object collects (response headers, mutations made) is read off the events of a run.
  Parameters: the JSON Schema library, pydantic's dumps, digests, and whether a resource lock is there.
\<close>

section \<open>Failures\<close>

datatype action_failure = RuntimeFailure exec_error | OtherFailure

definition misconfigured :: string where "misconfigured = ''ACC_RUNTIME_ACTION_CONFIGURATION_INVALID''"
definition state_conflict :: string where "state_conflict = ''ACC_RUNTIME_ACTION_STATE_CONFLICT''"

definition action_error :: "string \<Rightarrow> action_failure + 'a" where
  "action_error code = Inl (RuntimeFailure (RuntimeRaised code))"

fun policy_code :: "policy_error \<Rightarrow> string" where
  "policy_code (PolicyScopeDenied _) = ''ACC_RUNTIME_POLICY_SCOPE_DENIED''"
| "policy_code PolicyTenantDenied = ''ACC_RUNTIME_POLICY_TENANT_DENIED''"
| "policy_code PolicyOutputInvalid = ''ACC_RUNTIME_POLICY_OUTPUT_INVALID''"

section \<open>Values at pointers\<close>

text \<open>\<open>_resolve_json_pointer\<close>; \<open>None\<close> is \<open>(False, None)\<close>.\<close>

fun resolve_tokens :: "json \<Rightarrow> string list \<Rightarrow> json option" where
  "resolve_tokens v [] = Some v"
| "resolve_tokens v (t # ts) =
     (case v of
        JObj fs \<Rightarrow> (case dget fs t of None \<Rightarrow> None | Some w \<Rightarrow> resolve_tokens w ts)
      | JArr xs \<Rightarrow> if index_token t \<and> index_value t < length xs then resolve_tokens (xs ! index_value t) ts else None
      | _ \<Rightarrow> None)"

definition resolve_json_pointer :: "json \<Rightarrow> string \<Rightarrow> json option" where
  "resolve_json_pointer v pointer = resolve_tokens v (map unescape_token (tl (split_on (CHR ''/'') pointer)))"

definition json_pointer :: "json \<Rightarrow> string \<Rightarrow> json" where
  "json_pointer v pointer = (case resolve_json_pointer v pointer of None \<Rightarrow> JNull | Some w \<Rightarrow> w)"

text \<open>
  \<open>canonical_json_bytes\<close>, which raises a \<open>ValueError\<close> for a number that is not finite, and the set of the
  encodings of declared values.
\<close>

definition encoded :: "crypto \<Rightarrow> json \<Rightarrow> action_failure + string" where
  "encoded cr v = (case json_text (float_repr cr) v of None \<Rightarrow> Inl OtherFailure | Some t \<Rightarrow> Inr t)"

definition encodings :: "crypto \<Rightarrow> json list \<Rightarrow> action_failure + string list" where
  "encodings cr vs = traverse (encoded cr) vs"

section \<open>The runtime and the loaded Action\<close>

record compiled_capability =
  cc_definition :: capability
  cc_proof :: "(string, json) dict"
  cc_semantics :: "(string, json) dict"
  cc_dependencies :: "string list"

record action_ir =
  ai_version :: string
  ai_project :: string
  ai_allowlist :: "string list"
  ai_operations :: "(string, operation) dict"
  ai_capabilities :: "(string, compiled_capability) dict"
  ai_policies :: "(string, policy) dict"

record action_runtime =
  rt_ir :: action_ir
  rt_valid :: "json \<Rightarrow> json \<Rightarrow> bool"
  rt_check :: "(string, json) dict \<Rightarrow> bool"
  rt_crypto :: crypto
  rt_dump_operation :: "operation \<Rightarrow> (string, json) dict"
  rt_dump_capability :: "capability \<Rightarrow> (string, json) dict"
  rt_dump_semantics :: "action_semantics \<Rightarrow> json"
  rt_parse_semantics :: "json \<Rightarrow> action_semantics option"
  rt_sandbox :: sandbox_mode
  rt_lock :: "bool option"

record loaded_action =
  l_capability :: capability
  l_contract :: action_contract
  l_preview :: "step list"
  l_commit :: "step list"
  l_operations :: operations
  l_proof :: action_proof
  l_policy :: policy
  l_project :: string
  l_allowlist :: "string list"
  l_semantics :: "(string, action_semantics) dict"

text \<open>\<open>expected_proof\<close> of \<open>_load_compiled\<close>\<close>

definition expected_proof :: "action_proof \<Rightarrow> (string, json) dict" where
  "expected_proof p =
     [(''approval_required'', JBool (approval_required p)),
      (''effects'', JArr (map (\<lambda>e. JStr (effect_name e)) (proof_effects p))),
      (''maximum_risk'', case maximum_risk p of None \<Rightarrow> JNull | Some r \<Rightarrow> JStr (risk_name r)),
      (''mutation_operation_ids'', JArr (map JStr (mutation_operation_ids p))),
      (''required_scopes'', JArr (map JStr (proof_scopes p)))]"

definition load_semantics ::
    "action_runtime \<Rightarrow> operations \<Rightarrow> (string, json) dict \<Rightarrow> (string, action_semantics) dict option" where
  "load_semantics rt ops attestations =
     (let load = (\<lambda>(oid, v).
        (case dget ops oid of
           None \<Rightarrow> None
         | Some oper \<Rightarrow>
             if op_kind oper \<noteq> ActionKind \<or>
                \<not> verify_attestation (rt_crypto rt) (rt_dump_semantics rt) (rt_parse_semantics rt) oper v
             then None
             else (case jget v ''summary'' of
                     Some summary \<Rightarrow> map_option (Pair oid) (rt_parse_semantics rt summary)
                   | None \<Rightarrow> None)))
      in if list_all (\<lambda>e. load e \<noteq> None) attestations then Some (map (\<lambda>e. the (load e)) attestations) else None)"

text \<open>
  \<open>_load_compiled\<close> on documents that pydantic has read; every failure is the configuration error. The
  proof must be the one this compiler derives from the loaded documents.
\<close>

definition load_compiled :: "action_runtime \<Rightarrow> string \<Rightarrow> action_failure + loaded_action" where
  "load_compiled rt cid =
     (let ir = rt_ir rt; ops = ai_operations ir; failed = action_error misconfigured in
      if ai_version ir \<noteq> ''2'' \<or> list_ex (\<lambda>p. op_id (snd p) \<noteq> fst p) ops then failed
      else
        (case dget (ai_capabilities ir) cid of
           None \<Rightarrow> failed
         | Some compiled \<Rightarrow>
             (case (cap_body (cc_definition compiled), load_semantics rt ops (cc_semantics compiled),
                    dget (ai_policies ir) (cap_policy (cc_definition compiled))) of
                (ActionBody a preview commit, Some semantics, Some pol) \<Rightarrow>
                  if cap_id (cc_definition compiled) \<noteq> cid then failed
                  else
                    (case prove_action_capability (rt_valid rt) (cc_definition compiled) ops semantics (Some pol) of
                       Inl _ \<Rightarrow> failed
                     | Inr checked \<Rightarrow>
                         (let p = report_proof checked; expected = expected_proof p in
                          if \<not> proof_ok p then failed
                          else if local_development_state_guard a \<noteq> None \<and>
                                  (rt_sandbox rt \<noteq> SandboxLocalDevelopment \<or> rt_lock rt \<noteq> Some True) then failed
                          else if set (dkeys (cc_proof compiled)) \<noteq> insert ''operation_semantics'' (set (dkeys expected)) then failed
                          else if list_ex (\<lambda>(k, v). \<not> py_equal (get_or_null (cc_proof compiled) k) v) expected then failed
                          else if set (dkeys (cc_semantics compiled)) \<noteq> set (mutation_operation_ids p) then failed
                          else if \<not> set (report_strategies checked) \<subseteq> set (cc_dependencies compiled) then failed
                          else Inr \<lparr>l_capability = cc_definition compiled, l_contract = a, l_preview = preview,
                                    l_commit = commit, l_operations = ops, l_proof = p, l_policy = pol,
                                    l_project = ai_project ir, l_allowlist = ai_allowlist ir, l_semantics = semantics\<rparr>))
              | _ \<Rightarrow> failed)))"

text \<open>\<open>_load\<close>: the capability the caller holds is the stored one, and its target system the project's.\<close>

definition load :: "action_runtime \<Rightarrow> capability \<Rightarrow> principal_context \<Rightarrow> action_failure + loaded_action" where
  "load rt c ctx =
     rbind (load_compiled rt (cap_id c)) (\<lambda>l.
     if l_capability l \<noteq> c \<or> target_system_id ctx \<noteq> l_project l then action_error misconfigured else Inr l)"

definition verified_definition :: "action_runtime \<Rightarrow> string \<Rightarrow> action_failure + compiled_definition" where
  "verified_definition rt cid =
     rbind (load_compiled rt cid) (\<lambda>l. Inr \<lparr>def_capability = l_capability l, def_proof = l_proof l\<rparr>)"

section \<open>The operation caller\<close>

datatype phase = PreviewPhase | CommitPhase | StatusPhase

record action_caller =
  ac_loaded :: loaded_action
  ac_context :: principal_context
  ac_phase :: phase
  ac_key :: "string option"
  ac_token :: json

datatype caller_error = CallerMisconfigured | CallerInputInvalid | CallerDenied policy_error | CallerAssertion

datatype provider_request =
    ReadRequest (request_operation: operation) (request_arguments: json)
  | ActionRequest (request_operation: operation) (request_arguments: json) (request_key: string) (request_token: json)

fun error_reply :: "caller_error \<Rightarrow> call_reply" where
  "error_reply CallerMisconfigured = RaisedRuntime misconfigured"
| "error_reply CallerInputInvalid = RaisedRuntime ''ACC_RUNTIME_OPERATION_INPUT_INVALID''"
| "error_reply (CallerDenied e) = RaisedRuntime (policy_code e)"
| "error_reply CallerAssertion = RaisedException"

definition tenant_id :: "principal_context \<Rightarrow> json" where
  "tenant_id ctx =
     (case resolve_context_binding ctx ''tenant_context.tenant_id'' [''tenant_context.tenant_id''] of
        Inl _ \<Rightarrow> JNull | Inr v \<Rightarrow> v)"

fun inject_at :: "(string, json) dict \<Rightarrow> string list \<Rightarrow> json \<Rightarrow> caller_error + (string, json) dict" where
  "inject_at d [] v = Inl CallerMisconfigured"
| "inject_at d [t] v = Inr (if dget d t = None then dset d t v else d)"
| "inject_at d (t # u # ts) v =
     (case get_or_null d t of
        JNull \<Rightarrow> rbind (inject_at [] (u # ts) v) (\<lambda>c. Inr (dset d t (JObj c)))
      | JObj c \<Rightarrow> rbind (inject_at c (u # ts) v) (\<lambda>c'. Inr (dset d t (JObj c')))
      | _ \<Rightarrow> Inl CallerMisconfigured)"

definition inject_context_value :: "(string, json) dict \<Rightarrow> string \<Rightarrow> json \<Rightarrow> caller_error + (string, json) dict" where
  "inject_context_value d name v =
     (if v = JNull then Inr d
      else inject_at d (filter (\<lambda>t. t \<noteq> [])
             (split_on (CHR ''.'') (if prefix ''$.'' name then drop 2 name else name))) v)"

fun bind_context ::
    "action_caller \<Rightarrow> (string \<times> string) list \<Rightarrow> (string, json) dict \<Rightarrow> caller_error + (string, json) dict" where
  "bind_context ac [] d = Inr d"
| "bind_context ac ((target, reference) # bs) d =
     (if target \<in> set (dkeys d) then Inl CallerMisconfigured
      else
        (case resolve_context_binding (ac_context ac) reference (l_allowlist (ac_loaded ac)) of
           Inl _ \<Rightarrow> Inl CallerMisconfigured
         | Inr v \<Rightarrow> bind_context ac bs (dset d target v)))"

definition enriched :: "action_caller \<Rightarrow> operation \<Rightarrow> (string, json) dict \<Rightarrow> caller_error + (string, json) dict" where
  "enriched ac oper args =
     (let pol = l_policy (ac_loaded ac) in
      rbind (bind_context ac (context_bindings oper) args) (\<lambda>d.
      if tenant_mode pol \<noteq> TenantRequired then Inr d
      else (case tenant_field pol of
              None \<Rightarrow> Inl CallerAssertion
            | Some name \<Rightarrow> inject_context_value d name (tenant_id (ac_context ac)))))"

text \<open>What \<open>call\<close> does before it awaits the provider.\<close>

definition caller_request ::
    "action_runtime \<Rightarrow> action_caller \<Rightarrow> (string, json) dict \<Rightarrow> (string, json) dict \<Rightarrow> caller_error + provider_request" where
  "caller_request rt ac op args =
     (case get_or_null op ''id'' of
        JStr oid \<Rightarrow>
          (case dget (l_operations (ac_loaded ac)) oid of
             None \<Rightarrow> Inl CallerMisconfigured
           | Some oper \<Rightarrow>
               if \<not> py_equal (JObj (rt_dump_operation rt oper)) (JObj op) then Inl CallerMisconfigured
               else
                 rbind (enriched ac oper args) (\<lambda>d.
                 if \<not> rt_valid rt (op_input_schema oper) (JObj d) then Inl CallerInputInvalid
                 else
                   (case authorize
                           (l_policy (ac_loaded ac)\<lparr>required_scopes :=
                              sorted_set (required_scopes (l_policy (ac_loaded ac)) @ http_scopes (http_contract oper))\<rparr>)
                           (effective_scopes (ac_context ac)) (JObj d) (Some (tenant_id (ac_context ac))) of
                      Inl e \<Rightarrow> Inl (CallerDenied e)
                    | Inr _ \<Rightarrow>
                        if op_kind oper = ReadKind then Inr (ReadRequest oper (JObj d))
                        else
                          (case (ac_phase ac, ac_key ac) of
                             (CommitPhase, Some key) \<Rightarrow>
                               (case concurrency_of (http_safety (http_contract oper)) of
                                  ConcRequired _ _ \<Rightarrow>
                                    if ac_token ac = JNull then Inl CallerMisconfigured
                                    else Inr (ActionRequest oper (JObj d) key (ac_token ac))
                                | _ \<Rightarrow> Inr (ActionRequest oper (JObj d) key (ac_token ac)))
                           | _ \<Rightarrow> Inl CallerMisconfigured))))
      | _ \<Rightarrow> Inl CallerMisconfigured)"

text \<open>
  A process whose calls pass through the caller. The reply of an event is what the executor sees: for a
  read the value of a well-formed result, for a mutation the provider's value.
\<close>

fun caller_call :: "action_runtime \<Rightarrow> action_caller \<Rightarrow> (string, json) dict \<Rightarrow> json \<Rightarrow> caller_error + provider_request" where
  "caller_call rt ac op (JObj args) = caller_request rt ac op args"
| "caller_call rt ac op _ = Inl CallerMisconfigured"

primrec through_caller :: "action_runtime \<Rightarrow> action_caller \<Rightarrow> proc \<Rightarrow> proc" where
  "through_caller rt ac (Finished r) = Finished r"
| "through_caller rt ac (Calls oid op args k) =
     (case caller_call rt ac op args of
        Inl e \<Rightarrow> through_caller rt ac (k (error_reply e))
      | Inr request \<Rightarrow>
          Calls (op_id (request_operation request)) op (request_arguments request) (\<lambda>r. through_caller rt ac (k r)))"
| "through_caller rt ac (Gather ps k) = Gather (map (through_caller rt ac) ps) (\<lambda>vs. through_caller rt ac (k vs))"

datatype read_outcome = ReadReturned json "(string \<times> string) list" | ReadMistyped | ReadRaised call_reply

definition header_ok :: "string \<times> string \<Rightarrow> bool" where
  "header_ok h \<longleftrightarrow> fst h \<noteq> [] \<and> \<not> list_ex is_control (fst h @ snd h)"

fun read_reply :: "read_outcome \<Rightarrow> call_reply" where
  "read_reply (ReadReturned v headers) = (if list_all header_ok headers then Replied v else RaisedRuntime misconfigured)"
| "read_reply ReadMistyped = RaisedRuntime misconfigured"
| "read_reply (ReadRaised r) = r"

end
