(* ===== verification/ActionExecution.thy ===== *)
theory ActionExecution
  imports ActionRuntime ExecuteWorkflow
begin

text \<open>
  Preview, commit and outcome recovery of \<^verbatim>\<open>acc_runtime/actions/runtime_executor.py\<close>. The parts
  that compute are functions; \<open>preview_run\<close>, \<open>commit_run\<close> and \<open>recover_run\<close> compose them with the
  runs of the workflows, under every interleaving, and record the calls the provider answered. Outcome
  \<open>None\<close> is a run that has not ended yet.
\<close>

section \<open>Workflows as the executor gets them\<close>

text \<open>\<open>_rewrite_prepared\<close>\<close>

definition rewrite_string :: "string \<Rightarrow> string" where
  "rewrite_string s = (if prefix ''$.prepared.'' s then ''$.input.prepared.'' @ drop 11 s else s)"

fun rewrite_prepared :: "json \<Rightarrow> json" where
  "rewrite_prepared (JStr s) = JStr (rewrite_string s)"
| "rewrite_prepared (JArr xs) = JArr (map rewrite_prepared xs)"
| "rewrite_prepared (JObj fs) = JObj (map (\<lambda>p. (fst p, rewrite_prepared (snd p))) fs)"
| "rewrite_prepared v = v"

definition closed_object :: "(string, json) dict \<Rightarrow> json" where
  "closed_object ps =
     JObj [(''type'', JStr ''object''), (''additionalProperties'', JBool False), (''properties'', JObj ps),
           (''required'', JArr (map (\<lambda>p. JStr (fst p)) ps))]"

definition prepared_schema :: "capability \<Rightarrow> json" where
  "prepared_schema c =
     closed_object [(''prepared'', closed_object [(''input'', cap_input_schema c), (''preview'', JObj [])])]"

text \<open>\<open>_workflow_ir\<close>\<close>

definition dumped_operations :: "action_runtime \<Rightarrow> loaded_action \<Rightarrow> (string, json) dict" where
  "dumped_operations rt l = map (\<lambda>(oid, oper). (oid, JObj (rt_dump_operation rt oper))) (l_operations l)"

definition workflow_ir :: "action_runtime \<Rightarrow> loaded_action \<Rightarrow> step list \<Rightarrow> bool \<Rightarrow> (string, json) dict" where
  "workflow_ir rt l ws prepared =
     (let c = l_capability l;
          raw = map step_json ws;
          workflow = (if prepared then map rewrite_prepared raw else raw);
          schema = (if prepared then prepared_schema c else cap_input_schema c);
          definition_json = dset (dset (rt_dump_capability rt c) ''input_schema'' schema) ''workflow'' (JArr workflow)
      in [(''operations'', JObj (dumped_operations rt l)),
          (''capabilities'', JObj [(cap_id c, JObj [(''definition'', JObj definition_json)])])])"

definition action_env :: "action_runtime \<Rightarrow> exec_env" where
  "action_env rt =
     \<lparr>check_schema = rt_check rt, instance_ok = (\<lambda>s v. rt_valid rt (JObj s) v),
      validates_output = False, validates_operation_input = False\<rparr>"

definition preview_caller :: "loaded_action \<Rightarrow> principal_context \<Rightarrow> action_caller" where
  "preview_caller l ctx = \<lparr>ac_loaded = l, ac_context = ctx, ac_phase = PreviewPhase, ac_key = None, ac_token = JNull\<rparr>"

definition preview_process :: "action_runtime \<Rightarrow> loaded_action \<Rightarrow> principal_context \<Rightarrow> (string, json) dict \<Rightarrow> proc" where
  "preview_process rt l ctx args =
     through_caller rt (preview_caller l ctx)
       (execute (action_env rt) (workflow_ir rt l (l_preview l) False) (cap_id (l_capability l)) (JObj args))"

section \<open>The preview\<close>

definition mutations :: "loaded_action \<Rightarrow> operation list" where
  "mutations l = map (\<lambda>oid. the (dget (l_operations l) oid)) (mutation_operation_ids (l_proof l))"

definition safety_of :: "operation \<Rightarrow> safety" where
  "safety_of oper = http_safety (http_contract oper)"

fun requires_token :: "concurrency \<Rightarrow> bool" where
  "requires_token (ConcRequired _ _) = True"
| "requires_token _ = False"

text \<open>\<open>_requires_optimistic_token\<close>\<close>

definition requires_optimistic_token :: "loaded_action \<Rightarrow> bool" where
  "requires_optimistic_token l = list_ex (\<lambda>oper. requires_token (concurrency_of (safety_of oper))) (mutations l)"

text \<open>The loop of \<open>_validate_server_serialized_preview\<close>: \<open>Some True\<close> is a terminal state, \<open>None\<close> no state.\<close>

definition classify_state :: "crypto \<Rightarrow> json \<Rightarrow> operation \<Rightarrow> action_failure + bool option" where
  "classify_state cr preview oper =
     (case concurrency_of (safety_of oper) of
        ConcServerSerialized _ p allowed \<Rightarrow>
          rbind (encodings cr allowed) (\<lambda>allowed_texts.
          (case (idempotency_of (safety_of oper), resolve_json_pointer preview p) of
             (IdemState _ terminal, Some state) \<Rightarrow>
               rbind (encoded cr state) (\<lambda>t.
               rbind (encodings cr terminal) (\<lambda>terminal_texts.
               if t \<in> set terminal_texts then Inr (Some True)
               else if t \<in> set allowed_texts then Inr (Some False)
               else action_error state_conflict))
           | _ \<Rightarrow> action_error state_conflict))
      | _ \<Rightarrow> Inr None)"

definition validate_server_serialized_preview :: "crypto \<Rightarrow> loaded_action \<Rightarrow> json \<Rightarrow> action_failure + bool" where
  "validate_server_serialized_preview cr l preview =
     rbind (traverse (classify_state cr preview) (mutations l)) (\<lambda>found.
     (case [b. Some b \<leftarrow> found] of
        [] \<Rightarrow> Inr False
      | b # bs \<Rightarrow>
          if list_ex (\<lambda>b'. b' \<noteq> b) bs \<or> (b \<and> None \<in> set found) then action_error state_conflict
          else Inr b))"

text \<open>\<open>str.casefold\<close> on U+0000 to U+00FF\<close>

definition casefold :: "string \<Rightarrow> string" where
  "casefold s = concat (map (\<lambda>c. let n = of_char c :: nat in
     if n = 223 then ''ss''
     else if is_ascii_upper c \<or> 192 \<le> n \<and> n \<le> 222 \<and> n \<noteq> 215 then [char_of (n + 32)] else [c]) s)"

definition token_sources :: "loaded_action \<Rightarrow> token_source list" where
  "token_sources l =
     remdups (concat (map (\<lambda>oper. case concurrency_of (safety_of oper) of ConcRequired t _ \<Rightarrow> [t] | _ \<Rightarrow> []) (mutations l)))"

text \<open>\<open>_capture_concurrency_token\<close>\<close>

definition capture_token ::
    "loaded_action \<Rightarrow> json \<Rightarrow> (string \<times> string) list list \<Rightarrow> action_failure + json" where
  "capture_token l preview headers =
     (case token_sources l of
        [] \<Rightarrow> Inr JNull
      | [BodyToken p] \<Rightarrow> Inr (json_pointer preview p)
      | [ResponseHeaderToken name] \<Rightarrow>
          (case remdups (map snd (filter (\<lambda>h. casefold (fst h) = casefold name) (concat headers))) of
             [] \<Rightarrow> Inr JNull
           | [v] \<Rightarrow> Inr (JStr v)
           | _ \<Rightarrow> action_error misconfigured)
      | _ \<Rightarrow> action_error misconfigured)"

text \<open>\<open>_validate_local_development_preview\<close>\<close>

definition validate_local_preview :: "crypto \<Rightarrow> loaded_action \<Rightarrow> json \<Rightarrow> action_failure + unit" where
  "validate_local_preview cr l preview =
     (case local_development_state_guard (l_contract l) of
        None \<Rightarrow> Inr ()
      | Some g \<Rightarrow>
          rbind (encodings cr (guard_allowed g @ guard_terminal g)) (\<lambda>permitted.
          (case resolve_json_pointer preview (state_pointer g) of
             None \<Rightarrow> action_error state_conflict
           | Some state \<Rightarrow>
               rbind (encoded cr state) (\<lambda>t. if t \<in> set permitted then Inr () else action_error state_conflict))))"

definition disclosed :: "action_runtime \<Rightarrow> loaded_action \<Rightarrow> json \<Rightarrow> action_failure + json" where
  "disclosed rt l v =
     (case filter_output (rt_crypto rt) (l_policy l) v of
        Inl e \<Rightarrow> action_error (policy_code e)
      | Inr w \<Rightarrow> Inr w)"

text \<open>What \<open>preview\<close> does with the value of the workflow and the headers of its reads.\<close>

definition finish_preview ::
    "action_runtime \<Rightarrow> loaded_action \<Rightarrow> json \<Rightarrow> (string \<times> string) list list \<Rightarrow> action_failure + preview_execution" where
  "finish_preview rt l raw headers =
     rbind (validate_server_serialized_preview (rt_crypto rt) l raw) (\<lambda>terminal.
     rbind (capture_token l raw headers) (\<lambda>token.
     rbind (disclosed rt l raw) (\<lambda>public.
     rbind (validate_local_preview (rt_crypto rt) l public) (\<lambda>_.
     Inr \<lparr>pe_value = public, pe_token = token, pe_token_required = Some (requires_optimistic_token l),
          pe_terminal = terminal, pe_result = (if terminal then public else JNull)\<rparr>))))"

text \<open>The headers of the answered reads of a run, one list for each.\<close>

fun answered_call :: "call_event \<Rightarrow> bool" where
  "answered_call (oid, op, args, r) = (case r of Replied _ \<Rightarrow> True | _ \<Rightarrow> False)"

definition headers_fit :: "call_event list \<Rightarrow> (string \<times> string) list list \<Rightarrow> bool" where
  "headers_fit evs headers \<longleftrightarrow>
     length headers = length (filter answered_call evs) \<and> (\<forall>hs \<in> set headers. list_all header_ok hs)"

inductive preview_run ::
    "action_runtime \<Rightarrow> loaded_action \<Rightarrow> principal_context \<Rightarrow> (string, json) dict \<Rightarrow> call_event list \<Rightarrow>
     (action_failure + preview_execution) option \<Rightarrow> bool" for rt l ctx args where
  unfinished: "exec_run (preview_process rt l ctx args, []) evs n c \<Longrightarrow> preview_run rt l ctx args evs None"
| failed: "exec_run (preview_process rt l ctx args, []) evs n (Finished (Inl e), os) \<Longrightarrow>
    preview_run rt l ctx args evs (Some (Inl (RuntimeFailure e)))"
| previewed: "exec_run (preview_process rt l ctx args, []) evs n (Finished (Inr raw), os) \<Longrightarrow> headers_fit evs headers \<Longrightarrow>
    preview_run rt l ctx args evs (Some (finish_preview rt l raw headers))"

section \<open>Status queries\<close>

fun reply_value :: "call_reply \<Rightarrow> action_failure + json" where
  "reply_value (Replied v) = Inr v"
| "reply_value (RaisedRuntime code) = action_error code"
| "reply_value RaisedException = Inl OtherFailure"
| "reply_value CallCancelled = Inl (RuntimeFailure ExecCancelled)"

definition caller_failure :: "caller_error \<Rightarrow> action_failure" where
  "caller_failure e =
     (case error_reply e of RaisedRuntime code \<Rightarrow> RuntimeFailure (RuntimeRaised code) | _ \<Rightarrow> OtherFailure)"

fun string_sequence :: "json \<Rightarrow> action_failure + string list" where
  "string_sequence (JArr xs) =
     traverse (\<lambda>x. case x of JStr s \<Rightarrow> Inr s | _ \<Rightarrow> Inl OtherFailure) xs"
| "string_sequence _ = Inl OtherFailure"

text \<open>The loop of \<open>_resolve_status_query\<close> over the bindings.\<close>

definition binding_value :: "json \<Rightarrow> json \<Rightarrow> string \<Rightarrow> request_binding \<Rightarrow> action_failure + json" where
  "binding_value input preview key b =
     (if binding_source b = FromRuntimeKey then Inr (JStr key)
      else
        (case source_pointer b of
           None \<Rightarrow> action_error misconfigured
         | Some p \<Rightarrow>
             (case resolve_json_pointer (if binding_source b = FromCapabilityInput then input else preview) p of
                None \<Rightarrow> action_error misconfigured
              | Some v \<Rightarrow> Inr v)))"

fun status_arguments ::
    "operation \<Rightarrow> json \<Rightarrow> json \<Rightarrow> string \<Rightarrow> request_binding list \<Rightarrow> (string, json) dict \<Rightarrow>
     action_failure + (string, json) dict" where
  "status_arguments oper input preview key [] d = Inr d"
| "status_arguments oper input preview key (b # bs) d =
     (if binding_target b \<in> set (dkeys (context_bindings oper)) then action_error misconfigured
      else
        rbind (binding_value input preview key b) (\<lambda>v.
        status_arguments oper input preview key bs (dset d (binding_target b) v)))"

definition status_caller :: "loaded_action \<Rightarrow> principal_context \<Rightarrow> action_caller" where
  "status_caller l ctx = \<lparr>ac_loaded = l, ac_context = ctx, ac_phase = StatusPhase, ac_key = None, ac_token = JNull\<rparr>"

definition required_arguments :: "operation \<Rightarrow> action_failure + string list" where
  "required_arguments oper =
     rbind (string_sequence (case jget (op_input_schema oper) ''required'' of None \<Rightarrow> JArr [] | Some v \<Rightarrow> v)) (\<lambda>names.
     Inr (filter (\<lambda>t. t \<notin> set (dkeys (context_bindings oper))) names))"

definition status_request ::
    "action_runtime \<Rightarrow> loaded_action \<Rightarrow> principal_context \<Rightarrow> status_query \<Rightarrow> json \<Rightarrow> json \<Rightarrow> string \<Rightarrow>
     action_failure + provider_request" where
  "status_request rt l ctx q input preview key =
     (case dget (l_operations l) (query_operation q) of
        None \<Rightarrow> action_error misconfigured
      | Some oper \<Rightarrow>
          if op_kind oper \<noteq> ReadKind \<or> \<not> is_JObj input then action_error misconfigured
          else
            rbind (required_arguments oper) (\<lambda>names.
            rbind (status_arguments oper input preview key (query_bindings q names) []) (\<lambda>d.
            (case caller_request rt (status_caller l ctx) (rt_dump_operation rt oper) d of
               Inl e \<Rightarrow> Inl (caller_failure e)
             | Inr request \<Rightarrow> Inr request))))"

definition in_values :: "action_runtime \<Rightarrow> json \<Rightarrow> string \<Rightarrow> json list \<Rightarrow> action_failure + bool" where
  "in_values rt v p vs =
     rbind (encodings (rt_crypto rt) vs) (\<lambda>texts.
     (case resolve_json_pointer v p of
        None \<Rightarrow> Inr False
      | Some state \<Rightarrow> rbind (encoded (rt_crypto rt) state) (\<lambda>t. Inr (t \<in> set texts))))"

definition status_result ::
    "action_runtime \<Rightarrow> loaded_action \<Rightarrow> action_semantics \<Rightarrow> status_query \<Rightarrow> call_reply \<Rightarrow> action_failure + json" where
  "status_result rt l sem q r =
     rbind (reply_value r) (\<lambda>v.
     (case idempotency_of (sem_safety sem) of
        IdemSourceKey _ \<Rightarrow>
          (case (success_pointer q, success_values q) of
             (Some p, Some vs) \<Rightarrow>
               rbind (in_values rt v p vs) (\<lambda>ok. if ok then disclosed rt l v else action_error state_conflict)
           | _ \<Rightarrow> action_error misconfigured)
      | IdemState p vs \<Rightarrow>
          rbind (in_values rt v p vs) (\<lambda>ok. if ok then disclosed rt l v else action_error state_conflict)
      | _ \<Rightarrow> action_error misconfigured))"

inductive status_run ::
    "action_runtime \<Rightarrow> loaded_action \<Rightarrow> principal_context \<Rightarrow> action_semantics \<Rightarrow> status_query \<Rightarrow> json \<Rightarrow> json \<Rightarrow> string \<Rightarrow>
     call_event list \<Rightarrow> (action_failure + json) option \<Rightarrow> bool" for rt l ctx sem q input preview key where
  waiting: "status_run rt l ctx sem q input preview key [] None"
| refused: "status_request rt l ctx q input preview key = Inl f \<Longrightarrow>
    status_run rt l ctx sem q input preview key [] (Some (Inl f))"
| answered: "status_request rt l ctx q input preview key = Inr request \<Longrightarrow>
    status_run rt l ctx sem q input preview key
      [(op_id (request_operation request), rt_dump_operation rt (request_operation request), request_arguments request, r)]
      (Some (status_result rt l sem q r))"

section \<open>The commit\<close>

text \<open>\<open>_is_terminal_result\<close> and \<open>_validate_action_output\<close>\<close>

fun all_terminal :: "action_runtime \<Rightarrow> json \<Rightarrow> operation list \<Rightarrow> action_failure + bool" where
  "all_terminal rt v [] = Inr True"
| "all_terminal rt v (oper # opers) =
     (case idempotency_of (safety_of oper) of
        IdemState p vs \<Rightarrow>
          rbind (in_values rt v p vs) (\<lambda>ok. if ok then all_terminal rt v opers else Inr False)
      | _ \<Rightarrow> rbind (all_terminal rt v opers) (\<lambda>_. Inr False))"

definition is_terminal_result :: "action_runtime \<Rightarrow> loaded_action \<Rightarrow> json \<Rightarrow> action_failure + bool" where
  "is_terminal_result rt l v = all_terminal rt v (mutations l)"

definition validate_action_output :: "action_runtime \<Rightarrow> loaded_action \<Rightarrow> json \<Rightarrow> action_failure + json" where
  "validate_action_output rt l v =
     (if rt_valid rt (cap_output_schema (l_capability l)) v then Inr v
      else Inl (RuntimeFailure (ExecutionError ExecOutputInvalid)))"

definition terminal_result :: "action_runtime \<Rightarrow> loaded_action \<Rightarrow> json \<Rightarrow> action_failure + json" where
  "terminal_result rt l v =
     rbind (is_terminal_result rt l v) (\<lambda>ok.
     if ok \<and> rt_valid rt (cap_output_schema (l_capability l)) v then Inr v else action_error misconfigured)"

definition publish :: "action_runtime \<Rightarrow> loaded_action \<Rightarrow> json \<Rightarrow> action_failure + json" where
  "publish rt l raw = rbind (disclosed rt l raw) (validate_action_output rt l)"

definition commit_caller :: "loaded_action \<Rightarrow> principal_context \<Rightarrow> commit_execution \<Rightarrow> action_caller" where
  "commit_caller l ctx ex =
     \<lparr>ac_loaded = l, ac_context = ctx, ac_phase = CommitPhase, ac_key = Some (ex_key ex), ac_token = ex_token ex\<rparr>"

definition sealed_input :: "commit_execution \<Rightarrow> json" where
  "sealed_input ex = JObj [(''prepared'', JObj [(''input'', ex_input ex), (''preview'', ex_preview ex)])]"

definition mutation_process :: "action_runtime \<Rightarrow> loaded_action \<Rightarrow> principal_context \<Rightarrow> commit_execution \<Rightarrow> proc" where
  "mutation_process rt l ctx ex =
     through_caller rt (commit_caller l ctx ex)
       (execute (action_env rt) (workflow_ir rt l (l_commit l) True) (cap_id (l_capability l)) (sealed_input ex))"

text \<open>\<open>caller.action_operation_ids\<close> after a successful run, and the query its operation asks for.\<close>

definition mutated_ids :: "loaded_action \<Rightarrow> call_event list \<Rightarrow> string list" where
  "mutated_ids l evs = filter (is_action (l_operations l)) (map fst evs)"

definition outcome_query :: "loaded_action \<Rightarrow> string \<Rightarrow> (action_semantics \<times> status_query) option" where
  "outcome_query l oid =
     (case dget (l_semantics l) oid of
        None \<Rightarrow> None
      | Some sem \<Rightarrow> (case sem_outcome sem of Some (OutcomeStatusQuery q) \<Rightarrow> Some (sem, q) | _ \<Rightarrow> None))"

text \<open>\<open>_commit_loaded\<close>\<close>

inductive mutation_run ::
    "action_runtime \<Rightarrow> loaded_action \<Rightarrow> principal_context \<Rightarrow> commit_execution \<Rightarrow> call_event list \<Rightarrow>
     (action_failure + json) option \<Rightarrow> bool" for rt l ctx ex where
  terminal: "ex_terminal ex \<Longrightarrow> mutation_run rt l ctx ex [] (Some (terminal_result rt l (ex_result ex)))"
| undisclosed: "\<not> ex_terminal ex \<Longrightarrow> disclosed rt l (ex_preview ex) = Inl f \<Longrightarrow> mutation_run rt l ctx ex [] (Some (Inl f))"
| unfinished: "\<not> ex_terminal ex \<Longrightarrow> disclosed rt l (ex_preview ex) = Inr preview \<Longrightarrow>
    exec_run (mutation_process rt l ctx ex, []) evs n c \<Longrightarrow> mutation_run rt l ctx ex evs None"
| failed: "\<not> ex_terminal ex \<Longrightarrow> disclosed rt l (ex_preview ex) = Inr preview \<Longrightarrow>
    exec_run (mutation_process rt l ctx ex, []) evs n (Finished (Inl e), os) \<Longrightarrow>
    mutation_run rt l ctx ex evs (Some (Inl (RuntimeFailure e)))"
| miscounted: "\<not> ex_terminal ex \<Longrightarrow> disclosed rt l (ex_preview ex) = Inr preview \<Longrightarrow>
    exec_run (mutation_process rt l ctx ex, []) evs n (Finished (Inr raw), os) \<Longrightarrow>
    length (mutated_ids l evs) \<noteq> 1 \<Longrightarrow> mutation_run rt l ctx ex evs (Some (action_error misconfigured))"
| settled: "\<not> ex_terminal ex \<Longrightarrow> disclosed rt l (ex_preview ex) = Inr preview \<Longrightarrow>
    exec_run (mutation_process rt l ctx ex, []) evs n (Finished (Inr raw), os) \<Longrightarrow>
    mutated_ids l evs = [oid] \<Longrightarrow> outcome_query l oid = None \<Longrightarrow> mutation_run rt l ctx ex evs (Some (publish rt l raw))"
| queried: "\<not> ex_terminal ex \<Longrightarrow> disclosed rt l (ex_preview ex) = Inr preview \<Longrightarrow>
    exec_run (mutation_process rt l ctx ex, []) evs n (Finished (Inr raw), os) \<Longrightarrow>
    mutated_ids l evs = [oid] \<Longrightarrow> outcome_query l oid = Some (sem, q) \<Longrightarrow>
    status_run rt l ctx sem q (ex_input ex) preview (ex_key ex) evs' outcome \<Longrightarrow>
    mutation_run rt l ctx ex (evs @ evs') (map_option (\<lambda>r. rbind r (publish rt l)) outcome)"

section \<open>The local development guard\<close>

fun lock_key_ok :: "json option \<Rightarrow> bool" where
  "lock_key_ok (Some (JStr _)) = True"
| "lock_key_ok (Some (JInt _)) = True"
| "lock_key_ok _ = False"

definition guard_configured :: "action_runtime \<Rightarrow> local_guard \<Rightarrow> json \<Rightarrow> bool" where
  "guard_configured rt g input \<longleftrightarrow>
     is_JObj input \<and> rt_lock rt \<noteq> None \<and> lock_key_ok (resolve_json_pointer input (resource_key_pointer g))"

text \<open>\<open>_validate_local_development_recheck\<close>: true when the fresh state is terminal.\<close>

definition local_recheck :: "crypto \<Rightarrow> local_guard \<Rightarrow> json \<Rightarrow> json \<Rightarrow> action_failure + bool" where
  "local_recheck cr g prepared fresh =
     (case (resolve_json_pointer prepared (state_pointer g), resolve_json_pointer fresh (state_pointer g)) of
        (Some before, Some now) \<Rightarrow>
          rbind (encodings cr (guard_allowed g)) (\<lambda>allowed.
          rbind (encodings cr (guard_terminal g)) (\<lambda>terminal.
          rbind (encoded cr before) (\<lambda>prepared_text.
          rbind (encoded cr now) (\<lambda>fresh_text.
          if prepared_text \<notin> set allowed \<union> set terminal then action_error state_conflict
          else if fresh_text \<in> set terminal then Inr True
          else if fresh_text \<notin> set allowed \<or> fresh_text \<noteq> prepared_text then action_error state_conflict
          else Inr False))))
      | _ \<Rightarrow> action_error state_conflict)"

definition refreshed :: "commit_execution \<Rightarrow> json \<Rightarrow> commit_execution" where
  "refreshed ex preview = ex\<lparr>ex_preview := preview, ex_terminal := False, ex_result := JNull\<rparr>"

definition lock_exhausted :: string where
  "lock_exhausted = ''ACC_RUNTIME_ACTION_RESOURCE_LOCK_CAPACITY''"

text \<open>\<open>commit\<close>\<close>

inductive commit_run ::
    "action_runtime \<Rightarrow> capability \<Rightarrow> commit_execution \<Rightarrow> principal_context \<Rightarrow> call_event list \<Rightarrow>
     (action_failure + json) option \<Rightarrow> bool" for rt c ex ctx where
  unloaded: "load rt c ctx = Inl f \<Longrightarrow> commit_run rt c ex ctx [] (Some (Inl f))"
| unguarded: "load rt c ctx = Inr l \<Longrightarrow> local_development_state_guard (l_contract l) = None \<Longrightarrow>
    mutation_run rt l ctx ex evs outcome \<Longrightarrow> commit_run rt c ex ctx evs outcome"
| unconfigured: "load rt c ctx = Inr l \<Longrightarrow> local_development_state_guard (l_contract l) = Some g \<Longrightarrow>
    \<not> guard_configured rt g (ex_input ex) \<Longrightarrow> commit_run rt c ex ctx [] (Some (action_error misconfigured))"
| unlocked: "load rt c ctx = Inr l \<Longrightarrow> local_development_state_guard (l_contract l) = Some g \<Longrightarrow>
    guard_configured rt g (ex_input ex) \<Longrightarrow> commit_run rt c ex ctx [] (Some (action_error lock_exhausted))"
| reading: "load rt c ctx = Inr l \<Longrightarrow> local_development_state_guard (l_contract l) = Some g \<Longrightarrow>
    guard_configured rt g (ex_input ex) \<Longrightarrow> ex_input ex = JObj args \<Longrightarrow> preview_run rt l ctx args evs None \<Longrightarrow>
    commit_run rt c ex ctx evs None"
| unread: "load rt c ctx = Inr l \<Longrightarrow> local_development_state_guard (l_contract l) = Some g \<Longrightarrow>
    guard_configured rt g (ex_input ex) \<Longrightarrow> ex_input ex = JObj args \<Longrightarrow> preview_run rt l ctx args evs (Some (Inl f)) \<Longrightarrow>
    commit_run rt c ex ctx evs (Some (Inl f))"
| conflict: "load rt c ctx = Inr l \<Longrightarrow> local_development_state_guard (l_contract l) = Some g \<Longrightarrow>
    guard_configured rt g (ex_input ex) \<Longrightarrow> ex_input ex = JObj args \<Longrightarrow>
    preview_run rt l ctx args evs (Some (Inr fresh)) \<Longrightarrow>
    local_recheck (rt_crypto rt) g (ex_preview ex) (pe_value fresh) = Inl f \<Longrightarrow> commit_run rt c ex ctx evs (Some (Inl f))"
| terminal: "load rt c ctx = Inr l \<Longrightarrow> local_development_state_guard (l_contract l) = Some g \<Longrightarrow>
    guard_configured rt g (ex_input ex) \<Longrightarrow> ex_input ex = JObj args \<Longrightarrow>
    preview_run rt l ctx args evs (Some (Inr fresh)) \<Longrightarrow>
    local_recheck (rt_crypto rt) g (ex_preview ex) (pe_value fresh) = Inr True \<Longrightarrow>
    commit_run rt c ex ctx evs (Some (validate_action_output rt l (pe_value fresh)))"
| allowed: "load rt c ctx = Inr l \<Longrightarrow> local_development_state_guard (l_contract l) = Some g \<Longrightarrow>
    guard_configured rt g (ex_input ex) \<Longrightarrow> ex_input ex = JObj args \<Longrightarrow>
    preview_run rt l ctx args evs (Some (Inr fresh)) \<Longrightarrow>
    local_recheck (rt_crypto rt) g (ex_preview ex) (pe_value fresh) = Inr False \<Longrightarrow>
    mutation_run rt l ctx (refreshed ex (pe_value fresh)) evs' outcome \<Longrightarrow> commit_run rt c ex ctx (evs @ evs') outcome"

section \<open>Recovery\<close>

text \<open>\<open>resolve_unknown_outcome\<close>\<close>

definition recovery_query :: "loaded_action \<Rightarrow> string \<Rightarrow> (action_semantics \<times> status_query) option" where
  "recovery_query l oid =
     (case outcome_query l oid of
        Some (sem, q) \<Rightarrow> if is_source_key (idempotency_of (sem_safety sem)) then Some (sem, q) else None
      | None \<Rightarrow> None)"

definition recovered :: "action_runtime \<Rightarrow> loaded_action \<Rightarrow> action_failure + json \<Rightarrow> action_failure + recovery" where
  "recovered rt l r =
     (case r of
        Inl f \<Rightarrow> if f = RuntimeFailure (RuntimeRaised state_conflict) then Inr Unresolved else Inl f
      | Inr v \<Rightarrow> rbind (validate_action_output rt l v) (\<lambda>w. Inr (Resolved w)))"

inductive recover_run ::
    "action_runtime \<Rightarrow> capability \<Rightarrow> commit_execution \<Rightarrow> principal_context \<Rightarrow> call_event list \<Rightarrow>
     (action_failure + recovery) option \<Rightarrow> bool" for rt c ex ctx where
  unloaded: "load rt c ctx = Inl f \<Longrightarrow> recover_run rt c ex ctx [] (Some (Inl f))"
| miscounted: "load rt c ctx = Inr l \<Longrightarrow> length (mutation_operation_ids (l_proof l)) \<noteq> 1 \<Longrightarrow>
    recover_run rt c ex ctx [] (Some (action_error misconfigured))"
| unresolved: "load rt c ctx = Inr l \<Longrightarrow> mutation_operation_ids (l_proof l) = [oid] \<Longrightarrow> recovery_query l oid = None \<Longrightarrow>
    recover_run rt c ex ctx [] (Some (Inr Unresolved))"
| undisclosed: "load rt c ctx = Inr l \<Longrightarrow> mutation_operation_ids (l_proof l) = [oid] \<Longrightarrow>
    recovery_query l oid = Some (sem, q) \<Longrightarrow> disclosed rt l (ex_preview ex) = Inl f \<Longrightarrow>
    recover_run rt c ex ctx [] (Some (Inl f))"
| queried: "load rt c ctx = Inr l \<Longrightarrow> mutation_operation_ids (l_proof l) = [oid] \<Longrightarrow>
    recovery_query l oid = Some (sem, q) \<Longrightarrow> disclosed rt l (ex_preview ex) = Inr preview \<Longrightarrow>
    status_run rt l ctx sem q (ex_input ex) preview (ex_key ex) evs outcome \<Longrightarrow>
    recover_run rt c ex ctx evs (map_option (recovered rt l) outcome)"

end
