(* ===== verification/CallCounts.thy ===== *)
theory CallCounts
  imports ExecuteWorkflow
begin

text \<open>
  Counting selected calls of a process: \<open>counts M lo hi p\<close> says that every success of \<open>p\<close> has made
  at least \<open>lo\<close> of the calls that \<open>M\<close> selects, and that no run, with the tasks it leaves behind, makes
  more than \<open>hi\<close>.
\<close>

section \<open>The predicate\<close>

definition cost :: "(string \<Rightarrow> bool) \<Rightarrow> string \<Rightarrow> nat" where
  "cost M oid = (if M oid then 1 else 0)"

inductive counts :: "(string \<Rightarrow> bool) \<Rightarrow> nat \<Rightarrow> nat \<Rightarrow> proc \<Rightarrow> bool" for M where
  failed: "counts M lo hi (Finished (Inl e))"
| returned: "counts M 0 hi (Finished (Inr v))"
| calls: "(\<And>r. counts M lo' hi' (k r)) \<Longrightarrow> lo \<le> cost M oid + lo' \<Longrightarrow> cost M oid + hi' \<le> hi \<Longrightarrow>
    counts M lo hi (Calls oid op args k)"
| gather: "list_all2 (\<lambda>b p. counts M (fst b) (snd b) p) bs ps \<Longrightarrow> (\<And>vs. counts M lo' hi' (k vs)) \<Longrightarrow>
    lo \<le> sum_list (map fst bs) + lo' \<Longrightarrow> sum_list (map snd bs) + hi' \<le> hi \<Longrightarrow> counts M lo hi (Gather ps k)"
monos list_all2_mono

inductive_cases counts_ReturnedE: "counts M lo hi (Finished (Inr v))"
inductive_cases counts_CallsE: "counts M lo hi (Calls oid op args k)"
inductive_cases counts_GatherE: "counts M lo hi (Gather ps k)"

lemma counts_mono: "counts M lo hi p \<Longrightarrow> lo' \<le> lo \<Longrightarrow> hi \<le> hi' \<Longrightarrow> counts M lo' hi' p"
proof (induction arbitrary: lo' hi' rule: counts.induct)
  case (failed lo hi e)
  show ?case by (rule counts.failed)
next
  case (returned hi v)
  then show ?case by (simp add: counts.returned)
next
  case (calls l h k lo oid hi op args)
  show ?case by (rule counts.calls [where lo' = l and hi' = h]) (use calls in auto)
next
  case (gather bs ps l h k lo hi)
  have "list_all2 (\<lambda>b p. counts M (fst b) (snd b) p) bs ps" using gather(1) by (rule list_all2_mono) simp
  then show ?case by (rule counts.gather [where lo' = l and hi' = h]) (use gather in auto)
qed

lemma counts_pbind:
  "counts M lo hi p \<Longrightarrow> (\<And>v. counts M lo2 hi2 (f v)) \<Longrightarrow> counts M (lo + lo2) (hi + hi2) (pbind p f)"
proof (induction rule: counts.induct)
  case (failed lo hi e)
  show ?case by (simp add: counts.failed)
next
  case (returned hi v)
  from returned(1) [of v] have "counts M (0 + lo2) (hi + hi2) (f v)" by (rule counts_mono) auto
  then show ?case by simp
next
  case (calls l h k lo oid hi op args)
  have "counts M (lo + lo2) (hi + hi2) (Calls oid op args (\<lambda>r. pbind (k r) f))"
    by (rule counts.calls [where lo' = "l + lo2" and hi' = "h + hi2"]) (use calls in auto)
  then show ?case by simp
next
  case (gather bs ps l h k lo hi)
  have "list_all2 (\<lambda>b p. counts M (fst b) (snd b) p) bs ps" using gather(1) by (rule list_all2_mono) simp
  then have "counts M (lo + lo2) (hi + hi2) (Gather ps (\<lambda>vs. pbind (k vs) f))"
    by (rule counts.gather [where lo' = "l + lo2" and hi' = "h + hi2"]) (use gather in auto)
  then show ?case by simp
qed

lemma counts_plift: "(\<And>x. r = Inr x \<Longrightarrow> counts M lo hi (f x)) \<Longrightarrow> counts M lo hi (plift r f)"
  by (cases r) (auto intro: counts.failed)

section \<open>Runs\<close>

definition selected :: "(string \<Rightarrow> bool) \<Rightarrow> call_event list \<Rightarrow> nat" where
  "selected M evs = length (filter (\<lambda>e. M (fst e)) evs)"

lemma selected_simps [simp]:
  "selected M [] = 0" "selected M (e # evs) = cost M (fst e) + selected M evs"
  "selected M (evs @ evs') = selected M evs + selected M evs'"
  by (simp_all add: selected_def cost_def)

text \<open>The bounds of a process and of the tasks nobody awaits.\<close>

definition at_most :: "(string \<Rightarrow> bool) \<Rightarrow> nat \<Rightarrow> proc list \<Rightarrow> bool" where
  "at_most M n ps \<longleftrightarrow> (\<exists>bs. list_all2 (\<lambda>b p. counts M (fst b) (snd b) p) bs ps \<and> sum_list (map snd bs) \<le> n)"

lemma at_most_Nil [simp]: "at_most M n []"
  by (simp add: at_most_def)

lemma at_most_append: "at_most M m ps \<Longrightarrow> at_most M n qs \<Longrightarrow> at_most M (m + n) (ps @ qs)"
proof -
  assume "at_most M m ps" "at_most M n qs"
  then obtain bs cs where "list_all2 (\<lambda>b p. counts M (fst b) (snd b) p) bs ps" "sum_list (map snd bs) \<le> m"
    "list_all2 (\<lambda>b p. counts M (fst b) (snd b) p) cs qs" "sum_list (map snd cs) \<le> n"
    unfolding at_most_def by blast
  then show ?thesis unfolding at_most_def by (intro exI [of _ "bs @ cs"]) (auto intro: list_all2_appendI)
qed

lemma at_most_mono: "at_most M m ps \<Longrightarrow> m \<le> n \<Longrightarrow> at_most M n ps"
  unfolding at_most_def by (meson le_trans)

lemma list_all2_filter_bounds:
  "list_all2 P bs ps \<Longrightarrow> \<exists>cs. list_all2 P cs (filter Q ps) \<and> sum_list (map snd cs) \<le> (sum_list (map snd bs) :: nat)"
proof (induction bs ps rule: list_all2_induct)
  case (Cons b bs p ps)
  then obtain cs where cs: "list_all2 P cs (filter Q ps)" "sum_list (map snd cs) \<le> sum_list (map snd bs)" by blast
  show ?case
  proof (cases "Q p")
    case True
    with Cons cs show ?thesis by (intro exI [of _ "b # cs"]) auto
  next
    case False
    with cs show ?thesis by (intro exI [of _ cs]) auto
  qed
qed simp

lemma sum_list_update_map:
  "i < length bs \<Longrightarrow> sum_list (map g (bs[i := b])) + g (bs ! i) = sum_list (map g bs) + (g b :: nat)"
  using sum_list_update_nat [of i "map g bs" "\<lambda>x. x" "g b"] by (simp add: map_update)

lemma counts_step:
  "pstep p evs q new \<Longrightarrow> counts M lo hi p \<Longrightarrow>
     \<exists>lo' hi' n. counts M lo' hi' q \<and> at_most M n new \<and> lo \<le> selected M evs + lo' \<and> selected M evs + hi' + n \<le> hi"
proof (induction arbitrary: lo hi rule: pstep.induct)
  case (answer oid op args k r)
  then obtain lo' hi' where "counts M lo' hi' (k r)" "lo \<le> cost M oid + lo'" "cost M oid + hi' \<le> hi"
    by (rule counts_CallsE) blast
  then show ?case by (intro exI [of _ lo'] exI [of _ hi'] exI [of _ 0]) simp
next
  case (inside i ps evs q new k)
  from inside.prems obtain bs l h where b: "list_all2 (\<lambda>b p. counts M (fst b) (snd b) p) bs ps"
    "\<And>vs. counts M l h (k vs)" "lo \<le> sum_list (map fst bs) + l" "sum_list (map snd bs) + h \<le> hi"
    by (rule counts_GatherE) blast
  have i: "i < length bs" using b(1) inside.hyps(1) by (simp add: list_all2_conv_all_nth)
  have "counts M (fst (bs ! i)) (snd (bs ! i)) (ps ! i)" using list_all2_nthD [OF b(1) i] .
  from inside.IH [OF this] obtain l' h' n where s: "counts M l' h' q" "at_most M n new"
    "fst (bs ! i) \<le> selected M evs + l'" "selected M evs + h' + n \<le> snd (bs ! i)" by blast
  have "list_all2 (\<lambda>b p. counts M (fst b) (snd b) p) (bs[i := (l', h')]) (ps[i := q])"
    using b(1) s(1) by (intro list_all2_update_cong) simp_all
  then have "counts M (sum_list (map fst (bs[i := (l', h')])) + l) (sum_list (map snd (bs[i := (l', h')])) + h)
      (Gather (ps[i := q]) k)" using b(2) by (rule counts.gather) simp_all
  moreover have "sum_list (map fst (bs[i := (l', h')])) + fst (bs ! i) = sum_list (map fst bs) + l'"
    "sum_list (map snd (bs[i := (l', h')])) + snd (bs ! i) = sum_list (map snd bs) + h'"
    using sum_list_update_map [OF i, of fst "(l', h')"] sum_list_update_map [OF i, of snd "(l', h')"] by simp_all
  moreover from this have "lo \<le> selected M evs + (sum_list (map fst (bs[i := (l', h')])) + l)"
    "selected M evs + (sum_list (map snd (bs[i := (l', h')])) + h) + n \<le> hi"
    using s(3,4) b(3,4) by linarith+
  ultimately show ?case using s(2) by blast
next
  case (join vs k)
  then obtain bs l h where b: "list_all2 (\<lambda>b p. counts M (fst b) (snd b) p) bs (map (\<lambda>v. Finished (Inr v)) vs)"
    "\<And>vs. counts M l h (k vs)" "lo \<le> sum_list (map fst bs) + l" "sum_list (map snd bs) + h \<le> hi"
    by (rule counts_GatherE) blast
  have "fst b = 0" if "b \<in> set bs" for b
  proof -
    from that b(1) obtain v where "counts M (fst b) (snd b) (Finished (Inr v))"
      by (auto simp: list_all2_conv_all_nth in_set_conv_nth)
    then show ?thesis by (rule counts_ReturnedE) simp_all
  qed
  then have "sum_list (map fst bs) = 0" by simp
  with b(2-4) show ?case by (intro exI [of _ l] exI [of _ h] exI [of _ 0]) auto
next
  case (abort e ps k)
  from abort(2) obtain bs l h where b: "list_all2 (\<lambda>b p. counts M (fst b) (snd b) p) bs ps" "sum_list (map snd bs) + h \<le> hi"
    by (rule counts_GatherE) blast
  from list_all2_filter_bounds [OF b(1), of "\<lambda>p. \<not> is_finished p"] b(2)
  have "at_most M hi (filter (\<lambda>p. \<not> is_finished p) ps)" unfolding at_most_def by (meson add_leD1 le_trans)
  then show ?case by (intro exI [of _ lo] exI [of _ 0] exI [of _ hi]) (simp add: counts.failed)
qed

lemma at_most_update:
  assumes "at_most M n ps" "i < length ps"
  obtains lo hi m where "counts M lo hi (ps ! i)" "hi + m \<le> n"
    "\<And>q lo' hi'. counts M lo' hi' q \<Longrightarrow> at_most M (hi' + m) (ps[i := q])"
proof -
  from assms(1) obtain bs where b: "list_all2 (\<lambda>b p. counts M (fst b) (snd b) p) bs ps" "sum_list (map snd bs) \<le> n"
    unfolding at_most_def by blast
  have i: "i < length bs" using b(1) assms(2) by (simp add: list_all2_conv_all_nth)
  let ?m = "sum_list (map snd bs) - snd (bs ! i)"
  have le: "snd (bs ! i) \<le> sum_list (map snd bs)" using i member_le_sum_list [of "snd (bs ! i)" "map snd bs"] by simp
  show ?thesis
  proof (rule that)
    show "counts M (fst (bs ! i)) (snd (bs ! i)) (ps ! i)" using list_all2_nthD [OF b(1) i] .
    show "snd (bs ! i) + ?m \<le> n" using le b(2) by simp
    fix q lo' hi' assume q: "counts M lo' hi' q"
    have "list_all2 (\<lambda>b p. counts M (fst b) (snd b) p) (bs[i := (lo', hi')]) (ps[i := q])"
      using b(1) q by (intro list_all2_update_cong) simp_all
    moreover have "sum_list (map snd (bs[i := (lo', hi')])) \<le> hi' + ?m"
      using sum_list_update_map [OF i, of snd "(lo', hi')"] le by simp
    ultimately show "at_most M (hi' + ?m) (ps[i := q])" unfolding at_most_def by blast
  qed
qed

lemma counts_run:
  "exec_run c evs n c' \<Longrightarrow> counts M lo hi (fst c) \<Longrightarrow> at_most M m (snd c) \<Longrightarrow>
     \<exists>lo' hi' m'. counts M lo' hi' (fst c') \<and> at_most M m' (snd c') \<and> lo \<le> selected M evs + lo' \<and>
       selected M evs + hi' + m' \<le> hi + m"
proof (induction arbitrary: lo hi m rule: exec_run.induct)
  case (stop c)
  then show ?case by (intro exI [of _ lo] exI [of _ hi] exI [of _ m]) simp
next
  case (move c evs c' evs' n c'')
  have "\<exists>lo1 hi1 m1. counts M lo1 hi1 (fst c') \<and> at_most M m1 (snd c') \<and> lo \<le> selected M evs + lo1 \<and>
       selected M evs + hi1 + m1 \<le> hi + m"
    using move.hyps(1)
  proof cases
    case (awaited p q new os)
    with counts_step [OF awaited(3)] move.prems obtain lo1 hi1 k where
      s: "counts M lo1 hi1 q" "at_most M k new" "lo \<le> selected M evs + lo1" "selected M evs + hi1 + k \<le> hi" by fastforce
    have "at_most M (m + k) (os @ new)" using at_most_append s(2) move.prems(2) awaited(1) by simp
    with s awaited(2) show ?thesis by (intro exI [of _ lo1] exI [of _ hi1] exI [of _ "m + k"]) simp
  next
    case (orphan i os q new p)
    have "at_most M m os" using move.prems(2) orphan(1) by simp
    then obtain l h r where o1: "counts M l h (os ! i)" "h + r \<le> m"
      "\<And>q lo' hi'. counts M lo' hi' q \<Longrightarrow> at_most M (hi' + r) (os[i := q])"
      using orphan(3) by (rule at_most_update) blast
    from counts_step [OF orphan(4) o1(1)] obtain l' h' k where
      s: "counts M l' h' q" "at_most M k new" "selected M evs + h' + k \<le> h" by blast
    have "at_most M (h' + r + k) (os[i := q] @ new)" by (rule at_most_append [OF o1(3) [OF s(1)] s(2)])
    with move.prems(1) orphan(1,2) s(3) o1(2) show ?thesis
      by (intro exI [of _ lo] exI [of _ hi] exI [of _ "h' + r + k"]) simp
  qed
  then obtain lo1 hi1 m1 where c': "counts M lo1 hi1 (fst c')" "at_most M m1 (snd c')" "lo \<le> selected M evs + lo1"
    "selected M evs + hi1 + m1 \<le> hi + m" by blast
  from move.IH [OF c'(1,2)] obtain lo2 hi2 m2 where "counts M lo2 hi2 (fst c'')" "at_most M m2 (snd c'')"
    "lo1 \<le> selected M evs' + lo2" "selected M evs' + hi2 + m2 \<le> hi1 + m1" by blast
  with c'(3,4) show ?case by (intro exI [of _ lo2] exI [of _ hi2] exI [of _ m2]) simp
qed

lemma counts_bounds:
  assumes "counts M lo hi p" "exec_run (p, []) evs n c"
  shows "selected M evs \<le> hi" "fst c = Finished (Inr v) \<Longrightarrow> lo \<le> selected M evs"
proof -
  from counts_run [OF assms(2), of M lo hi 0] assms(1) obtain lo' hi' m' where
    c: "counts M lo' hi' (fst c)" "lo \<le> selected M evs + lo'" "selected M evs + hi' + m' \<le> hi" by auto
  then show "selected M evs \<le> hi" by simp
  show "lo \<le> selected M evs" if "fst c = Finished (Inr v)"
  proof -
    have "lo' = 0" using c(1) that by (auto elim: counts_ReturnedE)
    with c(2) show ?thesis by simp
  qed
qed

end
