(* ===== verification/MutationCounts.thy ===== *)
theory MutationCounts
  imports ActionExecution CallCounts
begin

text \<open>
  The counts of \<open>_mutation_path_counts\<close> are sound: a process of the executor behind the operation
  caller makes, for each step, between the least and the greatest of its counts of mutating calls.
\<close>

declare is_action.simps [simp del]

section \<open>Processes behind the caller\<close>

lemma through_pbind:
  "through_caller rt ac (pbind p f) = pbind (through_caller rt ac p) (\<lambda>v. through_caller rt ac (f v))"
  by (induction p) (auto split: sum.splits)

lemma through_plift: "through_caller rt ac (plift r f) = plift r (\<lambda>x. through_caller rt ac (f x))"
  by (cases r) simp_all

lemma through_weighs: "weighs c g n p \<Longrightarrow> weighs c g n (through_caller rt ac p)"
proof (induction rule: weighs.induct)
  case (calls m k n oid op args)
  show ?case
  proof (cases "caller_call rt ac op args")
    case (Inl e)
    have "weighs c g n (through_caller rt ac (k (error_reply e)))" by (rule weighs_mono [OF calls.IH]) (use calls.hyps(2) in simp)
    with Inl show ?thesis by simp
  next
    case (Inr q)
    have "weighs c g n (Calls (op_id (request_operation q)) op (request_arguments q) (\<lambda>r. through_caller rt ac (k r)))"
      by (rule weighs.calls [OF calls.IH calls.hyps(2)])
    with Inr show ?thesis by simp
  qed
next
  case (gather ms ps m k n)
  have "list_all2 (weighs c g) ms (map (through_caller rt ac) ps)"
    unfolding list.rel_map by (rule list_all2_mono [OF gather(1)]) simp
  then show ?case unfolding through_caller.simps by (rule weighs.gather) (use gather in auto)
qed (simp add: weighs.finished)

text \<open>What pydantic's dump of an Operation keeps, and what loading checks.\<close>

definition dump_keeps_id :: "action_runtime \<Rightarrow> bool" where
  "dump_keeps_id rt \<longleftrightarrow> (\<forall>oper. dget (rt_dump_operation rt oper) ''id'' = Some (JStr (op_id oper)))"

definition keyed :: "operations \<Rightarrow> bool" where
  "keyed ops \<longleftrightarrow> (\<forall>(oid, oper) \<in> set ops. op_id oper = oid)"

lemma keyed_dget: "keyed ops \<Longrightarrow> dget ops oid = Some oper \<Longrightarrow> op_id oper = oid"
  by (auto simp: keyed_def dest!: dget_in_set)

lemma dget_dumped:
  "dget (dumped_operations rt l) oid = map_option (\<lambda>oper. JObj (rt_dump_operation rt oper)) (dget (l_operations l) oid)"
proof -
  have "dget (map (\<lambda>(oid, oper). (oid, JObj (rt_dump_operation rt oper))) ops) oid =
      map_option (\<lambda>oper. JObj (rt_dump_operation rt oper)) (dget ops oid)" for ops :: operations
    by (induction ops) auto
  then show ?thesis by (simp add: dumped_operations_def)
qed

lemma caller_request_Inr:
  assumes "caller_request rt ac op args = Inr q"
  shows "\<exists>oid. get_or_null op ''id'' = JStr oid \<and> dget (l_operations (ac_loaded ac)) oid = Some (request_operation q) \<and>
    (op_kind (request_operation q) = ActionKind \<longrightarrow> ac_phase ac = CommitPhase)"
  using assms by (cases "op_kind (request_operation q)")
    (auto simp: caller_request_def rbind_Inr_iff split: json.splits option.splits if_splits sum.splits phase.splits concurrency.splits)

text \<open>The request of a call of a loaded operation goes to that operation.\<close>

lemma caller_call_request:
  assumes "caller_call rt ac op args = Inr q" "dget (dumped_operations rt (ac_loaded ac)) oid = Some (JObj op)"
    "dump_keeps_id rt" "keyed (l_operations (ac_loaded ac))"
  shows "op_id (request_operation q) = oid"
    "is_action (l_operations (ac_loaded ac)) oid \<Longrightarrow> ac_phase ac = CommitPhase"
proof -
  from assms(1) obtain d where "caller_request rt ac op d = Inr q" by (cases args) auto
  from caller_request_Inr [OF this] obtain i where i: "get_or_null op ''id'' = JStr i"
    "dget (l_operations (ac_loaded ac)) i = Some (request_operation q)"
    "op_kind (request_operation q) = ActionKind \<longrightarrow> ac_phase ac = CommitPhase" by blast
  from assms(2) obtain oper where "dget (l_operations (ac_loaded ac)) oid = Some oper" "op = rt_dump_operation rt oper"
    by (auto simp: dget_dumped)
  with i(1) assms(3,4) keyed_dget have "i = oid" by (fastforce simp: dump_keeps_id_def get_or_null_def)
  with i(2) keyed_dget [OF assms(4)] show "op_id (request_operation q) = oid" by simp
  show "ac_phase ac = CommitPhase" if "is_action (l_operations (ac_loaded ac)) oid"
    using that i(2,3) \<open>i = oid\<close> by (simp add: is_action.simps)
qed

section \<open>Sets of counts\<close>

lemma sum_counts_facts [simp]:
  "finite A \<Longrightarrow> finite B \<Longrightarrow> finite (sum_counts A B)"
  "sum_counts A B = {} \<longleftrightarrow> A = {} \<or> B = {}"
  by (auto simp: sum_counts_def)

lemma sum_counts_iff: "x \<in> sum_counts A B \<longleftrightarrow> (\<exists>a \<in> A. \<exists>b \<in> B. x = a + b)"
  by (auto simp: sum_counts_def)

lemma sum_counts_Min:
  assumes "finite A" "A \<noteq> {}" "finite B" "B \<noteq> {}"
  shows "Min (sum_counts A B) = Min A + Min B"
proof (rule Min_eqI)
  show "Min A + Min B \<in> sum_counts A B"
    unfolding sum_counts_iff using assms by (intro bexI [of _ "Min A"] bexI [of _ "Min B"]) simp_all
qed (use assms in \<open>auto simp: sum_counts_iff add_mono\<close>)

lemma sum_counts_Max:
  assumes "finite A" "A \<noteq> {}" "finite B" "B \<noteq> {}"
  shows "Max (sum_counts A B) = Max A + Max B"
proof (rule Max_eqI)
  show "Max A + Max B \<in> sum_counts A B"
    unfolding sum_counts_iff using assms by (intro bexI [of _ "Max A"] bexI [of _ "Max B"]) simp_all
qed (use assms in \<open>auto simp: sum_counts_iff add_mono\<close>)

definition step_least :: "operations \<Rightarrow> step \<Rightarrow> nat" where
  "step_least ops s = Min (step_counts ops s)"

definition step_most :: "operations \<Rightarrow> step \<Rightarrow> nat" where
  "step_most ops s = Max (step_counts ops s)"

definition counts_ok :: "nat set \<Rightarrow> bool" where
  "counts_ok A \<longleftrightarrow> finite A \<and> A \<noteq> {}"

lemma counts_ok_sum [simp]: "counts_ok A \<Longrightarrow> counts_ok B \<Longrightarrow> counts_ok (sum_counts A B)"
  by (simp add: counts_ok_def)

lemma counts_ok_single [simp]: "counts_ok {n}"
  by (simp add: counts_ok_def)

lemma counts_of_list:
  assumes "\<And>s. s \<in> set ss \<Longrightarrow> counts_ok (step_counts ops s)" "counts_ok A"
  shows "counts_ok (path_counts ops A ss)"
    "Min (path_counts ops A ss) = Min A + sum_list (map (step_least ops) ss)"
    "Max (path_counts ops A ss) = Max A + sum_list (map (step_most ops) ss)"
  using assms
  by (induction ss arbitrary: A)
    (simp_all add: counts_ok_def sum_counts_Min sum_counts_Max step_least_def step_most_def)

lemma counts_of_parallel:
  assumes "\<And>s. s \<in> set ss \<Longrightarrow> counts_ok (step_counts ops s)" "counts_ok A"
  shows "counts_ok (parallel_counts ops A ss)"
    "Min (parallel_counts ops A ss) = Min A + sum_list (map (step_least ops) ss)"
    "Max (parallel_counts ops A ss) = Max A + sum_list (map (step_most ops) ss)"
  using assms
  by (induction ss arbitrary: A)
    (simp_all add: counts_ok_def sum_counts_Min sum_counts_Max step_least_def step_most_def)

lemma step_counts_ok: "counts_ok (step_counts ops s)"
proof (induction s)
  case (BranchStep i k ts es)
  then have "counts_ok (path_counts ops {0} ts)" "counts_ok (path_counts ops {0} es)"
    by (auto intro!: counts_of_list(1))
  then show ?case by (simp add: counts_ok_def)
next
  case (ParallelStep i ss)
  then show ?case by (auto intro!: counts_of_parallel(1))
next
  case (ForeachStep i v nm n ss)
  then have "counts_ok (path_counts ops {0} ss)" by (auto intro!: counts_of_list(1))
  then show ?case by (simp add: counts_ok_def Let_def)
qed (simp_all add: counts_ok_def)

lemmas path_counts_bounds = counts_of_list [OF step_counts_ok]
lemmas parallel_counts_bounds = counts_of_parallel [OF step_counts_ok]

lemma step_bounds_branch:
  "step_least ops (BranchStep i k ts es) =
     min (sum_list (map (step_least ops) ts)) (sum_list (map (step_least ops) es))"
  "step_most ops (BranchStep i k ts es) =
     max (sum_list (map (step_most ops) ts)) (sum_list (map (step_most ops) es))"
  using path_counts_bounds [of "{0}" ops ts] path_counts_bounds [of "{0}" ops es]
  by (simp_all add: step_least_def [of ops "BranchStep i k ts es"] step_most_def [of ops "BranchStep i k ts es"]
      counts_ok_def Min_Un Max_Un)

lemma step_bounds_parallel:
  "step_least ops (ParallelStep i ss) = sum_list (map (step_least ops) ss)"
  "step_most ops (ParallelStep i ss) = sum_list (map (step_most ops) ss)"
  using parallel_counts_bounds [of "{0}" ops ss]
  by (simp_all add: step_least_def [of ops "ParallelStep i ss"] step_most_def [of ops "ParallelStep i ss"])

lemma step_bounds_foreach:
  "step_least ops (ForeachStep i v nm n ss) = 0"
  "n * sum_list (map (step_most ops) ss) \<le> step_most ops (ForeachStep i v nm n ss)"
proof -
  let ?I = "path_counts ops {0} ss"
  have I: "finite ?I" "?I \<noteq> {}" "Max ?I = sum_list (map (step_most ops) ss)"
    using path_counts_bounds [of "{0}" ops ss] by (simp_all add: counts_ok_def)
  have c: "step_counts ops (ForeachStep i v nm n ss) = insert 0 (?I \<union> (\<lambda>c. c * n) ` ?I)"
    by (simp add: Let_def)
  show "step_least ops (ForeachStep i v nm n ss) = 0"
    unfolding step_least_def c using I by (intro Min_eqI) auto
  have "Max ?I * n \<in> step_counts ops (ForeachStep i v nm n ss)" unfolding c using I Max_in by blast
  then show "n * sum_list (map (step_most ops) ss) \<le> step_most ops (ForeachStep i v nm n ss)"
    unfolding step_most_def I(3) [symmetric] using step_counts_ok [of ops "ForeachStep i v nm n ss"]
    by (simp only: mult.commute counts_ok_def Max_ge)
qed

section \<open>The counts bound the calls\<close>

definition calls_loaded :: "action_runtime \<Rightarrow> action_caller \<Rightarrow> bool" where
  "calls_loaded rt ac \<longleftrightarrow> dump_keeps_id rt \<and> keyed (l_operations (ac_loaded ac))"

abbreviation (input) loaded_operations :: "action_caller \<Rightarrow> operations" where
  "loaded_operations ac \<equiv> l_operations (ac_loaded ac)"

abbreviation (input) compiled_operations :: "action_runtime \<Rightarrow> action_caller \<Rightarrow> (string, json) dict" where
  "compiled_operations rt ac \<equiv> dumped_operations rt (ac_loaded ac)"

abbreviation (input) running where
  "running rt ac env ctx ss v \<equiv> run_workflow env (compiled_operations rt ac) ctx (map step_json ss) v"

abbreviation (input) mutates :: "action_runtime \<Rightarrow> action_caller \<Rightarrow> nat \<Rightarrow> nat \<Rightarrow> proc \<Rightarrow> bool" where
  "mutates rt ac lo hi p \<equiv> counts (is_action (loaded_operations ac)) lo hi (through_caller rt ac p)"

abbreviation (input) least :: "action_caller \<Rightarrow> step list \<Rightarrow> nat" where
  "least ac ss \<equiv> sum_list (map (step_least (loaded_operations ac)) ss)"

abbreviation (input) most :: "action_caller \<Rightarrow> step list \<Rightarrow> nat" where
  "most ac ss \<equiv> sum_list (map (step_most (loaded_operations ac)) ss)"

lemma counts_finished: "counts M 0 hi (Finished r)"
  by (cases r) (auto intro: counts.intros)

lemma call_counts:
  assumes "calls_loaded rt ac"
  shows
  "mutates rt ac (cost (is_action (loaded_operations ac)) oid) (cost (is_action (loaded_operations ac)) oid)
     (call_step env (compiled_operations rt ac) ctx (JObj [(''arguments'', args), (''operation'', JStr oid)]))"
  unfolding call_step_def through_plift
proof (rule counts_plift)
  fix x assume x: "prepare_call env (compiled_operations rt ac) ctx (JObj [(''arguments'', args), (''operation'', JStr oid)]) = Inr x"
  obtain oid' op safe where x3: "x = (oid', op, safe)" by (cases x)
  from x have "oid' = oid" unfolding x3
    by (auto simp: prepare_call_def rbind_Inr_iff operation_id_of_def get_or_null_def split: if_splits)
  with prepare_call_Inr [OF x [unfolded x3]] have op: "dget (compiled_operations rt ac) oid = Some (JObj op)" by (simp add: call_checked_def)
  show "mutates rt ac (cost (is_action (loaded_operations ac)) oid) (cost (is_action (loaded_operations ac)) oid)
     (case x of (oid, op, safe) \<Rightarrow> Calls oid op safe (\<lambda>r. Finished (call_result env op r)))"
  proof (cases "caller_call rt ac op safe")
    case (Inl e)
    then show ?thesis by (cases e) (simp_all add: x3 call_result_def counts.failed)
  next
    case (Inr q)
    have "op_id (request_operation q) = oid" by (rule caller_call_request(1) [OF Inr op]) (use assms in \<open>simp_all add: calls_loaded_def\<close>)
    moreover have "counts (is_action (loaded_operations ac)) 0 0 (Finished r)" for r by (rule counts_finished)
    ultimately show ?thesis by (auto simp: x3 Inr intro!: counts.calls [where lo' = 0 and hi' = 0])
  qed
qed

lemma workflow_counts:
  "(\<And>s ctx. s \<in> set ss \<Longrightarrow> mutates rt ac (step_least (loaded_operations ac) s) (step_most (loaded_operations ac) s)
      (run_step env (compiled_operations rt ac) ctx (step_fields_json s))) \<Longrightarrow>
   mutates rt ac (least ac ss) (most ac ss) (running rt ac env ctx ss v)"
proof (induction ss arbitrary: ctx v)
  case (Cons s ss)
  have "mutates rt ac (least ac ss) (most ac ss) (running rt ac env ctx' ss w)"
    for ctx' w using Cons by simp
  moreover have "mutates rt ac (step_least (loaded_operations ac) s) (step_most (loaded_operations ac) s)
      (run_step env (compiled_operations rt ac) ctx (step_fields_json s))" using Cons.prems by simp
  ultimately have "mutates rt ac
      (step_least (loaded_operations ac) s + least ac ss)
      (step_most (loaded_operations ac) s + most ac ss)
      (running rt ac env ctx (s # ss) v)"
    unfolding run_workflow_typed through_pbind by (intro counts_pbind)
  then show ?case by (simp del: run_workflow_typed)
qed (simp add: counts.returned)

lemma gathered_counts:
  assumes "list_all2 (\<lambda>b p. counts M (fst b) (snd b) (through_caller rt ac p)) bs ps"
    "lo \<le> sum_list (map fst bs)" "sum_list (map snd bs) \<le> hi"
  shows "counts M lo hi (through_caller rt ac (Gather ps (\<lambda>vs. Finished (Inr (JArr vs)))))"
proof -
  have "list_all2 (\<lambda>b p. counts M (fst b) (snd b) p) bs (map (through_caller rt ac) ps)"
    using assms(1) by (simp add: list.rel_map)
  then have "counts M lo hi (Gather (map (through_caller rt ac) ps) (\<lambda>vs. Finished (Inr (JArr vs))))"
    by (rule counts.gather [where lo' = 0 and hi' = 0]) (use assms(2,3) in \<open>auto intro: counts.returned\<close>)
  then show ?thesis by simp
qed

lemma step_counts_calls:
  assumes loaded: "calls_loaded rt ac"
  shows
  "mutates rt ac (step_least (loaded_operations ac) s) (step_most (loaded_operations ac) s)
     (run_step env (compiled_operations rt ac) ctx (step_fields_json s))"
proof (induction s arbitrary: ctx)
  case (CallStep i oid args)
  have "step_least (loaded_operations ac) (CallStep i oid args) = cost (is_action (loaded_operations ac)) oid" "step_most (loaded_operations ac) (CallStep i oid args) = cost (is_action (loaded_operations ac)) oid"
    by (simp_all add: step_least_def step_most_def cost_def)
  then show ?case unfolding run_step_typed using call_counts [OF loaded] by simp
next
  case (BranchStep i k ts es)
  have "mutates rt ac (step_least (loaded_operations ac) (BranchStep i k ts es)) (step_most (loaded_operations ac) (BranchStep i k ts es))
      (running rt ac env ctx ss JNull)" if "ss = ts \<or> ss = es" for ss
    by (rule counts_mono [OF workflow_counts]) (use that BranchStep in \<open>auto simp: step_bounds_branch\<close>)
  then show ?case unfolding run_step_typed through_plift
    by (intro counts_plift) (auto simp del: run_workflow_typed)
next
  case (ParallelStep i ss)
  let ?bs = "map (\<lambda>s. (step_least (loaded_operations ac) s, step_most (loaded_operations ac) s)) ss"
  have "mutates rt ac (step_least (loaded_operations ac) s) (step_most (loaded_operations ac) s) (running rt ac env ctx [s] JNull)" if "s \<in> set ss" for s
    using workflow_counts [of "[s]" ac rt env ctx JNull] ParallelStep that by (simp del: run_workflow.simps run_workflow_typed)
  then have "list_all2 (\<lambda>b p. mutates rt ac (fst b) (snd b) p) ?bs
      (map (\<lambda>s. run_workflow env (compiled_operations rt ac) ctx (map step_json [s]) JNull) ss)"
    by (simp add: list.rel_map list.rel_refl_strong del: run_workflow.simps run_workflow_typed)
  then have "mutates rt ac (step_least (loaded_operations ac) (ParallelStep i ss)) (step_most (loaded_operations ac) (ParallelStep i ss))
      (Gather (map (\<lambda>s. run_workflow env (compiled_operations rt ac) ctx (map step_json [s]) JNull) ss)
        (\<lambda>vs. Finished (Inr (JArr vs))))"
    by (rule gathered_counts) (simp_all add: step_bounds_parallel comp_def)
  then show ?case unfolding run_step_typed by (simp add: counts.failed del: run_workflow.simps run_workflow_typed)
next
  case (ForeachStep i v nm n ss)
  show ?case unfolding run_step_typed through_plift
  proof (rule counts_plift)
    fix items assume "collection_typed ctx v n = Inr items"
    then have n: "length items \<le> n" by (simp add: collection_typed_Inr)
    let ?b = "(least ac ss, most ac ss)"
    have "mutates rt ac (fst ?b) (snd ?b) (running rt ac env ctx' ss JNull)" for ctx'
      using ForeachStep by (auto intro!: workflow_counts simp del: run_workflow_typed)
    then have "list_all2 (\<lambda>b p. mutates rt ac (fst b) (snd b) p) (replicate (length items) ?b)
        (map (\<lambda>item. run_workflow env (compiled_operations rt ac) (isolated ctx item) (map step_json ss) JNull) items)"
      by (simp add: list_all2_conv_all_nth del: run_workflow.simps run_workflow_typed)
    then show "mutates rt ac (step_least (loaded_operations ac) (ForeachStep i v nm n ss)) (step_most (loaded_operations ac) (ForeachStep i v nm n ss))
        (Gather (map (\<lambda>item. run_workflow env (compiled_operations rt ac) (isolated ctx item) (map step_json ss) JNull) items)
          (\<lambda>vs. Finished (Inr (JArr vs))))"
    proof (rule gathered_counts)
      have "length items * snd ?b \<le> n * snd ?b" using n by simp
      also have "\<dots> \<le> step_most (loaded_operations ac) (ForeachStep i v nm n ss)" using step_bounds_foreach(2) by simp
      finally show "sum_list (map snd (replicate (length items) ?b)) \<le> step_most (loaded_operations ac) (ForeachStep i v nm n ss)"
        by (simp add: sum_list_replicate)
    qed (simp add: step_bounds_foreach(1))
  qed
qed (simp_all only: run_step_pure through_caller.simps step_least_def step_most_def step_counts.simps
    Min_singleton Max_singleton counts_finished)

end
