(* ===== verification/SealedRequests.thy ===== *)
theory SealedRequests
  imports MutationCounts
begin

text \<open>
  Where the arguments of calls come from. The commit workflow is rewritten on its JSON; \<open>rewrite_step\<close>
  is the same on steps. Every call of a run comes from a call site of the static list, with arguments
  resolved in a context whose input is the input of the run; for a mutation site of a proved Action
  that context does not matter, only its input.
\<close>

section \<open>Rewriting on steps\<close>

fun rewrite_operand :: "cond_operand \<Rightarrow> cond_operand" where
  "rewrite_operand (RefOperand s) = RefOperand (rewrite_string s)"
| "rewrite_operand (LitOperand v) = LitOperand (rewrite_prepared v)"

fun rewrite_condition :: "wcond \<Rightarrow> wcond" where
  "rewrite_condition (WEq l r) = WEq (rewrite_operand l) (rewrite_operand r)"
| "rewrite_condition (WIn l r) = WIn (rewrite_operand l) (rewrite_operand r)"
| "rewrite_condition (WAll cs) = WAll (map rewrite_condition cs)"
| "rewrite_condition (WAny cs) = WAny (map rewrite_condition cs)"
| "rewrite_condition (WNot c) = WNot (rewrite_condition c)"

fun rewrite_branch_cond :: "branch_cond \<Rightarrow> branch_cond" where
  "rewrite_branch_cond (CondRef s) = CondRef (rewrite_string s)"
| "rewrite_branch_cond (CondTree c) = CondTree (rewrite_condition c)"

definition rewrite_id :: "string option \<Rightarrow> string option" where
  "rewrite_id i = map_option rewrite_string i"

definition rewrite_fields :: "(string \<times> json) list \<Rightarrow> (string \<times> json) list" where
  "rewrite_fields fs = map (\<lambda>p. (fst p, rewrite_prepared (snd p))) fs"

fun rewrite_step :: "step \<Rightarrow> step" where
  "rewrite_step (CallStep i oid args) = CallStep (rewrite_id i) (rewrite_string oid) (rewrite_fields args)"
| "rewrite_step (PickStep i v fs) = PickStep (rewrite_id i) (rewrite_prepared v) (map rewrite_string fs)"
| "rewrite_step (MapStep i v e n) = MapStep (rewrite_id i) (rewrite_prepared v) (rewrite_string e) n"
| "rewrite_step (FilterStep i v e n) = FilterStep (rewrite_id i) (rewrite_prepared v) (rewrite_string e) n"
| "rewrite_step (AssertStep i e m) = AssertStep (rewrite_id i) (rewrite_string e) (rewrite_string m)"
| "rewrite_step (RedactStep i v fs) = RedactStep (rewrite_id i) (rewrite_prepared v) (map rewrite_string fs)"
| "rewrite_step (BranchStep i c ts es) =
     BranchStep (rewrite_id i) (rewrite_branch_cond c) (map rewrite_step ts) (map rewrite_step es)"
| "rewrite_step (ParallelStep i ss) = ParallelStep (rewrite_id i) (map rewrite_step ss)"
| "rewrite_step (ForeachStep i v nm n ss) =
     ForeachStep (rewrite_id i) (rewrite_prepared v) (rewrite_string nm) n (map rewrite_step ss)"
| "rewrite_step (EmitStep i v) = EmitStep (rewrite_id i) (rewrite_prepared v)"

lemma rewrite_sort_keys [simp]: "rewrite_prepared (sort_keys v) = sort_keys (rewrite_prepared v)"
proof (induction v)
  case (JObj fs)
  have "map (\<lambda>p. (fst p, rewrite_prepared (snd p))) (sorted_items (map (\<lambda>p. (fst p, sort_keys (snd p))) fs)) =
      sorted_items (map (\<lambda>p. (fst p, rewrite_prepared (snd p))) (map (\<lambda>p. (fst p, sort_keys (snd p))) fs))"
    by (subst sorted_items_map) simp_all
  also have "\<dots> = sorted_items (map (\<lambda>p. (fst p, sort_keys (snd p))) (map (\<lambda>p. (fst p, rewrite_prepared (snd p))) fs))"
    using JObj by (auto intro!: arg_cong [where f = sorted_items] simp: snds.simps)
  finally show ?case by (simp add: comp_def)
qed simp_all

lemma rewrite_id_json [simp]: "rewrite_prepared (id_json i) = id_json (rewrite_id i)"
  by (cases i) (simp_all add: id_json_def rewrite_id_def)

lemma rewrite_operand_json [simp]: "rewrite_prepared (operand_json x) = operand_json (rewrite_operand x)"
  by (cases x) (simp_all add: rewrite_string_def)

lemma rewrite_condition_json [simp]: "rewrite_prepared (condition_json c) = condition_json (rewrite_condition c)"
  by (induction c) (simp_all add: rewrite_string_def)

lemma rewrite_branch_json [simp]: "rewrite_prepared (branch_cond_json c) = branch_cond_json (rewrite_branch_cond c)"
  by (cases c) simp_all

lemma rewrite_step_json [simp]: "rewrite_prepared (step_json s) = step_json (rewrite_step s)"
  by (induction s) (simp_all add: rewrite_fields_def del: sort_keys.simps)

lemma rewrite_steps_json: "map rewrite_prepared (map step_json ss) = map step_json (map rewrite_step ss)"
  by (simp del: rewrite_prepared.simps)

section \<open>Sites and counts of rewritten steps\<close>

definition rewrite_site :: "call_site \<Rightarrow> call_site" where
  "rewrite_site c = c\<lparr>site_operation := rewrite_string (site_operation c), site_arguments := rewrite_fields (site_arguments c)\<rparr>"

lemma rewrite_sites:
  "step_sites p cs (rewrite_step s) = map rewrite_site (step_sites p cs s)"
  "sites_from p i cs (map rewrite_step ss) = map rewrite_site (sites_from p i cs ss)"
  "parallel_sites p i cs (map rewrite_step ss) = map rewrite_site (parallel_sites p i cs ss)"
  by (induction p cs s and p i cs ss and p i cs ss rule: step_sites_sites_from_parallel_sites.induct)
    (simp_all add: rewrite_site_def)

text \<open>No call site names an operation that the rewriting takes for a reference.\<close>

definition ids_kept :: "call_site list \<Rightarrow> bool" where
  "ids_kept sites \<longleftrightarrow> (\<forall>c \<in> set sites. rewrite_string (site_operation c) = site_operation c)"

lemma ids_kept_append [simp]: "ids_kept (xs @ ys) \<longleftrightarrow> ids_kept xs \<and> ids_kept ys"
  by (auto simp: ids_kept_def)

lemma rewrite_counts:
  "ids_kept (step_sites p cs s) \<Longrightarrow> step_counts ops (rewrite_step s) = step_counts ops s"
  "ids_kept (sites_from p i cs ss) \<Longrightarrow> path_counts ops A (map rewrite_step ss) = path_counts ops A ss"
  "ids_kept (parallel_sites p i cs ss) \<Longrightarrow> parallel_counts ops A (map rewrite_step ss) = parallel_counts ops A ss"
  by (induction p cs s and p i cs ss and p i cs ss arbitrary: and A and A rule: step_sites_sites_from_parallel_sites.induct)
    (simp_all add: ids_kept_def)

section \<open>Calls come from sites\<close>

text \<open>A call of a compiled operation with these arguments, made from one of the sites on this input.\<close>

definition from_site :: "(string, json) dict \<Rightarrow> json \<Rightarrow> call_site list \<Rightarrow> string \<Rightarrow> (string, json) dict \<Rightarrow> json \<Rightarrow> bool" where
  "from_site operations input sites oid op args \<longleftrightarrow>
     dget operations oid = Some (JObj op) \<and>
     (\<exists>c ctx. c \<in> set sites \<and> site_operation c = oid \<and> ctx_input ctx = input \<and>
        (ctx_item ctx \<noteq> None \<longrightarrow> InForeach \<in> set (site_containers c)) \<and>
        resolve_value ctx (sort_keys (JObj (site_arguments c))) = Inr args)"

lemma from_site_mono: "from_site operations input sites oid op args \<Longrightarrow> set sites \<subseteq> set sites' \<Longrightarrow> from_site operations input sites' oid op args"
  by (auto simp: from_site_def)

definition context_in :: "json \<Rightarrow> container list \<Rightarrow> exec_context \<Rightarrow> bool" where
  "context_in input cs ctx \<longleftrightarrow> ctx_input ctx = input \<and> (ctx_item ctx \<noteq> None \<longrightarrow> InForeach \<in> set cs)"

lemma context_in_facts [simp]:
  "context_in input cs (keep_typed i ctx v) = context_in input cs ctx"
  "context_in input cs ctx \<Longrightarrow> context_in input (cs @ [InParallel]) ctx"
  "context_in input cs ctx \<Longrightarrow> context_in input (cs @ [InForeach]) (isolated ctx item)"
  by (cases i; simp add: context_in_def isolated_def)+

abbreviation (input) calls_from where
  "calls_from operations input sites p \<equiv> safe (from_site operations input sites) (\<lambda>_. True) (\<lambda>_. True) p"

lemma calls_from_mono: "calls_from operations input sites p \<Longrightarrow> set sites \<subseteq> set sites' \<Longrightarrow> calls_from operations input sites' p"
  by (erule safe_weaken) (auto elim: from_site_mono)

lemma calls_from_plift: "(\<And>x. r = Inr x \<Longrightarrow> calls_from operations input sites (f x)) \<Longrightarrow> calls_from operations input sites (plift r f)"
  by (rule safe_plift) auto

lemma calls_from_gather:
  "(\<And>p. p \<in> set ps \<Longrightarrow> calls_from operations input sites p) \<Longrightarrow> calls_from operations input sites (Gather ps (\<lambda>vs. Finished (Inr (JArr vs))))"
  by (rule safe.gather [where R = "\<lambda>_. True"]) (auto simp: safe_Finished)

lemma call_from_site:
  assumes "context_in input cs ctx"
  shows "calls_from operations input (step_sites p cs (CallStep i oid args))
    (call_step env operations ctx (JObj [(''arguments'', sort_keys (JObj args)), (''operation'', JStr oid)]))"
  unfolding call_step_def
proof (rule calls_from_plift)
  fix x assume x: "prepare_call env operations ctx (JObj [(''arguments'', sort_keys (JObj args)), (''operation'', JStr oid)]) = Inr x"
  obtain oid' op safe where x3: "x = (oid', op, safe)" by (cases x)
  from x have "oid' = oid" "check_arguments env op ctx
      [(''arguments'', sort_keys (JObj args)), (''operation'', JStr oid)] = Inr safe" unfolding x3
    by (auto simp: prepare_call_def rbind_Inr_iff operation_id_of_def get_or_null_def split: if_splits)
  moreover from this prepare_call_Inr [OF x [unfolded x3]] have "dget operations oid = Some (JObj op)"
    by (simp add: call_checked_def)
  ultimately have "resolve_value ctx (sort_keys (JObj args)) = Inr safe" "dget operations oid = Some (JObj op)"
    by (auto simp: check_arguments_def rbind_Inr_iff copy_json_eq get_or_null_def simp del: resolve_value.simps sort_keys.simps split: if_splits)
  with assms \<open>oid' = oid\<close> show "calls_from operations input (step_sites p cs (CallStep i oid args))
      (case x of (oid, op, safe) \<Rightarrow> Calls oid op safe (\<lambda>r. Finished (call_result env op r)))"
    by (auto simp: x3 safe_Calls safe_Finished from_site_def context_in_def simp del: resolve_value.simps sort_keys.simps)
qed

lemma workflow_from_sites:
  "(\<And>s ctx i. s \<in> set ss \<Longrightarrow> context_in input cs ctx \<Longrightarrow>
      calls_from operations input (step_sites (at_index p i) cs s) (run_step env operations ctx (step_fields_json s))) \<Longrightarrow>
   context_in input cs ctx \<Longrightarrow>
   calls_from operations input (sites_from p i cs ss) (run_workflow env operations ctx (map step_json ss) v)"
proof (induction ss arbitrary: i ctx v)
  case (Cons s ss)
  have "calls_from operations input (step_sites (at_index p i) cs s) (run_step env operations ctx (step_fields_json s))"
    using Cons.prems by simp
  then have "calls_from operations input (sites_from p i cs (s # ss)) (run_step env operations ctx (step_fields_json s))"
    by (rule calls_from_mono) simp
  moreover have "calls_from operations input (sites_from p i cs (s # ss))
      (run_workflow env operations (keep_typed (step_id s) ctx w) (map step_json ss) w)" for w
  proof -
    have "calls_from operations input (sites_from p (Suc i) cs ss)
        (run_workflow env operations (keep_typed (step_id s) ctx w) (map step_json ss) w)"
      by (rule Cons.IH) (use Cons.prems in simp_all)
    then show ?thesis by (rule calls_from_mono) simp
  qed
  ultimately show ?case unfolding run_workflow_typed by (rule safe_pbind)
qed (simp add: safe_Finished)

lemma parallel_site_member:
  "s \<in> set ss \<Longrightarrow> \<exists>j. set (step_sites (at_index (at_index p j) 0) cs s) \<subseteq> set (parallel_sites p i cs ss)"
  by (induction ss arbitrary: i) (auto, blast)

lemma step_from_sites:
  "context_in input cs ctx \<Longrightarrow>
     calls_from operations input (step_sites p cs s) (run_step env operations ctx (step_fields_json s))"
proof (induction s arbitrary: ctx p cs)
  case (CallStep i oid args)
  then show ?case unfolding run_step_typed by (rule call_from_site)
next
  case (BranchStep i k ts es)
  have "calls_from operations input (step_sites p cs (BranchStep i k ts es)) (run_workflow env operations ctx (map step_json ss) JNull)"
    if "ss = ts \<or> ss = es" for ss
  proof -
    from that obtain q where "ss = ts \<and> q = p @ ''/branch/then'' \<or> ss = es \<and> q = p @ ''/branch/else''" by blast
    then show ?thesis
      by (intro calls_from_mono [OF workflow_from_sites [where p = q and i = 0 and cs = cs]]) (use BranchStep in auto)
  qed
  then show ?case unfolding run_step_typed
    by (intro calls_from_plift) (auto simp del: run_workflow_typed step_sites.simps)
next
  case (ParallelStep i ss)
  have "calls_from operations input (step_sites p cs (ParallelStep i ss)) (run_workflow env operations ctx (map step_json [s]) JNull)"
    if "s \<in> set ss" for s
  proof -
    from parallel_site_member [OF that, of "p @ ''/parallel''" "cs @ [InParallel]" 0] obtain j where
      j: "set (step_sites (at_index (at_index (p @ ''/parallel'') j) 0) (cs @ [InParallel]) s) \<subseteq> set (step_sites p cs (ParallelStep i ss))"
      by auto
    have "calls_from operations input (step_sites p cs (ParallelStep i ss)) (run_step env operations ctx (step_fields_json s))"
      by (rule calls_from_mono [OF ParallelStep.IH [OF that] j]) (simp add: ParallelStep.prems)
    then show ?thesis unfolding run_workflow_typed by (rule safe_pbind) (simp add: safe_Finished)
  qed
  then show ?case unfolding run_step_typed
    by (auto simp: safe_Finished intro!: calls_from_gather simp del: run_workflow.simps run_workflow_typed step_sites.simps)
next
  case (ForeachStep i v nm n ss)
  have "calls_from operations input (step_sites p cs (ForeachStep i v nm n ss))
      (run_workflow env operations (isolated ctx item) (map step_json ss) JNull)" for item
    by (rule calls_from_mono [OF workflow_from_sites [where p = "p @ ''/foreach/workflow''" and i = 0 and cs = "cs @ [InForeach]"]])
      (use ForeachStep in auto)
  then show ?case unfolding run_step_typed
    by (intro calls_from_plift calls_from_gather) (auto simp del: run_workflow_typed step_sites.simps)
qed (simp_all only: run_step_pure safe_Finished, simp_all)

lemma execute_from_sites:
  assumes "holds_workflow ir cid ss operations"
  shows "calls_from operations input (call_sites p ss) (execute env ir cid input)"
proof (cases "prepare_execution env ir cid input")
  case (Inl e)
  then show ?thesis by (simp add: execute_def safe_Finished)
next
  case (Inr q)
  from execute_workflow [OF assms Inr] obtain cap where
    e: "execute env ir cid input =
       pbind (run_workflow env operations \<lparr>ctx_input = input, ctx_steps = [], ctx_item = None\<rparr> (map step_json ss) JNull)
         (\<lambda>result. Finished (checked_output env cap result))" by blast
  have "calls_from operations input (call_sites p ss)
      (run_workflow env operations \<lparr>ctx_input = input, ctx_steps = [], ctx_item = None\<rparr> (map step_json ss) JNull)"
    unfolding call_sites_def by (intro workflow_from_sites step_from_sites) (simp_all add: context_in_def)
  then show ?thesis unfolding e by (rule safe_pbind) (simp add: safe_Finished)
qed

section \<open>Arguments that only the input determines\<close>

definition input_context :: "json \<Rightarrow> exec_context" where
  "input_context input = \<lparr>ctx_input = input, ctx_steps = [], ctx_item = None\<rparr>"

definition names_no_step :: "string \<Rightarrow> bool" where
  "names_no_step s \<longleftrightarrow> (case parse_reference s of Some (StepRef _ _) \<Rightarrow> False | _ \<Rightarrow> True)"

lemma fresh_step_parse: "fresh_step_reference s \<longleftrightarrow> \<not> names_no_step s"
  by (auto simp: fresh_step_reference_def names_no_step_def parse_reference_def split: list.splits)

lemma input_determines:
  "all_strings names_no_step v \<Longrightarrow> ctx_item ctx = None \<Longrightarrow> resolve_value ctx v = Inr w \<Longrightarrow>
     resolve_value (input_context (ctx_input ctx)) v = Inr w"
proof (induction v arbitrary: w)
  case (JStr s)
  show ?case
  proof (cases "parse_reference s")
    case (Some r)
    then have "reference_root ctx r = reference_root (input_context (ctx_input ctx)) r" if "\<forall>st p. r \<noteq> StepRef st p"
      using that JStr.prems(2) by (cases r) (simp_all add: input_context_def)
    moreover have "\<forall>st p. r \<noteq> StepRef st p" using JStr.prems(1) Some by (auto simp: names_no_step_def)
    ultimately show ?thesis using JStr.prems(3) Some by (simp add: resolve_match_def)
  qed (use JStr in auto)
next
  case (JArr xs)
  then obtain ys where ys: "w = JArr ys" "list_all2 (\<lambda>x y. resolve_value ctx x = Inr y) xs ys"
    by (auto simp: rbind_Inr_iff traverse_Inr_iff)
  have "list_all2 (\<lambda>x y. resolve_value (input_context (ctx_input ctx)) x = Inr y) xs ys"
    by (rule list.rel_mono_strong [OF ys(2)]) (use JArr in auto)
  then show ?case by (simp add: rbind_Inr_iff traverse_Inr_iff ys(1))
next
  case (JObj fs)
  let ?f = "\<lambda>ctx p. rbind (resolve_value ctx (snd p)) (\<lambda>w. Inr (fst p, w))"
  from JObj obtain gs where gs: "w = JObj gs" "list_all2 (\<lambda>p g. ?f ctx p = Inr g) fs gs"
    by (auto simp: rbind_Inr_iff [where r = "traverse _ _"] traverse_Inr_iff)
  have "list_all2 (\<lambda>p g. ?f (input_context (ctx_input ctx)) p = Inr g) fs gs"
    by (rule list.rel_mono_strong [OF gs(2)]) (use JObj in \<open>auto simp: rbind_Inr_iff snds.simps\<close>)
  then show ?case by (simp add: rbind_Inr_iff [where r = "traverse _ _"] traverse_Inr_iff gs(1))
qed auto

lemma all_strings_walk: "all_strings P v \<longleftrightarrow> (\<forall>(s, q) \<in> set (walk_strings v p). P s)"
proof (induction v arbitrary: p)
  case (JArr xs)
  show ?case
  proof
    assume a: "all_strings P (JArr xs)"
    have "\<forall>(s, q) \<in> set (walk_strings (xs ! i) (at_index p i)). P s" if "i < length xs" for i
      using a that JArr.IH [of "xs ! i" "at_index p i"] by simp
    then show "\<forall>(s, q) \<in> set (walk_strings (JArr xs) p). P s" by auto
  next
    assume a: "\<forall>(s, q) \<in> set (walk_strings (JArr xs) p). P s"
    have "all_strings P (xs ! i)" if "i < length xs" for i
      using a that JArr.IH [of "xs ! i" "at_index p i"] by auto
    then show "all_strings P (JArr xs)" by (simp add: all_set_conv_all_nth)
  qed
next
  case (JObj fs)
  then show ?case by (fastforce simp: split_beta snds.simps)
qed simp_all

end
