(* ===== verification/ActionSoundness.thy ===== *)
theory ActionSoundness
  imports SealedRequests
begin

text \<open>
  What the proof of an Action is for: an Action that loads mutates at most once for a commit, exactly
  once when the commit returns, with arguments that the sealed record determines; previews, status
  queries and recoveries never mutate.
\<close>

section \<open>Loaded Actions\<close>

lemma holds_workflow_ir:
  "holds_workflow (workflow_ir rt l ws prepared) (cap_id (l_capability l))
     (if prepared then map rewrite_step ws else ws) (dumped_operations rt l)"
  by (simp add: holds_workflow_def workflow_ir_def capability_definition_def get_or_null_def Let_def rewrite_steps_json
      del: rewrite_prepared.simps map_map list.map_comp)

definition ids_plain :: "operations \<Rightarrow> bool" where
  "ids_plain ops \<longleftrightarrow> (\<forall>oid \<in> set (dkeys ops). \<not> prefix ''$.prepared.'' oid)"

text \<open>What loading has checked, as far as the runs below rest on it.\<close>

definition proved :: "loaded_action \<Rightarrow> bool" where
  "proved l \<longleftrightarrow>
     keyed (l_operations l) \<and> mutation_path_counts (l_commit l) (l_operations l) = {1} \<and>
     (\<forall>c \<in> set (call_sites ''/commit_workflow'' (l_commit l)). dget (l_operations l) (site_operation c) \<noteq> None) \<and>
     (\<forall>c \<in> set (mutation_sites (l_operations l) (l_commit l)).
        InForeach \<notin> set (site_containers c) \<and> all_strings names_no_step (JObj (site_arguments c)))"

lemma diag_if_Nil [simp]: "diag_if b code p = [] \<longleftrightarrow> \<not> b"
  by (simp add: diag_if_def)

lemma proof_ok_diagnostics:
  "proof_ok (report_proof (prove_action valid c a preview commit ops sems pol)) \<longleftrightarrow>
     report_diagnostics (prove_action valid c a preview commit ops sems pol) = []"
  by (simp only: prove_action_def Let_def proof_report.simps action_proof.simps)

lemma report_proved:
  assumes "report_diagnostics (prove_action valid c a preview commit ops sems pol) = []" "keyed ops"
    "l_operations l = ops" "l_commit l = commit"
  shows "proved l"
proof -
  have d: "site_problems ops preview commit = []" "count_problems ops a commit = []" "reference_problems ops preview commit = []"
    using assms(1) by (simp_all add: prove_action_def Let_def)
  from d(1) have sites: "dget ops (site_operation s) \<noteq> None" if "s \<in> set (call_sites ''/commit_workflow'' commit)" for s
    using that by (auto simp: site_problems_def Let_def)
  from d(1) have "InForeach \<notin> set (site_containers s)" if "s \<in> set (mutation_sites ops commit)" for s
    using that by (auto simp: site_problems_def Let_def)
  moreover have "all_strings names_no_step (JObj (site_arguments s))" if "s \<in> set (mutation_sites ops commit)" for s
    using that d(3) unfolding all_strings_walk [where p = "site_pointer s @ ''/arguments''"]
    by (fastforce simp: reference_problems_def fresh_step_parse simp del: walk_strings.simps)
  moreover have "mutation_path_counts commit ops = {1}" using d(2) by (simp add: count_problems_def split: if_splits)
  ultimately show ?thesis using sites assms(2-4) by (auto simp: proved_def)
qed

lemma load_compiled_Inr:
  assumes "load_compiled rt cid = Inr l"
  obtains c a preview commit sems pol checked where
    "keyed (ai_operations (rt_ir rt))" "cap_body c = ActionBody a preview commit"
    "prove_action_capability (rt_valid rt) c (ai_operations (rt_ir rt)) sems (Some pol) = Inr checked"
    "proof_ok (report_proof checked)" "l_operations l = ai_operations (rt_ir rt)" "l_commit l = commit"
proof -
  note load = assms [unfolded load_compiled_def Let_def action_error_def]
  obtain compiled where c: "dget (ai_capabilities (rt_ir rt)) cid = Some compiled"
    using load by (cases "dget (ai_capabilities (rt_ir rt)) cid") (auto split: if_splits)
  obtain a preview commit where b: "cap_body (cc_definition compiled) = ActionBody a preview commit"
    using load c by (cases "cap_body (cc_definition compiled)") (auto split: if_splits)
  obtain sems where s: "load_semantics rt (ai_operations (rt_ir rt)) (cc_semantics compiled) = Some sems"
    using load c b by (cases "load_semantics rt (ai_operations (rt_ir rt)) (cc_semantics compiled)") (auto split: if_splits)
  obtain pol where p: "dget (ai_policies (rt_ir rt)) (cap_policy (cc_definition compiled)) = Some pol"
    using load c b s by (cases "dget (ai_policies (rt_ir rt)) (cap_policy (cc_definition compiled))") (auto split: if_splits)
  obtain checked where ch: "prove_action_capability (rt_valid rt) (cc_definition compiled) (ai_operations (rt_ir rt)) sems (Some pol) = Inr checked"
    using load c b s p
    by (cases "prove_action_capability (rt_valid rt) (cc_definition compiled) (ai_operations (rt_ir rt)) sems (Some pol)")
      (auto split: if_splits)
  have keyed: "keyed (ai_operations (rt_ir rt))"
    using load by (auto simp: keyed_def list_ex_iff split: if_splits)
  have "proof_ok (report_proof checked)" "l_operations l = ai_operations (rt_ir rt)" "l_commit l = commit"
    using load c b s p ch by (auto split: if_splits)
  then show thesis using that keyed b ch by blast
qed

lemma load_proved:
  assumes "load rt c ctx = Inr l"
  shows "proved l" "l_operations l = ai_operations (rt_ir rt)"
proof -
  from assms have "load_compiled rt (cap_id c) = Inr l" by (auto simp: load_def rbind_Inr_iff action_error_def split: if_splits)
  then obtain c a preview commit sems pol checked where l: "keyed (ai_operations (rt_ir rt))" "cap_body c = ActionBody a preview commit"
    "prove_action_capability (rt_valid rt) c (ai_operations (rt_ir rt)) sems (Some pol) = Inr checked"
    "proof_ok (report_proof checked)" "l_operations l = ai_operations (rt_ir rt)" "l_commit l = commit" by (rule load_compiled_Inr)
  from l(2,3) have "checked = prove_action (rt_valid rt) c a preview commit (ai_operations (rt_ir rt)) sems (Some pol)"
    by (auto simp: prove_action_capability_def split: option.splits if_splits)
  with l(4) have "report_diagnostics (prove_action (rt_valid rt) c a preview commit (ai_operations (rt_ir rt)) sems (Some pol)) = []"
    by (simp add: proof_ok_diagnostics)
  from report_proved [OF this l(1,5,6)] show "proved l" .
  show "l_operations l = ai_operations (rt_ir rt)" by (rule l(5))
qed

section \<open>Counting a commit\<close>

lemma execute_mutates:
  assumes "calls_loaded rt ac" "holds_workflow ir cid ss (compiled_operations rt ac)"
  shows "mutates rt ac (least ac ss) (most ac ss) (execute env ir cid input)"
proof (cases "prepare_execution env ir cid input")
  case (Inl e)
  then show ?thesis by (simp add: execute_def counts.failed)
next
  case (Inr q)
  from execute_workflow [OF assms(2) Inr] obtain cap where
    e: "execute env ir cid input =
       pbind (running rt ac env \<lparr>ctx_input = input, ctx_steps = [], ctx_item = None\<rparr> ss JNull)
         (\<lambda>result. Finished (checked_output env cap result))" by blast
  have "mutates rt ac (least ac ss + 0) (most ac ss + 0) (execute env ir cid input)"
    unfolding e through_pbind by (intro counts_pbind workflow_counts step_counts_calls assms(1)) (simp add: counts_finished)
  then show ?thesis by simp
qed

lemma ids_plain_kept:
  assumes "\<forall>c \<in> set (call_sites p ss). dget ops (site_operation c) \<noteq> None" "ids_plain ops"
  shows "ids_kept (call_sites p ss)"
proof -
  have "rewrite_string oid = oid" if "dget ops oid \<noteq> None" for oid
    using that assms(2) by (auto simp: ids_plain_def rewrite_string_def dkeys_def dest: dget_Some_key)
  with assms(1) show ?thesis by (simp add: ids_kept_def)
qed

lemma mutation_process_counts:
  assumes "proved l" "dump_keeps_id rt" "ids_plain (l_operations l)"
  shows "counts (is_action (l_operations l)) 1 1 (mutation_process rt l ctx ex)"
proof -
  let ?ac = "commit_caller l ctx ex" and ?ss = "map rewrite_step (l_commit l)"
  have ac: "ac_loaded ?ac = l" by (simp add: commit_caller_def)
  have loaded: "calls_loaded rt ?ac" using assms by (simp add: calls_loaded_def ac proved_def)
  have "ids_kept (call_sites ''/commit_workflow'' (l_commit l))"
    using assms(1,3) by (intro ids_plain_kept) (simp_all add: proved_def)
  then have one: "path_counts (l_operations l) {0} ?ss = {1}"
    using assms(1) rewrite_counts(2) [of "''/commit_workflow''" 0 "[]" "l_commit l"]
    by (simp add: proved_def mutation_path_counts_def call_sites_def)
  then have "least ?ac ?ss = 1" "most ?ac ?ss = 1"
    using path_counts_bounds(2,3) [of "{0}" "l_operations l" ?ss] by (simp_all add: ac)
  moreover have "holds_workflow (workflow_ir rt l (l_commit l) True) (cap_id (l_capability l)) ?ss (compiled_operations rt ?ac)"
    using holds_workflow_ir [of rt l "l_commit l" True] by (simp add: ac)
  from execute_mutates [OF loaded this, of "action_env rt" "sealed_input ex"] calculation show ?thesis
    by (simp only: mutation_process_def ac)
qed

section \<open>Requests of a run\<close>

text \<open>The calls of a process behind the caller: requests of calls that the process makes.\<close>

definition requested ::
    "action_runtime \<Rightarrow> action_caller \<Rightarrow> (string \<Rightarrow> (string, json) dict \<Rightarrow> json \<Rightarrow> bool) \<Rightarrow>
     string \<Rightarrow> (string, json) dict \<Rightarrow> json \<Rightarrow> bool" where
  "requested rt ac P oid op args \<longleftrightarrow>
     (\<exists>oid' args' q. P oid' op args' \<and> caller_call rt ac op args' = Inr q \<and>
        oid = op_id (request_operation q) \<and> args = request_arguments q)"

lemma through_requests: "safe P E Q p \<Longrightarrow> safe (requested rt ac P) E Q (through_caller rt ac p)"
proof (induction rule: safe.induct)
  case (finished r Q)
  then show ?case by (auto intro: safe.finished)
next
  case (calls oid op args Q k)
  show ?case
  proof (cases "caller_call rt ac op args")
    case (Inr q)
    then have "requested rt ac P (op_id (request_operation q)) op (request_arguments q)"
      unfolding requested_def using calls.hyps(1) by blast
    with Inr calls.IH show ?thesis by (simp add: safe.calls)
  qed (use calls.IH in simp)
next
  case (gather ps R Q k)
  show ?case unfolding through_caller.simps
    by (rule safe.gather [where R = R]) (use gather in auto)
qed

lemma request_reads:
  assumes "caller_request rt ac op args = Inr q" "keyed (l_operations (ac_loaded ac))" "ac_phase ac \<noteq> CommitPhase"
  shows "\<not> is_action (l_operations (ac_loaded ac)) (op_id (request_operation q))"
proof -
  from caller_request_Inr [OF assms(1)] assms(3) obtain oid where
    "dget (l_operations (ac_loaded ac)) oid = Some (request_operation q)" "op_kind (request_operation q) \<noteq> ActionKind" by blast
  moreover from this keyed_dget [OF assms(2)] have "op_id (request_operation q) = oid" by simp
  ultimately show ?thesis by (simp add: is_action.simps)
qed

lemma selected_0: "selected M evs = 0 \<longleftrightarrow> (\<forall>e \<in> set evs. \<not> M (fst e))"
  by (auto simp: selected_def filter_empty_conv)

lemma run_requests:
  assumes "exec_run (through_caller rt ac (execute env ir cid input), []) evs n c" "(oid, op, args, r) \<in> set evs"
    "safe P (\<lambda>_. True) (\<lambda>_. True) (execute env ir cid input)"
  shows "requested rt ac P oid op args"
proof -
  have "config_safe (requested rt ac P) (\<lambda>_. True) (\<lambda>_. True) (through_caller rt ac (execute env ir cid input), [])"
    using through_requests [OF assms(3)] by (simp add: config_safe_def)
  from safe_exec_run [OF assms(1) this] assms(2) show ?thesis by auto
qed

lemma preview_reads:
  assumes "exec_run (preview_process rt l ctx args, []) evs n c" "keyed (l_operations l)"
  shows "selected (is_action (l_operations l)) evs = 0"
  unfolding selected_0
proof
  fix e assume "e \<in> set evs"
  moreover obtain oid op as r where e: "e = (oid, op, as, r)" by (cases e)
  ultimately have "requested rt (preview_caller l ctx) (\<lambda>_ _ _. True) oid op as"
    using run_requests [OF assms(1) [unfolded preview_process_def], of oid op as r "\<lambda>_ _ _. True"]
      safe_weaken [OF safe_mono [OF execute_safe]] by auto
  then obtain args' q where q: "caller_call rt (preview_caller l ctx) op args' = Inr q" "oid = op_id (request_operation q)"
    by (auto simp: requested_def)
  then obtain d where "caller_request rt (preview_caller l ctx) op d = Inr q" by (cases args') auto
  from request_reads [OF this] q(2) assms(2) e show "\<not> is_action (l_operations l) (fst e)"
    by (simp add: preview_caller_def)
qed

lemma preview_run_reads:
  "preview_run rt l ctx args evs outcome \<Longrightarrow> keyed (l_operations l) \<Longrightarrow> selected (is_action (l_operations l)) evs = 0"
  by (induction rule: preview_run.induct) (auto dest: preview_reads)

lemma status_request_Inr:
  "status_request rt l ctx q input preview key = Inr request \<Longrightarrow>
     \<exists>op d. caller_request rt (status_caller l ctx) op d = Inr request"
  unfolding status_request_def action_error_def
  by (elim rbind_InrE | (auto elim!: rbind_InrE split: option.splits if_splits sum.splits)[])+

lemma status_run_reads:
  assumes "status_run rt l ctx sem q input preview key evs outcome" "keyed (l_operations l)"
  shows "selected (is_action (l_operations l)) evs = 0"
  using assms(1)
proof cases
  case (answered request r)
  from status_request_Inr [OF answered(3)] obtain op d where "caller_request rt (status_caller l ctx) op d = Inr request" by blast
  from request_reads [OF this] assms(2) answered(1) show ?thesis
    by (simp add: status_caller_def cost_def)
qed (simp_all add: selected_0)

lemma mutation_run_counts:
  assumes "mutation_run rt l ctx ex evs outcome" "proved l" "dump_keeps_id rt" "ids_plain (l_operations l)"
  shows "selected (is_action (l_operations l)) evs \<le> 1 \<and>
    (\<not> ex_terminal ex \<and> outcome = Some (Inr v) \<longrightarrow> selected (is_action (l_operations l)) evs = 1)"
proof -
  note bounds = counts_bounds [OF mutation_process_counts [OF assms(2-4)], where ctx1 = ctx and ex1 = ex]
  have keyed: "keyed (l_operations l)" using assms(2) by (simp add: proved_def)
  from assms(1) show ?thesis
  proof cases
    case (settled preview n raw os oid)
    with bounds [OF settled(4)] show ?thesis by (simp add: le_antisym)
  next
    case (queried preview evs1 n raw os oid sem q evs2 out)
    have "selected (is_action (l_operations l)) evs1 = 1" using bounds [OF queried(5)] by (simp add: le_antisym)
    with status_run_reads [OF queried(8) keyed] show ?thesis by (simp add: queried(1))
  qed (use bounds in \<open>auto simp: action_error_def selected_0 [THEN iffD2]\<close>)
qed

text \<open>The workflow of a commit counts one mutation when it ends with a value: the runtime's own check passes.\<close>

lemma mutation_process_exact:
  assumes "exec_run (mutation_process rt l ctx ex, []) evs n (Finished (Inr raw), os)" "proved l" "dump_keeps_id rt"
    "ids_plain (l_operations l)"
  shows "\<exists>oid. mutated_ids l evs = [oid]"
proof -
  have "selected (is_action (l_operations l)) evs = 1"
    using counts_bounds [OF mutation_process_counts [OF assms(2-4)] assms(1)] by (simp add: le_antisym)
  then have "length (mutated_ids l evs) = 1" by (simp add: mutated_ids_def selected_def filter_map comp_def)
  then show ?thesis by (auto simp: length_Suc_conv)
qed

text \<open>Of a whole commit, the local guard included.\<close>

lemma commit_run_counts:
  assumes "commit_run rt c ex ctx evs outcome" "dump_keeps_id rt" "ids_plain (ai_operations (rt_ir rt))"
  shows "selected (is_action (ai_operations (rt_ir rt))) evs \<le> 1"
proof -
  have counts: "selected (is_action (ai_operations (rt_ir rt))) evs \<le> 1"
    if "load rt c ctx = Inr l" "mutation_run rt l ctx ex evs outcome" for l ex evs outcome
    using mutation_run_counts [OF that(2) load_proved(1) [OF that(1)] assms(2)] assms(3) load_proved(2) [OF that(1)] by simp
  have reads: "selected (is_action (ai_operations (rt_ir rt))) evs = 0"
    if "load rt c ctx = Inr l" "preview_run rt l ctx args evs outcome" for l args evs outcome
    using preview_run_reads [OF that(2)] load_proved [OF that(1)] by (simp add: proved_def)
  from assms(1) show ?thesis
    by cases (use counts reads in \<open>auto simp: selected_0 [THEN iffD2] dest!: counts dest: reads\<close>)
qed

lemma recover_run_reads:
  "recover_run rt c ex ctx evs outcome \<Longrightarrow> selected (is_action (ai_operations (rt_ir rt))) evs = 0"
proof (induction rule: recover_run.induct)
  case (queried l oid sem q preview evs outcome)
  with status_run_reads load_proved [OF queried(1)] show ?case by (metis proved_def)
qed (simp_all add: selected_0)

section \<open>Sealed requests\<close>

text \<open>What each mutation site sends when its arguments are resolved in the sealed record alone.\<close>

definition site_request ::
    "action_runtime \<Rightarrow> loaded_action \<Rightarrow> principal_context \<Rightarrow> commit_execution \<Rightarrow> call_site \<Rightarrow> (string \<times> json) list" where
  "site_request rt l ctx ex site =
     (case resolve_value (input_context (sealed_input ex)) (rewrite_prepared (sort_keys (JObj (site_arguments site)))) of
        Inr (JObj d) \<Rightarrow>
          (case dget (l_operations l) (site_operation site) of
             None \<Rightarrow> []
           | Some oper \<Rightarrow>
               (case caller_request rt (commit_caller l ctx ex) (rt_dump_operation rt oper) d of
                  Inr q \<Rightarrow> [(site_operation site, request_arguments q)]
                | Inl _ \<Rightarrow> []))
      | _ \<Rightarrow> [])"

definition sealed_requests ::
    "action_runtime \<Rightarrow> loaded_action \<Rightarrow> principal_context \<Rightarrow> commit_execution \<Rightarrow> (string \<times> json) list" where
  "sealed_requests rt l ctx ex =
     concat (map (site_request rt l ctx ex) (mutation_sites (l_operations l) (l_commit l)))"

lemma names_no_step_rewrite: "names_no_step s \<Longrightarrow> names_no_step (rewrite_string s)"
proof (cases "prefix ''$.prepared.'' s")
  case True
  then show ?thesis by (simp add: rewrite_string_def names_no_step_def parse_reference_def)
qed (simp add: rewrite_string_def)

lemma all_strings_rewrite: "all_strings names_no_step v \<Longrightarrow> all_strings names_no_step (rewrite_prepared v)"
  by (induction v) (auto simp: names_no_step_rewrite snds.simps)

lemma mutation_process_sealed:
  assumes "exec_run (mutation_process rt l ctx ex, []) evs n c" "proved l" "dump_keeps_id rt" "ids_plain (l_operations l)"
    "(oid, op, args, r) \<in> set evs" "is_action (l_operations l) oid"
  shows "(oid, args) \<in> set (sealed_requests rt l ctx ex)"
proof -
  let ?ac = "commit_caller l ctx ex" and ?sites = "call_sites ''/commit_workflow'' (l_commit l)"
  let ?input = "sealed_input ex"
  have ac: "ac_loaded ?ac = l" by (simp add: commit_caller_def)
  have keyed: "keyed (l_operations l)" using assms(2) by (simp add: proved_def)
  have "holds_workflow (workflow_ir rt l (l_commit l) True) (cap_id (l_capability l)) (map rewrite_step (l_commit l))
      (dumped_operations rt l)" using holds_workflow_ir [of rt l "l_commit l" True] by simp
  from run_requests [OF assms(1) [unfolded mutation_process_def] assms(5) execute_from_sites [OF this, where p = "''/commit_workflow''"]]
  obtain oid' args' q where q: "from_site (dumped_operations rt l) ?input (call_sites ''/commit_workflow'' (map rewrite_step (l_commit l))) oid' op args'"
    "caller_call rt ?ac op args' = Inr q" "oid = op_id (request_operation q)" "args = request_arguments q"
    by (auto simp: requested_def)
  then obtain c' ctx' where op: "dget (dumped_operations rt l) oid' = Some (JObj op)" and
    c': "c' \<in> set (call_sites ''/commit_workflow'' (map rewrite_step (l_commit l)))" "site_operation c' = oid'"
    "ctx_input ctx' = ?input" "ctx_item ctx' \<noteq> None \<longrightarrow> InForeach \<in> set (site_containers c')"
    "resolve_value ctx' (sort_keys (JObj (site_arguments c'))) = Inr args'"
    by (auto simp: from_site_def simp del: sort_keys.simps resolve_value.simps)
  have oid: "oid' = oid" using caller_call_request(1) [OF q(2) _ assms(3)] op keyed q(3) by (simp add: ac)
  obtain oper where oper: "dget (l_operations l) oid = Some oper" "op = rt_dump_operation rt oper"
    using op oid by (auto simp: dget_dumped)
  from c'(1) obtain s where s: "s \<in> set ?sites" "c' = rewrite_site s"
    by (auto simp: call_sites_def rewrite_sites)
  have "ids_kept ?sites" using assms(2,4) by (intro ids_plain_kept) (simp_all add: proved_def)
  then have "site_operation s = oid" using s c'(2) oid by (auto simp: ids_kept_def rewrite_site_def)
  with s(1) assms(6) have site: "s \<in> set (mutation_sites (l_operations l) (l_commit l))" by (simp add: mutation_sites_def)
  with assms(2) have "InForeach \<notin> set (site_containers s)" "all_strings names_no_step (JObj (site_arguments s))"
    unfolding proved_def by blast+
  moreover have args: "sort_keys (JObj (site_arguments c')) = rewrite_prepared (sort_keys (JObj (site_arguments s)))"
    using s(2) by (simp add: rewrite_site_def rewrite_fields_def del: sort_keys.simps)
  ultimately have "ctx_item ctx' = None" "all_strings names_no_step (sort_keys (JObj (site_arguments c')))"
    using c'(4) s(2) by (auto simp: rewrite_site_def intro!: all_strings_rewrite simp del: sort_keys.simps rewrite_sort_keys rewrite_prepared.simps all_strings.simps)
  from input_determines [OF this(2,1) c'(5)] have "resolve_value (input_context ?input)
      (rewrite_prepared (sort_keys (JObj (site_arguments s)))) = Inr args'" by (simp only: c'(3) args)
  moreover obtain d where "args' = JObj d" "caller_request rt ?ac op d = Inr q" using q(2) by (cases args') auto
  ultimately have "(oid, args) \<in> set (site_request rt l ctx ex s)"
    using \<open>site_operation s = oid\<close> oper q(4) by (simp only: site_request_def sum.case json.case option.case) simp
  with site show ?thesis by (auto simp: sealed_requests_def)
qed

lemma mutation_run_sealed:
  assumes "mutation_run rt l ctx ex evs outcome" "proved l" "dump_keeps_id rt" "ids_plain (l_operations l)"
    "(oid, op, args, r) \<in> set evs" "is_action (l_operations l) oid"
  shows "(oid, args) \<in> set (sealed_requests rt l ctx ex)"
proof -
  have keyed: "keyed (l_operations l)" using assms(2) by (simp add: proved_def)
  note sealed = mutation_process_sealed [OF _ assms(2-4) _ assms(6)]
  from assms(1) show ?thesis
  proof cases
    case (queried preview evs1 n raw os oid' sem q evs2 out)
    from status_run_reads [OF queried(8) keyed] assms(6) have "(oid, op, args, r) \<notin> set evs2"
      by (fastforce simp: selected_0)
    with sealed [OF queried(5)] assms(5) show ?thesis by (simp add: queried(1))
  qed (use assms(5) sealed in \<open>auto\<close>)
qed

text \<open>
  The execution whose sealed record a commit mutates from: its own, or, under the local guard, the one
  with the preview that the commit has just read and found in the same allowed state.
\<close>

definition rechecked ::
    "action_runtime \<Rightarrow> loaded_action \<Rightarrow> principal_context \<Rightarrow> call_event list \<Rightarrow> commit_execution \<Rightarrow> commit_execution \<Rightarrow> bool" where
  "rechecked rt l ctx evs ex ex' \<longleftrightarrow>
     (case local_development_state_guard (l_contract l) of
        None \<Rightarrow> ex' = ex
      | Some g \<Rightarrow>
          \<exists>args fresh evs1 evs2. ex_input ex = JObj args \<and> evs = evs1 @ evs2 \<and>
            preview_run rt l ctx args evs1 (Some (Inr fresh)) \<and>
            local_recheck (rt_crypto rt) g (ex_preview ex) (pe_value fresh) = Inr False \<and>
            ex' = refreshed ex (pe_value fresh))"

lemma commit_run_sealed:
  assumes "commit_run rt c ex ctx evs outcome" "load rt c ctx = Inr l" "dump_keeps_id rt" "ids_plain (l_operations l)"
    "(oid, op, args, r) \<in> set evs" "is_action (l_operations l) oid"
  shows "\<exists>ex'. rechecked rt l ctx evs ex ex' \<and> (oid, args) \<in> set (sealed_requests rt l ctx ex')"
proof -
  note pr = load_proved(1) [OF assms(2)]
  then have keyed: "keyed (l_operations l)" by (simp add: proved_def)
  have reads: "(oid, op, args, r) \<notin> set evs1" if "preview_run rt l ctx as evs1 out" for as evs1 out
    using preview_run_reads [OF that keyed] assms(6) by (fastforce simp: selected_0)
  note sealed = mutation_run_sealed [OF _ pr assms(3,4) _ assms(6)]
  from assms(1) show ?thesis
  proof cases
    case (unguarded l')
    with assms(2,5) sealed show ?thesis by (auto simp: rechecked_def)
  next
    case (allowed l' g args' evs1 fresh evs2)
    have l: "l' = l" using assms(2) allowed(2) by simp
    from allowed(1) assms(5) reads [OF allowed(6) [unfolded l]] have "(oid, op, args, r) \<in> set evs2" by auto
    from sealed [OF allowed(8) [unfolded l] this] allowed l show ?thesis by (auto simp: rechecked_def)
  qed (use assms(2,5) reads in auto)
qed

text \<open>A commit without a local guard that returns a value it was not given has mutated exactly once.\<close>

lemma commit_run_exact:
  assumes "commit_run rt c ex ctx evs (Some (Inr v))" "load rt c ctx = Inr l"
    "local_development_state_guard (l_contract l) = None" "\<not> ex_terminal ex"
    "dump_keeps_id rt" "ids_plain (ai_operations (rt_ir rt))"
  shows "selected (is_action (ai_operations (rt_ir rt))) evs = 1"
proof -
  have "mutation_run rt l ctx ex evs (Some (Inr v))"
    using assms(1) by cases (use assms(2,3) in auto)
  from mutation_run_counts [OF this load_proved(1) [OF assms(2)] assms(5)] assms(4,6) load_proved(2) [OF assms(2)]
  show ?thesis by simp
qed

end
