(* ===== verification/ProviderCalls.thy ===== *)
theory ProviderCalls
  imports ActionSoundness Interleaving
begin

text \<open>
  The provider behind the boundary: each call of the executor's commit in the log of the boundary is
  answered by a run of \<open>commit\<close>, finished or not.
\<close>

fun provider_run :: "action_runtime \<Rightarrow> log_entry \<Rightarrow> call_event list \<Rightarrow> bool" where
  "provider_run rt (Executed h d x ctx) evs = (\<exists>outcome. commit_run rt (def_capability d) x ctx evs outcome)"
| "provider_run rt (Granted ah b) evs = (evs = [])"

fun mutations_for :: "(string \<Rightarrow> bool) \<Rightarrow> (string \<Rightarrow> string) \<Rightarrow> string \<Rightarrow> log_entry \<Rightarrow> call_event list \<Rightarrow> nat" where
  "mutations_for M key dg (Executed h d x ctx) evs = (if key h = dg then selected M evs else 0)"
| "mutations_for M key dg (Granted ah b) evs = 0"

lemma provider_runs_mutate:
  assumes "list_all2 (provider_run rt) L runs" "dump_keeps_id rt" "ids_plain (ai_operations (rt_ir rt))"
  shows "sum_list (map2 (mutations_for (is_action (ai_operations (rt_ir rt))) key dg) L runs) \<le> executions key L dg"
  using assms(1)
proof (induction L runs rule: list_all2_induct)
  case (Cons e L evs runs)
  have "mutations_for (is_action (ai_operations (rt_ir rt))) key dg e evs \<le> executions key [e] dg"
  proof (cases e)
    case (Executed h d x ctx)
    then obtain outcome where "commit_run rt (def_capability d) x ctx evs outcome" using Cons.hyps(1) by auto
    from commit_run_counts [OF this assms(2,3)] show ?thesis by (simp add: Executed executions_def)
  qed simp
  moreover have "executions key (e # L) dg = executions key [e] dg + executions key L dg" by (simp add: executions_def)
  ultimately show ?case using Cons.IH by simp
qed (simp add: executions_def)

end
