(* ===== verification/ActionExamples.thy ===== *)
theory ActionExamples
  imports ProviderCalls Examples
begin

text \<open>
  A compiled Action: cancel an order that the preview reads. Its commit branches on the sealed preview,
  each branch with one mutation; it is loaded with its proof and run to the end.
\<close>

section \<open>The documents\<close>

definition order_http :: "safety \<Rightarrow> string \<Rightarrow> http_operation" where
  "order_http s scope =
     \<lparr>http_method = POST, http_path = ''/orders'', path_parameters = [], query_parameters = [], http_request = None,
      http_success = \<lparr>statuses = [200], success_body = BodyJson\<rparr>, http_scopes = [scope], timeout_seconds = 5,
      max_response_bytes = 1000, http_safety = s, unsafe_read_evidence = None\<rparr>"

definition cancel_safety :: safety where
  "cancel_safety =
     \<lparr>effect_of = Update, risk_of = Medium, reversibility_of = Reversible, retry_of = RetryNever,
      idempotency_of = IdemSourceKey (HeaderTarget ''Idempotency-Key''),
      concurrency_of = ConcRequired (BodyToken ''/version'') (HeaderTarget ''If-Match'')\<rparr>"

definition get_order :: operation where
  "get_order = (demo_operation ''orders.get'')\<lparr>http_contract := order_http (http_safety (http_contract (demo_operation ''a''))) ''orders:read''\<rparr>"

definition cancel_evidence :: evidence where
  "cancel_evidence =
     \<lparr>ev_source = ''app'', ev_kind = None, ev_path = Some ''app.py'', ev_line_start = None, ev_line_end = None,
      ev_json_pointer = None, ev_openapi = None, ev_locator = None, ev_summary = None, ev_digest = ''d''\<rparr>"

definition cancel_order :: operation where
  "cancel_order =
     \<lparr>op_id = ''orders.cancel'', op_kind = ActionKind, op_input_schema = JObj [], op_output_schema = JObj [],
      http_contract = order_http cancel_safety ''orders:write'', context_bindings = [], op_evidence = [cancel_evidence]\<rparr>"

definition cancel_contract :: action_contract where
  "cancel_contract =
     \<lparr>execution_mode = Single, approval_mode_required = False, expires_in_seconds = 600, local_development_state_guard = None\<rparr>"

definition cancel_preview :: "step list" where
  "cancel_preview =
     [CallStep (Some ''order'') ''orders.get'' [(''id'', JStr ''$.input.id'')], EmitStep None (JStr ''$.steps.order'')]"

definition cancel_commit :: "step list" where
  "cancel_commit =
     [BranchStep (Some ''cancelled'') (CondRef ''$.prepared.preview.urgent'')
        [CallStep None ''orders.cancel'' [(''id'', JStr ''$.prepared.input.id''), (''now'', JBool True)]]
        [CallStep None ''orders.cancel'' [(''id'', JStr ''$.prepared.input.id'')]],
      EmitStep None (JStr ''$.steps.cancelled'')]"

definition cancel_capability :: capability where
  "cancel_capability =
     \<lparr>cap_id = ''order.cancel'', cap_title = ''Cancel an order'', cap_input_schema = JObj [], cap_output_schema = JObj [],
      cap_policy = ''orders'', cap_body = ActionBody cancel_contract cancel_preview cancel_commit\<rparr>"

definition order_policy :: policy where
  "order_policy =
     \<lparr>policy_id = ''orders'', required_scopes = [], tenant_mode = TenantNone, tenant_field = None,
      readable_fields = [''id'', ''version'', ''urgent'', ''state''], denied_fields = [], redaction_rules = []\<rparr>"

definition cancel_semantics :: action_semantics where
  "cancel_semantics =
     \<lparr>sem_method = POST, sem_safety = cancel_safety, sem_outcome = Some OutcomeSynchronous,
      sem_evidence = cancel_evidence, sem_authority = ContractAuthority, sem_provenance = []\<rparr>"

definition cancel_summary :: json where
  "cancel_summary = JObj [(''operation_id'', JStr ''orders.cancel'')]"

section \<open>The runtime\<close>

definition order_operation_json :: "operation \<Rightarrow> (string, json) dict" where
  "order_operation_json oper =
     [(''id'', JStr (op_id oper)), (''input_schema'', JObj []), (''output_schema'', JObj [])]"

definition proved_cancel :: "(string, json) dict" where
  "proved_cancel =
     [(''approval_required'', JBool False), (''effects'', JArr [JStr ''update'']), (''maximum_risk'', JStr ''medium''),
      (''mutation_operation_ids'', JArr [JStr ''orders.cancel'']),
      (''operation_semantics'', JObj []),
      (''required_scopes'', JArr [JStr ''orders:read'', JStr ''orders:write''])]"

definition attested_cancel :: json where
  "attested_cancel =
     JObj [(''summary'', cancel_summary), (''digest'', JStr (''sha256:'' @ the (json_digest demo_crypto cancel_summary)))]"

definition order_ir :: action_ir where
  "order_ir =
     \<lparr>ai_version = ''2'', ai_project = ''shop'', ai_allowlist = [],
      ai_operations = [(''orders.get'', get_order), (''orders.cancel'', cancel_order)],
      ai_capabilities = [(''order.cancel'',
        \<lparr>cc_definition = cancel_capability, cc_proof = proved_cancel,
         cc_semantics = [(''orders.cancel'', attested_cancel)], cc_dependencies = []\<rparr>)],
      ai_policies = [(''orders'', order_policy)]\<rparr>"

definition order_runtime :: action_runtime where
  "order_runtime =
     \<lparr>rt_ir = order_ir, rt_valid = (\<lambda>_ _. True), rt_check = (\<lambda>_. True), rt_crypto = demo_crypto,
      rt_dump_operation = order_operation_json,
      rt_dump_capability = (\<lambda>c. [(''id'', JStr (cap_id c)), (''output_schema'', cap_output_schema c)]),
      rt_dump_semantics = (\<lambda>_. cancel_summary), rt_parse_semantics = (\<lambda>_. Some cancel_semantics),
      rt_sandbox = SandboxDisabled, rt_lock = None\<rparr>"

definition order_context :: principal_context where
  "order_context =
     \<lparr>principal_id = ''alice'', gateway_session_id = None, target_system_id = ''shop'', source_scopes = None,
      scope_ceiling = {''orders:read'', ''orders:write''}, effective_scopes = {''orders:read'', ''orders:write''},
      tenant_context = None, auth_state_handle = ''auth''\<rparr>"

definition cancel_execution :: commit_execution where
  "cancel_execution =
     \<lparr>ex_input = JObj [(''id'', JInt 5)], ex_preview = JObj [(''id'', JInt 5), (''urgent'', JBool True), (''version'', JInt 7)],
      ex_token = JInt 7, ex_key = ''key-1'', ex_terminal = False, ex_result = JNull\<rparr>"

definition cancel_proof :: action_proof where
  "cancel_proof =
     \<lparr>proof_ok = True, mutation_operation_ids = [''orders.cancel''], proof_effects = [Update], maximum_risk = Some Medium,
      proof_scopes = [''orders:read'', ''orders:write''], approval_required = False\<rparr>"

definition loaded_cancel :: loaded_action where
  "loaded_cancel =
     \<lparr>l_capability = cancel_capability, l_contract = cancel_contract, l_preview = cancel_preview, l_commit = cancel_commit,
      l_operations = ai_operations order_ir, l_proof = cancel_proof, l_policy = order_policy, l_project = ''shop'',
      l_allowlist = [], l_semantics = [(''orders.cancel'', cancel_semantics)]\<rparr>"

definition order_reply :: "string \<Rightarrow> (string, json) dict \<Rightarrow> json \<Rightarrow> call_reply" where
  "order_reply oid op args =
     Replied (JObj [(''id'', JInt 5), (''urgent'', JBool True), (''version'', JInt 7)])"

lemma load_cancel: "load order_runtime cancel_capability order_context = Inr loaded_cancel"
  by code_simp

lemma order_facts:
  "dump_keeps_id order_runtime" "ids_plain (ai_operations (rt_ir order_runtime))"
  by (simp_all add: dump_keeps_id_def order_runtime_def order_operation_json_def ids_plain_def order_ir_def dkeys_def)

lemma cancel_facts: "proved loaded_cancel" "ids_plain (l_operations loaded_cancel)"
  "l_operations loaded_cancel = ai_operations (rt_ir order_runtime)" "outcome_query loaded_cancel oid = None"
  "local_development_state_guard (l_contract loaded_cancel) = None"
proof -
  show "proved loaded_cancel" "l_operations loaded_cancel = ai_operations (rt_ir order_runtime)"
    by (rule load_proved [OF load_cancel])+
  with order_facts(2) show "ids_plain (l_operations loaded_cancel)" by simp
  show "outcome_query loaded_cancel oid = None" by (simp add: outcome_query_def loaded_cancel_def cancel_semantics_def)
  show "local_development_state_guard (l_contract loaded_cancel) = None" by (simp add: loaded_cancel_def cancel_contract_def)
qed

section \<open>Runs\<close>

definition cancelled :: json where
  "cancelled = JObj [(''id'', JInt 5), (''urgent'', JBool True), (''version'', JInt 7)]"

lemma cancel_disclosed: "disclosed order_runtime loaded_cancel (ex_preview cancel_execution) = Inr cancelled"
  "publish order_runtime loaded_cancel cancelled = Inr cancelled"
  by code_simp+

lemma cancel_evaluates:
  "evaluate_proc order_reply (mutation_process order_runtime loaded_cancel order_context cancel_execution) = Inr cancelled"
  by code_simp

lemma process_runs:
  assumes "holds_workflow ir cid ss operations"
  shows "\<exists>evs n r os. exec_run (through_caller rt ac (execute env ir cid input), []) evs n (Finished r, os) \<and>
    answered (\<lambda>oid op args r. r = f oid op args) evs"
  by (rule run_to_end [OF through_weighs [OF execute_weighs [OF assms]]])

lemma cancel_runs:
  "\<exists>evs n os. exec_run (mutation_process order_runtime loaded_cancel order_context cancel_execution, []) evs n
      (Finished (Inr cancelled), os)"
proof -
  from process_runs [OF holds_workflow_ir] obtain evs n r os where
    r: "exec_run (mutation_process order_runtime loaded_cancel order_context cancel_execution, []) evs n (Finished r, os)"
    "answered (\<lambda>oid op args r. r = order_reply oid op args) evs" unfolding mutation_process_def by blast
  from run_agrees [OF r, of cancelled] cancel_evaluates r(1) show ?thesis by blast
qed

lemma cancel_commits:
  "\<exists>evs. commit_run order_runtime cancel_capability cancel_execution order_context evs (Some (Inr cancelled)) \<and>
     mutation_run order_runtime loaded_cancel order_context cancel_execution evs (Some (Inr cancelled))"
proof -
  from cancel_runs obtain evs n os where
    r: "exec_run (mutation_process order_runtime loaded_cancel order_context cancel_execution, []) evs n
      (Finished (Inr cancelled), os)" by blast
  from mutation_process_exact [OF r cancel_facts(1) order_facts(1) cancel_facts(2)]
  obtain oid where "mutated_ids loaded_cancel evs = [oid]" by blast
  then have m: "mutation_run order_runtime loaded_cancel order_context cancel_execution evs (Some (Inr cancelled))"
    using mutation_run.settled [OF _ cancel_disclosed(1) r _ cancel_facts(4)] cancel_disclosed(2)
    by (simp add: cancel_execution_def)
  with commit_run.unguarded [OF load_cancel cancel_facts(5)] show ?thesis by blast
qed

lemma cancel_previews:
  "\<exists>evs outcome. preview_run order_runtime loaded_cancel order_context [(''id'', JInt 5)] evs (Some outcome)"
proof -
  from process_runs [OF holds_workflow_ir] obtain evs n r os where
    r: "exec_run (preview_process order_runtime loaded_cancel order_context [(''id'', JInt 5)], []) evs n (Finished r, os)"
    unfolding preview_process_def by blast
  show ?thesis
  proof (cases r)
    case (Inl e)
    with r preview_run.failed show ?thesis by blast
  next
    case (Inr raw)
    have "headers_fit evs (replicate (length (filter answered_call evs)) [])" by (simp add: headers_fit_def)
    with preview_run.previewed r Inr show ?thesis by blast
  qed
qed

text \<open>A boundary over this capability, prepared and committed once.\<close>

definition cancel_definition :: compiled_definition where
  "cancel_definition = \<lparr>def_capability = cancel_capability, def_proof = cancel_proof\<rparr>"

lemma cancel_verified: "verified_definition order_runtime ''order.cancel'' = Inr cancel_definition"
  by code_simp

definition cancel_coordinator :: coordinator where
  "cancel_coordinator = demo_coordinator\<lparr>co_definitions := [(''order.cancel'', cancel_definition)]\<rparr>"

definition cancel_schedule :: "event list" where
  "cancel_schedule =
     [Begin (PrepareRequest ''order.cancel'' [(''id'', JInt 5)] order_context),
      Answer 0 (PreviewReply (Inr \<lparr>pe_value = ex_preview cancel_execution, pe_token = JInt 7, pe_token_required = Some True,
        pe_terminal = False, pe_result = JNull\<rparr>)), Answer 0 (KeyReply (Inr ''key-1'')), Answer 0 (at_time 0), Answer 0 (at_time 0),
      Begin (CommitRequest demo_handle order_context), Answer 1 (at_time 1), Answer 1 (at_time 2), Answer 1 (at_time 2),
      Answer 1 (ExecuteReply (Inr cancelled)), Answer 1 (at_time 3)]"

definition cancel_end :: "(memory_store, memory_authority) system" where
  "cancel_end = run_schedule demo_env cancel_coordinator (memory_services demo_crypto)
     (fresh_system demo_store demo_authority) cancel_schedule"

lemma cancel_log: "w_log (s_world cancel_end) = [Executed demo_handle cancel_definition cancel_execution order_context]"
  by code_simp

lemma cancel_definition_capability: "def_capability cancel_definition = cancel_capability"
  by (simp add: cancel_definition_def)

lemma cancel_coordinator_ok: "coordinator_ok cancel_coordinator"
  by (simp add: coordinator_ok_def cancel_coordinator_def demo_coordinator_def cancel_definition_capability cancel_capability_def)

section \<open>Where two passes over the same data disagree\<close>

text \<open>
  An Operation whose identifier starts like a prepared reference is called under another name than the
  one that was proved, so the theorems on runs assume \<open>ids_plain\<close>. A field redacted by hashing that
  is disclosed twice, as after a status query, is hashed twice. A tenant field written as a JSON
  pointer is injected under a key of that text and looked up as a path.
\<close>

lemma prepared_id_rewritten: "rewrite_prepared (JStr ''$.prepared.cancel'') = JStr ''$.input.prepared.cancel''"
  by code_simp

definition hashing_policy :: policy where
  "hashing_policy = order_policy\<lparr>redaction_rules := [\<lparr>rule_path = ''id'', rule_strategy = HashField\<rparr>]\<rparr>"

lemma hashed_twice:
  "rbind (filter_output demo_crypto hashing_policy (JObj [(''id'', JInt 42)])) (filter_output demo_crypto hashing_policy) \<noteq>
     filter_output demo_crypto hashing_policy (JObj [(''id'', JInt 42)])"
  by code_simp

definition pointer_policy :: policy where
  "pointer_policy = order_policy\<lparr>tenant_mode := TenantRequired, tenant_field := Some ''/account/id''\<rparr>"

lemma pointer_tenant_denied:
  "rbind (inject_context_value [] ''/account/id'' (JInt 7))
     (\<lambda>d. case authorize pointer_policy {} (JObj d) (Some (JInt 7)) of Inl e \<Rightarrow> Inr e | Inr _ \<Rightarrow> Inl CallerMisconfigured) =
   Inr PolicyTenantDenied"
  by code_simp

end
