(* ===== verification/PointerGuarantee.thy ===== *)
theory PointerGuarantee
  imports ActionRuntime SchemaContainment
begin

text \<open>
  What \<open>_schema_pointer_is_guaranteed\<close> promises to \<open>_resolve_json_pointer\<close>: a pointer that the compiler
  finds guaranteed in a schema resolves in every value the schema accepts, to a value that the schema
  at the pointer accepts. The promise needs a schema whose objects name the type they constrain:
  \<open>required\<close> without \<open>type\<close> says nothing of a string (\<open>guarantee_needs_type\<close>).
\<close>

section \<open>Schemas that name their types\<close>

definition typed :: "(string, json) dict \<Rightarrow> bool" where
  "typed s \<longleftrightarrow>
     (dget s ''required'' \<noteq> None \<longrightarrow> dget s ''type'' \<in> Some ` JStr ` {''object'', ''array''})"

definition guarantee_ok :: "json \<Rightarrow> bool" where
  "guarantee_ok s \<longleftrightarrow> schema_ok s \<and> every_schema typed s \<and> \<not> contains_reference s"

lemma guarantee_ok_typed: "guarantee_ok (JObj s) \<Longrightarrow> typed s"
  by (simp add: guarantee_ok_def every_schema_JObj)

lemma guarantee_ok_subschema:
  assumes "guarantee_ok (JObj s)" "b \<in> set (subschemas s)"
  shows "guarantee_ok b"
proof -
  have "\<not> contains_reference b"
  proof (rule subschema_closed [OF assms(2), where P = "\<lambda>v. \<not> contains_reference v"])
    show "\<not> contains_reference v" if "dget s k = Some v" for k v
      using assms(1) that no_reference_field unfolding guarantee_ok_def by blast
  qed auto
  with assms show ?thesis by (simp add: guarantee_ok_def schema_ok_def every_schema_JObj)
qed

lemma property_schema_Some:
  "property_schema s t = Some p \<longleftrightarrow>
     (\<exists>ps fs. dget s ''properties'' = Some (JObj ps) \<and> dget ps t = Some (JObj fs) \<and> p = JObj fs)"
  by (auto simp: property_schema_def split: option.splits json.splits)

lemma items_schema_Some:
  "items_schema s = Some p \<longleftrightarrow> (\<exists>fs. dget s ''items'' = Some (JObj fs) \<and> p = JObj fs)"
  by (auto simp: items_schema_def split: option.splits json.splits)

lemma schema_child_subschema:
  assumes "schema_child s t = Some p"
  shows "p \<in> set (subschemas s)"
  using assms unfolding schema_child_def subschemas_iff
  by (auto simp: property_schema_Some items_schema_Some properties_of_Some dest: dget_in_set split: if_splits)
    (metis dget_in_set image_eqI snd_conv)

lemma dereference_plain:
  assumes "guarantee_ok v" "dereference_schema r [] v = Some s"
  shows "v = JObj s"
proof -
  obtain fs where "v = JObj fs" using assms(2) by (subst (asm) dereference_schema.simps) (cases v; simp)
  moreover from this have "dget fs ''$ref'' = None" using assms(1) by (simp add: guarantee_ok_def dget_None_iff dkeys_def)
  ultimately show ?thesis using assms(2) by (simp add: dereference_schema.simps)
qed

text \<open>Guarantees only refuse: the schema at a guaranteed pointer is the schema there.\<close>

lemma walk_unguarded: "schema_walk True r c ts = Some s \<Longrightarrow> schema_walk False r c ts = Some s"
  by (induction ts arbitrary: c) (auto split: option.splits if_splits)

section \<open>One token\<close>

lemma strings_in_member: "strings_in vs = Some ns \<Longrightarrow> JStr t \<in> set vs \<Longrightarrow> t \<in> set ns"
  by (induction vs arbitrary: ns rule: strings_in.induct) (auto split: option.splits)

context schema_validator
begin

lemma guaranteed_item:
  assumes ok: "guarantee_ok (JObj s)" and valid: "valid (JObj s) v"
    and type: "dget s ''type'' = Some (JStr ''array'')"
    and child: "schema_child s t = Some p" "child_guaranteed s t"
  shows "\<exists>w. resolve_tokens v (t # ts) = resolve_tokens w ts \<and> valid p w"
proof -
  have holds: "keywords_hold valid s v" using valid_object ok valid by (simp add: guarantee_ok_def)
  then have "type_holds ''array'' v" using type by (simp add: keywords_hold_def schema_types_def)
  then obtain xs where v: "v = JArr xs" by (cases v) auto
  obtain n where n: "dget s ''minItems'' = Some (JInt n)" "int (index_value t) < n"
    using child(2) type by (auto simp: child_guaranteed_def split: option.splits json.splits)
  have p: "index_token t" "dget s ''items'' = Some p"
    using child(1) type by (auto simp: schema_child_def items_schema_Some split: if_splits)
  have parts: "parts_hold valid s (JArr xs)" using holds v by (simp add: keywords_hold_def)
  then have "rat_of_int n \<le> of_nat (length xs)" using n(1) by (auto simp: number_field_def float_le_def)
  then have "n \<le> int (length xs)" by (simp flip: of_int_le_iff [where 'a = rat])
  with n(2) have len: "index_value t < length xs" by linarith
  have "additional s ''items'' = p" using p(2) by (simp add: additional_def node_or_true_def)
  then have "valid p (xs ! index_value t)" using parts len by (simp add: list_all_length)
  with v p(1) len show ?thesis by auto
qed

lemma guaranteed_property:
  assumes ok: "guarantee_ok (JObj s)" and valid: "valid (JObj s) v"
    and type: "dget s ''type'' \<noteq> Some (JStr ''array'')"
    and child: "schema_child s t = Some p" "child_guaranteed s t"
  shows "\<exists>w. resolve_tokens v (t # ts) = resolve_tokens w ts \<and> valid p w"
proof -
  have holds: "keywords_hold valid s v" using valid_object ok valid by (simp add: guarantee_ok_def)
  obtain names where names: "dget s ''required'' = Some (JArr names)" "JStr t \<in> set names"
    using child(2) type by (auto simp: child_guaranteed_def split: option.splits json.splits)
  then have "dget s ''type'' = Some (JStr ''object'')"
    using guarantee_ok_typed [OF ok] type by (auto simp: typed_def)
  then have "type_holds ''object'' v" using holds by (simp add: keywords_hold_def schema_types_def)
  then obtain fs where v: "v = JObj fs" by (cases v) auto
  obtain ps where ps: "properties_of s = Some ps" "dget ps t = Some p"
    using child(1) type by (auto simp: schema_child_def property_schema_Some properties_of_Some)
  have parts: "parts_hold valid s (JObj fs)" using holds v by (simp add: keywords_hold_def)
  obtain ns where ns: "strings_in names = Some ns"
    using ok names(1) by (auto simp: guarantee_ok_def schema_ok_def every_schema_JObj keyword_forms_ok_def)
  then have "t \<in> set (dkeys fs)" using parts names by (auto simp: strings_in_member)
  then obtain w where w: "dget fs t = Some w" by (cases "dget fs t") (auto simp: dget_None_iff dkeys_def)
  then have "valid p w" using parts ps dget_in_set [OF w] by (auto simp: list_all_iff)
  with v w show ?thesis by auto
qed

lemmas guaranteed_child = guaranteed_item guaranteed_property

section \<open>Pointers\<close>

lemma guaranteed_walk:
  assumes "schema_walk True r c ts = Some s" "guarantee_ok c" "valid c v"
  shows "\<exists>w. resolve_tokens v ts = Some w \<and> valid (JObj s) w"
  using assms
proof (induction ts arbitrary: c v)
  case Nil
  then show ?case using dereference_plain by force
next
  case (Cons t ts)
  obtain fs p where walk: "dereference_schema r [] c = Some fs" "schema_child fs t = Some p"
      "child_guaranteed fs t" "schema_walk True r p ts = Some s"
    using Cons.prems(1) by (auto split: option.splits if_splits)
  have c: "c = JObj fs" using dereference_plain [OF Cons.prems(2) walk(1)] .
  obtain w where "resolve_tokens v (t # ts) = resolve_tokens w ts" "valid p w"
    using guaranteed_child [OF _ _ _ walk(2,3)] Cons.prems(2,3) c by blast
  moreover have "guarantee_ok p" using guarantee_ok_subschema Cons.prems(2) schema_child_subschema walk(2) c by blast
  ultimately show ?case using Cons.IH [OF walk(4)] by simp
qed

lemma guaranteed_pointer:
  assumes "schema_pointer_is_guaranteed schema pointer" "prefix ''/'' pointer" "guarantee_ok schema" "valid schema v"
  shows "\<exists>s w. schema_at_data_pointer schema pointer = Some s \<and> resolve_json_pointer v pointer = Some w \<and> valid (JObj s) w"
proof -
  obtain s where s: "schema_walk True schema schema (pointer_tokens pointer) = Some s"
    using assms(1) by (auto simp: schema_pointer_is_guaranteed_def)
  have tokens: "map unescape_token (tl (split_on (CHR ''/'') pointer)) = pointer_tokens pointer"
    using assms(2) by (auto simp: pointer_tokens_def prefix_def)
  show ?thesis
    using guaranteed_walk [OF s assms(3,4)] walk_unguarded [OF s]
    by (simp add: schema_at_data_pointer_def resolve_json_pointer_def tokens)
qed

end

section \<open>An example\<close>

definition orders_schema :: json where
  "orders_schema = JObj
     [(''type'', JStr ''object''), (''required'', JArr [JStr ''a/b'']),
      (''properties'', JObj [(''a/b'', JObj
        [(''type'', JStr ''array''), (''minItems'', JInt 2),
         (''items'', JObj [(''type'', JStr ''object''), (''required'', JArr [JStr ''id'']),
           (''properties'', JObj [(''id'', JObj [(''type'', JStr ''string'')])])])])])]"

definition orders :: json where
  "orders = JObj [(''a/b'', JArr [JObj [(''id'', JStr ''o-1'')], JObj [(''id'', JStr ''o-2'')]])]"

lemma orders_guarantee:
  "schema_pointer_is_guaranteed orders_schema ''/a~1b/1/id'' \<and> \<not> schema_pointer_is_guaranteed orders_schema ''/a~1b/2/id''"
  by code_simp

lemma orders_ok: "guarantee_ok orders_schema"
  unfolding guarantee_ok_def by code_simp

lemma orders_valid: "reference_valid orders_schema orders"
  by code_simp

lemma orders_id: "resolve_json_pointer orders ''/a~1b/1/id'' = Some (JStr ''o-2'')"
  by code_simp

section \<open>Without a type\<close>

definition untyped_schema :: json where
  "untyped_schema = JObj [(''properties'', JObj [(''id'', JObj [])]), (''required'', JArr [JStr ''id''])]"

lemma guarantee_needs_type:
  assumes "schema_validator valid"
  shows "schema_pointer_is_guaranteed untyped_schema ''/id'' \<and> valid untyped_schema (JStr ''text'') \<and>
    resolve_json_pointer (JStr ''text'') ''/id'' = None"
proof -
  have "schema_ok untyped_schema \<and> \<not> contains_reference untyped_schema" by (simp add: untyped_schema_def) code_simp
  then have "valid untyped_schema (JStr ''text'')"
    using schema_validator.valid_object [OF assms] by (simp add: untyped_schema_def) code_simp
  then show ?thesis by simp code_simp
qed

end
