(* ===== verification/Interactions.thy ===== *)
theory Interactions
  imports ActionProof Callability
begin

text \<open>
  The interaction manifest of a pack, in \<^verbatim>\<open>acc_runtime/runtime.py\<close>: its verification when a runtime is
  built (\<open>_load_interactions\<close>) and the public defaults read from it, which the runtime fills into the
  arguments of a call. Every failure of the verification is one configuration error, \<open>None\<close> here.
\<close>

section \<open>The inventory\<close>

text \<open>\<open>_validate_sorted_unique_ids\<close>, \<open>_is_sha256\<close>\<close>

definition sorted_unique_ids :: "json \<Rightarrow> string list option" where
  "sorted_unique_ids v =
     (case v of
        JArr xs \<Rightarrow>
          (case string_items xs of
             None \<Rightarrow> None
           | Some ids \<Rightarrow> if sorted ids \<and> distinct ids then Some ids else None)
      | _ \<Rightarrow> None)"

fun is_sha256 :: "json \<Rightarrow> bool" where
  "is_sha256 (JStr s) = is_digest s"
| "is_sha256 _ = False"

definition declared_inventory_fields :: "string list" where
  "declared_inventory_fields =
     [''evidence_sha256'', ''dimension_dispositions'', ''interaction_ids'', ''scope_mode'', ''sidecar_sha256'',
      ''status'', ''summary'', ''surface_ids'', ''surface_contexts'']"

definition valid_dimensions :: "string list" where
  "valid_dimensions =
     [''conditions'', ''defaults'', ''input_bindings'', ''option_sources'', ''related_data'', ''result_consumption'',
      ''states'']"

definition dispositions_ok :: "string list \<Rightarrow> json \<Rightarrow> bool" where
  "dispositions_ok ids v =
     (case v of
        JObj ds \<Rightarrow>
          set (dkeys ds) = set ids \<and>
          list_all (\<lambda>i. case dget ds i of
              Some (JObj es) \<Rightarrow>
                list_all (\<lambda>(k, a). k \<in> set valid_dimensions \<and> a \<in> {JStr ''applicable'', JStr ''not_applicable''}) es
            | _ \<Rightarrow> False) ids
      | _ \<Rightarrow> False)"

definition surface_context_ok :: "json \<Rightarrow> bool" where
  "surface_context_ok v =
     (case v of
        JObj c \<Rightarrow>
          set (dkeys c) = {''kind'', ''route_or_entry'', ''usage_context''} \<and>
          is_field_name (get_or_null c ''kind'') \<and> is_field_name (get_or_null c ''route_or_entry'') \<and>
          (get_or_null c ''usage_context'' = JNull \<or> is_field_name (get_or_null c ''usage_context''))
      | _ \<Rightarrow> False)"

definition surface_contexts_ok :: "string list \<Rightarrow> json \<Rightarrow> bool" where
  "surface_contexts_ok ids v =
     (case v of
        JObj cs \<Rightarrow>
          set (dkeys cs) = set ids \<and>
          list_all (\<lambda>i. case dget cs i of None \<Rightarrow> False | Some c \<Rightarrow> surface_context_ok c) ids
      | _ \<Rightarrow> False)"

definition summary_ok :: "bool \<Rightarrow> nat \<Rightarrow> nat \<Rightarrow> json \<Rightarrow> bool" where
  "summary_ok no_scope interactions surfaces v =
     (case v of
        JObj s \<Rightarrow>
          set (dkeys s) = {''interactions'', ''surfaces'', ''unresolved''} \<and>
          (case get_or_null s ''unresolved'' of
             JInt u \<Rightarrow>
               0 \<le> u \<and> get_or_null s ''interactions'' = JInt (int interactions) \<and>
               get_or_null s ''surfaces'' = JInt (int surfaces) \<and>
               \<not> (no_scope \<and> (interactions \<noteq> 0 \<or> surfaces \<noteq> 0 \<or> u \<noteq> 0))
           | _ \<Rightarrow> False)
      | _ \<Rightarrow> False)"

text \<open>\<open>_validate_interaction_inventory\<close>\<close>

definition interaction_inventory_ok :: "json \<Rightarrow> bool" where
  "interaction_inventory_ok v =
     (case v of
        JObj fs \<Rightarrow>
          if get_or_null fs ''status'' = JStr ''not_declared'' then set (dkeys fs) = {''status''}
          else
            get_or_null fs ''status'' = JStr ''declared'' \<and> set (dkeys fs) = set declared_inventory_fields \<and>
            is_sha256 (get_or_null fs ''evidence_sha256'') \<and> is_sha256 (get_or_null fs ''sidecar_sha256'') \<and>
            get_or_null fs ''scope_mode'' \<in> {JStr ''none'', JStr ''discovered'', JStr ''complete''} \<and>
            (case (sorted_unique_ids (get_or_null fs ''interaction_ids''), sorted_unique_ids (get_or_null fs ''surface_ids'')) of
               (Some is, Some ss) \<Rightarrow>
                 dispositions_ok is (get_or_null fs ''dimension_dispositions'') \<and>
                 surface_contexts_ok ss (get_or_null fs ''surface_contexts'') \<and>
                 summary_ok (get_or_null fs ''scope_mode'' = JStr ''none'') (length is) (length ss) (get_or_null fs ''summary'')
             | _ \<Rightarrow> False)
      | _ \<Rightarrow> False)"

section \<open>Pointers\<close>

text \<open>\<open>_json_pointer_tokens\<close>: strict escapes, and no empty token.\<close>

fun escapes_ok :: "string \<Rightarrow> bool" where
  "escapes_ok [] = True"
| "escapes_ok (c # cs) =
     (if c = CHR ''~''
      then (case cs of [] \<Rightarrow> False | d # ds \<Rightarrow> (d = CHR ''0'' \<or> d = CHR ''1'') \<and> escapes_ok ds)
      else escapes_ok cs)"

definition strict_pointer_tokens :: "string \<Rightarrow> string list option" where
  "strict_pointer_tokens pointer =
     (if \<not> prefix ''/'' pointer then None
      else
        (let raw = split_on (CHR ''/'') (drop 1 pointer); tokens = map unescape_token raw
         in if list_all escapes_ok raw \<and> list_all (\<lambda>t. t \<noteq> []) tokens then Some tokens else None))"

definition non_asserting_ref_siblings :: "string list" where
  "non_asserting_ref_siblings =
     [''$anchor'', ''$comment'', ''$defs'', ''$id'', ''$schema'', ''default'', ''deprecated'', ''description'', ''examples'',
      ''readOnly'', ''title'', ''writeOnly'']"

text \<open>\<open>_resolve_local_schema_reference\<close>; the loop makes at most 64 rounds.\<close>

fun local_schema_reference ::
    "nat \<Rightarrow> string list \<Rightarrow> (string, json) dict \<Rightarrow> (string, json) dict \<Rightarrow> (string, json) dict option" where
  "local_schema_reference 0 visited root_schema current = None"
| "local_schema_reference (Suc n) visited root_schema current =
     (case get_or_null current ''$ref'' of
        JNull \<Rightarrow> Some current
      | JStr r \<Rightarrow>
          if \<not> prefix ''#/'' r \<or> r \<in> set visited \<or>
             list_ex (\<lambda>k. k \<noteq> ''$ref'' \<and> k \<notin> set non_asserting_ref_siblings) (dkeys current)
          then None
          else
            (case Option.bind (strict_pointer_tokens (drop 1 r)) (lookup_path (JObj root_schema)) of
               Some (JObj target) \<Rightarrow> local_schema_reference n (r # visited) root_schema target
             | _ \<Rightarrow> None)
      | _ \<Rightarrow> None)"

text \<open>\<open>_validate_public_default_target\<close>\<close>

fun default_target_ok :: "(string, json) dict \<Rightarrow> (string, json) dict \<Rightarrow> string list \<Rightarrow> bool" where
  "default_target_ok root_schema current [] \<longleftrightarrow> local_schema_reference 64 [] root_schema current \<noteq> None"
| "default_target_ok root_schema current (t # ts) =
     (case local_schema_reference 64 [] root_schema current of
        None \<Rightarrow> False
      | Some c \<Rightarrow>
          get_or_null c ''type'' \<noteq> JStr ''array'' \<and> dget c ''items'' = None \<and>
          (case property_schema c t of Some (JObj s) \<Rightarrow> default_target_ok root_schema s ts | _ \<Rightarrow> False))"

definition input_schema_of :: "(string, json) dict \<Rightarrow> string \<Rightarrow> (string, json) dict option" where
  "input_schema_of capabilities cid =
     (case Option.bind (Option.bind (dget capabilities cid) (\<lambda>c. jget c ''definition'')) (\<lambda>d. jget d ''input_schema'') of
        Some (JObj s) \<Rightarrow> Some s
      | _ \<Rightarrow> None)"

section \<open>The manifest\<close>

type_synonym public_default = "string list \<times> json"

definition parse_default :: "(string, json) dict \<Rightarrow> string list list \<Rightarrow> json \<Rightarrow> public_default option" where
  "parse_default schema seen v =
     (case v of
        JObj d \<Rightarrow>
          if set (dkeys d) \<noteq> {''id'', ''source_kind'', ''target_pointer'', ''value''} \<or>
             \<not> is_field_name (get_or_null d ''id'') \<or> get_or_null d ''source_kind'' \<noteq> JStr ''literal''
          then None
          else
            (case get_or_null d ''target_pointer'' of
               JStr pointer \<Rightarrow>
                 (case strict_pointer_tokens pointer of
                    None \<Rightarrow> None
                  | Some ts \<Rightarrow>
                      if ts \<in> set seen \<or> \<not> default_target_ok schema schema ts \<or> \<not> json_finite (get_or_null d ''value'')
                      then None
                      else Some (ts, get_or_null d ''value''))
             | _ \<Rightarrow> None)
      | _ \<Rightarrow> None)"

fun parse_defaults :: "(string, json) dict \<Rightarrow> string list list \<Rightarrow> json list \<Rightarrow> public_default list option" where
  "parse_defaults schema seen [] = Some []"
| "parse_defaults schema seen (v # vs) =
     (case parse_default schema seen v of
        None \<Rightarrow> None
      | Some d \<Rightarrow> map_option ((#) d) (parse_defaults schema (fst d # seen) vs))"

definition interaction_contract_fields :: "string list" where
  "interaction_contract_fields =
     [''action_lifecycle'', ''capability_id'', ''conditions'', ''defaults'', ''inherited_interactions'', ''interaction_ids'',
      ''omitted_interaction_ids'', ''option_sources'', ''overridden_interaction_ids'', ''public_input_bindings'',
      ''related_data'', ''required_scenarios'', ''result_consumption'', ''sidecar_sha256'']"

definition parse_contract ::
    "(string, json) dict \<Rightarrow> string \<times> json \<Rightarrow> (string \<times> public_default list) option" where
  "parse_contract capabilities entry =
     (case snd entry of
        JObj c \<Rightarrow>
          if fst entry = [] \<or> set (dkeys c) \<noteq> set interaction_contract_fields \<or>
             get_or_null c ''capability_id'' \<noteq> JStr (fst entry) \<or> dget capabilities (fst entry) = None
          then None
          else
            (case get_or_null c ''defaults'' of
               JArr ds \<Rightarrow>
                 (if ds = [] then Some (fst entry, [])
                  else (case input_schema_of capabilities (fst entry) of
                          None \<Rightarrow> None
                        | Some s \<Rightarrow> map_option (Pair (fst entry)) (parse_defaults s [] ds)))
             | _ \<Rightarrow> None)
      | _ \<Rightarrow> None)"

fun parse_contracts ::
    "(string, json) dict \<Rightarrow> (string, json) dict \<Rightarrow> (string, public_default list) dict option" where
  "parse_contracts capabilities [] = Some []"
| "parse_contracts capabilities (e # es) =
     (case parse_contract capabilities e of
        None \<Rightarrow> None
      | Some c \<Rightarrow> map_option ((#) c) (parse_contracts capabilities es))"

text \<open>The edges, pairs of capabilities: sorted as Python sorts tuples of strings.\<close>

fun dependency_edge :: "json \<Rightarrow> string list option" where
  "dependency_edge (JArr [a, b]) = string_items [a, b]"
| "dependency_edge _ = None"

definition dependencies_ok :: "(string, json) dict \<Rightarrow> json \<Rightarrow> bool" where
  "dependencies_ok capabilities v =
     (case v of
        JArr es \<Rightarrow>
          list_all (\<lambda>e. dependency_edge e \<noteq> None) es \<and>
          (let edges = map (\<lambda>e. the (dependency_edge e)) es
           in sorted edges \<and> distinct edges \<and> list_all (list_all (\<lambda>i. dget capabilities i \<noteq> None)) edges)
      | _ \<Rightarrow> False)"

text \<open>\<open>_load_interactions\<close>: the verified manifest, its keys in order, and the defaults of each capability.\<close>

definition load_interactions ::
    "crypto \<Rightarrow> (string, json) dict \<Rightarrow> (json \<times> (string, public_default list) dict) option" where
  "load_interactions cr ir =
     (case (get_or_null ir ''interactions'', get_or_null ir ''capabilities'') of
        (JObj raw, JObj capabilities) \<Rightarrow>
          if set (dkeys raw) \<noteq> {''schema_version'', ''digest'', ''inventory'', ''contracts'', ''dependencies''} \<or>
             get_or_null raw ''schema_version'' \<noteq> JStr ''2'' \<or> \<not> is_sha256 (get_or_null raw ''digest'') \<or>
             get_or_null ir ''interaction_sha256'' \<noteq> get_or_null raw ''digest'' \<or>
             map_option JStr (json_digest cr (JObj (dpop raw ''digest''))) \<noteq> dget raw ''digest'' \<or>
             \<not> interaction_inventory_ok (get_or_null raw ''inventory'') \<or>
             list_ex (\<lambda>k. k = []) (dkeys capabilities) \<or>
             \<not> dependencies_ok capabilities (get_or_null raw ''dependencies'')
          then None
          else
            (case get_or_null raw ''contracts'' of
               JObj contracts \<Rightarrow>
                 map_option (Pair (sort_keys (JObj raw))) (parse_contracts capabilities contracts)
             | _ \<Rightarrow> None)
      | _ \<Rightarrow> None)"

section \<open>Filling in\<close>

text \<open>\<open>_apply_public_defaults\<close>; the paths of loaded defaults are never empty.\<close>

fun default_at :: "(string, json) dict \<Rightarrow> string list \<Rightarrow> json \<Rightarrow> (string, json) dict" where
  "default_at d [] v = d"
| "default_at d [t] v = (if dget d t = None then dset d t v else d)"
| "default_at d (t # u # ts) v =
     (case dget d t of
        None \<Rightarrow> dset d t (JObj (default_at [] (u # ts) v))
      | Some (JObj c) \<Rightarrow> dset d t (JObj (default_at c (u # ts) v))
      | Some _ \<Rightarrow> d)"

definition apply_public_defaults :: "(string, json) dict \<Rightarrow> public_default list \<Rightarrow> (string, json) dict" where
  "apply_public_defaults arguments defaults = foldl (\<lambda>d (ts, v). default_at d ts v) arguments defaults"

section \<open>Defaults only fill gaps\<close>

lemma lookup_path_obj: "lookup_path (JObj d) (k # ks) = (case dget d k of None \<Rightarrow> None | Some w \<Rightarrow> lookup_path w ks)"
  by simp

lemma default_at_present: "lookup_path (JObj d) p \<noteq> None \<Longrightarrow> lookup_path (JObj (default_at d ts w)) p \<noteq> None"
proof (induction d ts w arbitrary: p rule: default_at.induct)
  case (2 d t v)
  then show ?case by (cases p) (auto split: option.splits)
next
  case (3 d t u ts v)
  show ?case
  proof (cases p)
    case (Cons k ks)
    show ?thesis
    proof (cases "dget d t")
      case (Some x)
      with 3 Cons show ?thesis by (cases x) (auto split: if_splits)
    qed (use 3 Cons in \<open>auto split: if_splits\<close>)
  qed simp
qed simp

text \<open>A value that is no object stays where it is.\<close>

lemma default_at_keeps:
  "lookup_path (JObj d) p = Some v \<Longrightarrow> \<not> is_JObj v \<Longrightarrow> lookup_path (JObj (default_at d ts w)) p = Some v"
proof (induction d ts w arbitrary: p rule: default_at.induct)
  case (2 d t w)
  then show ?case by (cases p) (auto split: option.splits)
next
  case (3 d t u ts w)
  then obtain k ks where p: "p = k # ks" by (cases p) auto
  show ?case
  proof (cases "dget d t")
    case (Some x)
    with 3 p show ?thesis by (cases x) (auto split: if_splits)
  qed (use 3 p in \<open>auto split: if_splits\<close>)
qed simp

definition from_default :: "string list \<Rightarrow> json \<Rightarrow> string list \<Rightarrow> json \<Rightarrow> bool" where
  "from_default ts w p v \<longleftrightarrow> (\<exists>q. p = ts @ q \<and> lookup_path w q = Some v)"

lemma default_at_new:
  "lookup_path (JObj (default_at d ts w)) p = Some v \<Longrightarrow> \<not> is_JObj v \<Longrightarrow>
     lookup_path (JObj d) p = Some v \<or> lookup_path (JObj d) p = None \<and> from_default ts w p v"
proof (induction d ts w arbitrary: p rule: default_at.induct)
  case (2 d t w)
  then show ?case by (cases p) (auto simp: from_default_def split: if_splits option.splits)
next
  case (3 d t u ts w)
  then obtain k ks where p: "p = k # ks" by (cases p) (auto split: option.splits json.splits)
  show ?case
  proof (cases "dget d t")
    case None
    show ?thesis
    proof (cases "k = t")
      case True
      with 3 p None have "lookup_path (JObj []) ks = Some v \<or> lookup_path (JObj []) ks = None \<and> from_default (u # ts) w ks v" by simp
      moreover have "lookup_path (JObj []) ks \<noteq> Some v" using 3(4) by (cases ks) auto
      ultimately show ?thesis using p True None by (auto simp: from_default_def)
    qed (use 3 p None in auto)
  next
    case (Some x)
    with 3 p show ?thesis by (cases x) (auto simp: from_default_def split: if_splits)
  qed
qed simp

lemma apply_public_defaults_Nil [simp]: "apply_public_defaults d [] = d"
  by (simp add: apply_public_defaults_def)

lemma apply_public_defaults_Cons [simp]:
  "apply_public_defaults d ((ts, w) # ds) = apply_public_defaults (default_at d ts w) ds"
  by (simp add: apply_public_defaults_def)

lemma apply_public_defaults_keeps:
  "lookup_path (JObj d) p = Some v \<Longrightarrow> \<not> is_JObj v \<Longrightarrow> lookup_path (JObj (apply_public_defaults d ds)) p = Some v"
proof (induction ds arbitrary: d)
  case (Cons e ds)
  then show ?case using default_at_keeps by (cases e) simp
qed simp

lemma apply_public_defaults_new:
  "lookup_path (JObj (apply_public_defaults d ds)) p = Some v \<Longrightarrow> \<not> is_JObj v \<Longrightarrow>
     lookup_path (JObj d) p = Some v \<or> lookup_path (JObj d) p = None \<and> (\<exists>(ts, w) \<in> set ds. from_default ts w p v)"
proof (induction ds arbitrary: d)
  case (Cons e ds)
  obtain ts w where e: "e = (ts, w)" by (cases e)
  with Cons have "lookup_path (JObj (default_at d ts w)) p = Some v \<or>
      lookup_path (JObj (default_at d ts w)) p = None \<and> (\<exists>(ts, w) \<in> set ds. from_default ts w p v)" by simp
  then show ?case
  proof
    assume "lookup_path (JObj (default_at d ts w)) p = Some v"
    from default_at_new [OF this Cons.prems(2)] e show ?thesis by auto
  next
    assume "lookup_path (JObj (default_at d ts w)) p = None \<and> (\<exists>(ts, w) \<in> set ds. from_default ts w p v)"
    with default_at_present [of d p ts w] show ?thesis by auto
  qed
qed simp

text \<open>The declared place is filled unless a value that is no object stands in the way.\<close>

lemma default_at_fills:
  "ts \<noteq> [] \<Longrightarrow> lookup_path (JObj (default_at d ts w)) ts \<noteq> None \<or>
     (\<exists>q x. strict_prefix q ts \<and> lookup_path (JObj d) q = Some x \<and> \<not> is_JObj x)"
proof (induction d ts w rule: default_at.induct)
  case (2 d t w)
  then show ?case by (auto split: option.splits)
next
  case (3 d t u ts w)
  show ?case
  proof (cases "dget d t")
    case None
    have "\<not> (\<exists>q x. strict_prefix q (u # ts) \<and> lookup_path (JObj []) q = Some x \<and> \<not> is_JObj x)"
    proof
      assume "\<exists>q x. strict_prefix q (u # ts) \<and> lookup_path (JObj []) q = Some x \<and> \<not> is_JObj x"
      then obtain q x where "lookup_path (JObj []) q = Some x" "\<not> is_JObj x" by blast
      then show False by (cases q) auto
    qed
    with 3(1) None show ?thesis by auto
  next
    case (Some x)
    show ?thesis
    proof (cases "is_JObj x")
      case True
      then obtain c where c: "x = JObj c" by (cases x) auto
      with 3(2) Some consider "lookup_path (JObj (default_at c (u # ts) w)) (u # ts) \<noteq> None"
        | q y where "strict_prefix q (u # ts)" "lookup_path (JObj c) q = Some y" "\<not> is_JObj y" by auto
      then show ?thesis
      proof cases
        case 1
        with Some c show ?thesis by simp
      next
        case (2 q y)
        then have "strict_prefix (t # q) (t # u # ts)" "lookup_path (JObj d) (t # q) = Some y" using Some c by auto
        with 2(3) show ?thesis by blast
      qed
    next
      case False
      with Some have "strict_prefix [t] (t # u # ts) \<and> lookup_path (JObj d) [t] = Some x \<and> \<not> is_JObj x" by simp
      then show ?thesis by blast
    qed
  qed
qed simp

end
