(* ===== verification/ReadRuntime.thy ===== *)
theory ReadRuntime
  imports Interactions ActionRuntime ExecuteWorkflow
begin

text \<open>
  \<^verbatim>\<open>acc_runtime/runtime.py\<close>: a read call of the generic runtime. Arguments get the public defaults, the
  workflow runs on the executor with \<open>_PolicyOperationCaller\<close> between it and the provider
  (\<open>through_policy\<close>), the result passes the disclosure filter, the output schema and the byte budget. A
  runtime is a value (\<open>generic_runtime\<close>); \<open>read_run\<close> says what a call of it can do. Parameters are
  pydantic's reading of documents, the JSON Schema library and digests. The audit span is a function
  from the category it is finished with to whether finishing raised a cancellation.
\<close>

section \<open>The runtime\<close>

record project_document =
  project_id :: string
  binding_allowlist :: "string list"

record read_library =
  parse_operation :: "(string, json) dict \<Rightarrow> operation option"
  parse_capability :: "json \<Rightarrow> capability option"
  parse_policy :: "json \<Rightarrow> policy option"
  parse_project :: "json \<Rightarrow> project_document option"
  lib_valid :: "json \<Rightarrow> json \<Rightarrow> bool"
  lib_check :: "(string, json) dict \<Rightarrow> bool"
  lib_crypto :: crypto

record generic_runtime =
  gr_ir :: "(string, json) dict"
  gr_project :: project_document
  gr_defaults :: "(string, public_default list) dict"
  gr_manifest :: json
  gr_context :: principal_context
  gr_owns_strategy :: bool
  gr_closed :: bool

definition configuration_code :: string where "configuration_code = ''ACC_RUNTIME_CONFIGURATION_INVALID''"

abbreviation configuration_error :: "exec_error + 'a" where
  "configuration_error \<equiv> Inl (RuntimeRaised configuration_code)"

definition parsed :: "'a option \<Rightarrow> exec_error + 'a" where
  "parsed x = (case x of None \<Rightarrow> configuration_error | Some y \<Rightarrow> Inr y)"

lemma parsed_Inr [simp]: "parsed x = Inr y \<longleftrightarrow> x = Some y"
  by (simp add: parsed_def split: option.splits)

text \<open>\<open>_stdio_principal_context\<close>; \<open>account\<close> is the environment's \<^verbatim>\<open>ACC_PRINCIPAL_ID\<close>, if it is set.\<close>

definition stdio_principal_context ::
    "project_document \<Rightarrow> string option \<Rightarrow> string list \<Rightarrow> json \<Rightarrow> py_error + principal_context" where
  "stdio_principal_context project account granted tenant =
     make_principal_context (case account of None \<Rightarrow> ''stdio-local'' | Some s \<Rightarrow> s) None (project_id project) None granted
       (if tenant = JNull then None else Some (JObj [(''tenant_id'', tenant)]))
       (''stdio:'' @ project_id project) []"

text \<open>\<open>GenericRuntime.__init__\<close> with the context it was given.\<close>

definition make_runtime ::
    "read_library \<Rightarrow> (string, json) dict \<Rightarrow> principal_context \<Rightarrow> bool \<Rightarrow> exec_error + generic_runtime" where
  "make_runtime lib ir ctx owns =
     (if get_or_null ir ''ir_version'' \<noteq> JStr ''2'' then configuration_error
      else
        rbind (parsed (parse_project lib (get_or_null ir ''project''))) (\<lambda>project.
        rbind (parsed (load_interactions (lib_crypto lib) ir)) (\<lambda>(manifest, defaults).
        if target_system_id ctx \<noteq> project_id project then configuration_error
        else Inr \<lparr>gr_ir = ir, gr_project = project, gr_defaults = defaults, gr_manifest = manifest, gr_context = ctx,
                  gr_owns_strategy = owns, gr_closed = False\<rparr>)))"

definition compiled_capability :: "generic_runtime \<Rightarrow> string \<Rightarrow> exec_error + (string, json) dict" where
  "compiled_capability gr cid =
     (case get_or_null (gr_ir gr) ''capabilities'' of
        JObj cs \<Rightarrow> (case get_or_null cs cid of JObj c \<Rightarrow> Inr c | _ \<Rightarrow> Inl (ExecutionError ExecCapabilityNotFound))
      | _ \<Rightarrow> configuration_error)"

definition is_action_document :: "json \<Rightarrow> bool" where
  "is_action_document v \<longleftrightarrow> jget v ''kind'' = Some (JStr ''action'')"

text \<open>\<open>_capability\<close>: an Action is refused with the same code, read or not.\<close>

definition read_capability :: "read_library \<Rightarrow> generic_runtime \<Rightarrow> string \<Rightarrow> exec_error + capability" where
  "read_capability lib gr cid =
     rbind (compiled_capability gr cid) (\<lambda>compiled.
     let definition' = get_or_null compiled ''definition'' in
     if is_action_document definition' then configuration_error else parsed (parse_capability lib definition'))"

definition read_policy :: "read_library \<Rightarrow> generic_runtime \<Rightarrow> string \<Rightarrow> exec_error + policy" where
  "read_policy lib gr pid =
     (case get_or_null (gr_ir gr) ''policies'' of
        JObj ps \<Rightarrow> parsed (parse_policy lib (get_or_null ps pid))
      | _ \<Rightarrow> configuration_error)"

text \<open>\<open>tools\<close>: the read capabilities, by identifier.\<close>

definition tools :: "read_library \<Rightarrow> generic_runtime \<Rightarrow> exec_error + capability list" where
  "tools lib gr =
     (case get_or_null (gr_ir gr) ''capabilities'' of
        JObj cs \<Rightarrow>
          traverse (read_capability lib gr)
            (filter (\<lambda>cid. case Option.bind (dget cs cid) (\<lambda>c. jget c ''definition'') of
                                None \<Rightarrow> True | Some d \<Rightarrow> \<not> is_action_document d)
               (dkeys (sorted_items cs)))
      | _ \<Rightarrow> configuration_error)"

section \<open>The operation caller\<close>

definition load_operation :: "read_library \<Rightarrow> (string, json) dict \<Rightarrow> operation option" where
  "load_operation lib op = (if is_action_document (JObj op) then None else parse_operation lib op)"

text \<open>\<open>_field_path\<close>, \<open>_inject_context_value\<close>\<close>

definition tenant_path_tokens :: "string \<Rightarrow> string list" where
  "tenant_path_tokens name =
     (let v = (if prefix ''$.'' name then drop 2 name else name)
      in if prefix ''/'' v then map unescape_token (filter (\<lambda>t. t \<noteq> []) (split_on (CHR ''/'') (drop 1 v)))
         else filter (\<lambda>t. t \<noteq> []) (split_on (CHR ''.'') v))"

fun inject_tenant :: "(string, json) dict \<Rightarrow> string list \<Rightarrow> json \<Rightarrow> (string, json) dict" where
  "inject_tenant d [] v = d"
| "inject_tenant d [t] v = (if dget d t = None then dset d t v else d)"
| "inject_tenant d (t # u # ts) v =
     (case get_or_null d t of
        JNull \<Rightarrow> dset d t (JObj (inject_tenant [] (u # ts) v))
      | JObj c \<Rightarrow> dset d t (JObj (inject_tenant c (u # ts) v))
      | _ \<Rightarrow> d)"

fun bind_trusted ::
    "principal_context \<Rightarrow> string list \<Rightarrow> (string \<times> string) list \<Rightarrow> (string, json) dict \<Rightarrow> (string, json) dict option" where
  "bind_trusted ctx allowed [] d = Some d"
| "bind_trusted ctx allowed ((target, reference) # bs) d =
     (if target \<in> set (dkeys d) then None
      else
        (case resolve_context_binding ctx reference allowed of
           Inl _ \<Rightarrow> None
         | Inr v \<Rightarrow> bind_trusted ctx allowed bs (dset d target v)))"

definition with_tenant :: "policy \<Rightarrow> principal_context \<Rightarrow> (string, json) dict \<Rightarrow> call_reply + (string, json) dict" where
  "with_tenant pol ctx d =
     (if tenant_mode pol \<noteq> TenantRequired then Inr d
      else
        (case tenant_field pol of
           None \<Rightarrow> Inl RaisedException
         | Some name \<Rightarrow>
             Inr (if tenant_id ctx = JNull then d else inject_tenant d (tenant_path_tokens name) (tenant_id ctx))))"

definition effective_policy :: "policy \<Rightarrow> operation \<Rightarrow> policy" where
  "effective_policy pol oper =
     pol\<lparr>required_scopes := sorted_set (required_scopes pol @ http_scopes (http_contract oper))\<rparr>"

text \<open>The checks of the enriched arguments: input schema, then scopes and tenant.\<close>

definition checked_request ::
    "read_library \<Rightarrow> policy \<Rightarrow> principal_context \<Rightarrow> operation \<Rightarrow> (string, json) dict \<Rightarrow> call_reply + json" where
  "checked_request lib pol ctx oper d =
     (if \<not> lib_valid lib (op_input_schema oper) (JObj d)
      then Inl (RaisedRuntime ''ACC_RUNTIME_OPERATION_INPUT_INVALID'')
      else
        (case authorize (effective_policy pol oper) (effective_scopes ctx) (JObj d) (Some (tenant_id ctx)) of
           Inl e \<Rightarrow> Inl (RaisedRuntime (policy_code e))
         | Inr _ \<Rightarrow> Inr (JObj d)))"

text \<open>
  What \<open>_PolicyOperationCaller.call\<close> does before it awaits the provider: a refusal, as the executor
  sees it, or the arguments sent. The observers of the call cannot fail.
\<close>

definition policy_request ::
    "read_library \<Rightarrow> generic_runtime \<Rightarrow> policy \<Rightarrow> principal_context \<Rightarrow> (string, json) dict \<Rightarrow> json \<Rightarrow> call_reply + json" where
  "policy_request lib gr pol ctx op args =
     (case (load_operation lib op, args) of
        (Some oper, JObj arguments) \<Rightarrow>
          (case bind_trusted ctx (binding_allowlist (gr_project gr)) (context_bindings oper) arguments of
             None \<Rightarrow> Inl (RaisedRuntime configuration_code)
           | Some bound \<Rightarrow> rbind (with_tenant pol ctx bound) (checked_request lib pol ctx oper))
      | _ \<Rightarrow> Inl (RaisedRuntime configuration_code))"

text \<open>A process whose calls pass through such a caller.\<close>

primrec through_policy :: "((string, json) dict \<Rightarrow> json \<Rightarrow> call_reply + json) \<Rightarrow> proc \<Rightarrow> proc" where
  "through_policy request (Finished r) = Finished r"
| "through_policy request (Calls oid op args k) =
     (case request op args of
        Inl refusal \<Rightarrow> through_policy request (k refusal)
      | Inr sent \<Rightarrow> Calls oid op sent (\<lambda>r. through_policy request (k r)))"
| "through_policy request (Gather ps k) =
     Gather (map (through_policy request) ps) (\<lambda>vs. through_policy request (k vs))"

section \<open>A call\<close>

definition read_schemas :: "read_library \<Rightarrow> exec_env" where
  "read_schemas lib =
     \<lparr>check_schema = lib_check lib, instance_ok = (\<lambda>s. lib_valid lib (JObj s)), validates_output = False,
      validates_operation_input = False\<rparr>"

definition scope_only :: "policy \<Rightarrow> policy" where
  "scope_only pol = pol\<lparr>tenant_mode := TenantNone, tenant_field := None\<rparr>"

text \<open>The first half of \<open>_execute_call\<close>: target system, capability, defaults, policy and its scopes.\<close>

definition admit_call ::
    "read_library \<Rightarrow> generic_runtime \<Rightarrow> string \<Rightarrow> (string, json) dict \<Rightarrow> principal_context \<Rightarrow>
     exec_error + capability \<times> policy \<times> (string, json) dict" where
  "admit_call lib gr cid arguments ctx =
     (if target_system_id ctx \<noteq> project_id (gr_project gr) then configuration_error
      else
        rbind (read_capability lib gr cid) (\<lambda>cap.
        rbind (read_policy lib gr (cap_policy cap)) (\<lambda>pol.
        case authorize (scope_only pol) (effective_scopes ctx) (JObj []) None of
          Inl e \<Rightarrow> Inl (RuntimeRaised (policy_code e))
        | Inr _ \<Rightarrow>
            Inr (cap, pol, apply_public_defaults arguments
              (case dget (gr_defaults gr) cid of None \<Rightarrow> [] | Some ds \<Rightarrow> ds)))))"

definition within_budget :: "crypto \<Rightarrow> (string, json) dict \<Rightarrow> json \<Rightarrow> exec_error + json" where
  "within_budget cr compiled v =
     (case get_or_null compiled ''quality'' of
        JObj q \<Rightarrow>
          (case get_or_null q ''max_output_bytes'' of
             JInt n \<Rightarrow>
               if n \<le> 0 then configuration_error
               else
                 (case json_text (float_repr cr) v of
                    None \<Rightarrow> configuration_error
                  | Some t \<Rightarrow>
                      if int (length (utf8 t)) > n then Inl (RuntimeRaised ''ACC_RUNTIME_CAPABILITY_OUTPUT_TOO_LARGE'')
                      else Inr v)
           | _ \<Rightarrow> configuration_error)
      | _ \<Rightarrow> Inr v)"

text \<open>The second half: the filter, the public schema, the budget.\<close>

definition disclose_result ::
    "read_library \<Rightarrow> generic_runtime \<Rightarrow> string \<Rightarrow> capability \<Rightarrow> policy \<Rightarrow> json \<Rightarrow> exec_error + json" where
  "disclose_result lib gr cid cap pol result =
     (case filter_output (lib_crypto lib) pol result of
        Inl e \<Rightarrow> Inl (RuntimeRaised (policy_code e))
      | Inr v \<Rightarrow>
          if \<not> lib_valid lib (cap_output_schema cap) v then Inl (ExecutionError ExecOutputInvalid)
          else rbind (compiled_capability gr cid) (\<lambda>compiled. within_budget (lib_crypto lib) compiled v))"

definition execute_call ::
    "read_library \<Rightarrow> generic_runtime \<Rightarrow> string \<Rightarrow> (string, json) dict \<Rightarrow> principal_context \<Rightarrow> proc" where
  "execute_call lib gr cid arguments ctx =
     plift (admit_call lib gr cid arguments ctx) (\<lambda>(cap, pol, effective).
     pbind (through_policy (policy_request lib gr pol ctx) (execute (read_schemas lib) (gr_ir gr) cid (JObj effective)))
       (\<lambda>result. Finished (disclose_result lib gr cid cap pol result)))"

section \<open>Outcomes\<close>

datatype runtime_outcome = ReadSuccess json | ReadFailure string | ReadCancelled

fun exec_code_name :: "exec_code \<Rightarrow> string" where
  "exec_code_name ExecInputInvalid = ''ACC_RUNTIME_INPUT_INVALID''"
| "exec_code_name ExecOutputInvalid = ''ACC_RUNTIME_OUTPUT_INVALID''"
| "exec_code_name ExecIrInvalid = ''ACC_RUNTIME_IR_INVALID''"
| "exec_code_name ExecCapabilityNotFound = ''ACC_RUNTIME_CAPABILITY_NOT_FOUND''"
| "exec_code_name ExecFinalEmitRequired = ''ACC_RUNTIME_FINAL_EMIT_REQUIRED''"
| "exec_code_name ExecStepInvalid = ''ACC_RUNTIME_STEP_INVALID''"
| "exec_code_name ExecBoundExceeded = ''ACC_RUNTIME_BOUND_EXCEEDED''"
| "exec_code_name ExecOperationNotFound = ''ACC_RUNTIME_OPERATION_NOT_FOUND''"
| "exec_code_name ExecOperationInputInvalid = ''ACC_RUNTIME_OPERATION_INPUT_INVALID''"
| "exec_code_name ExecOperationFailed = ''ACC_RUNTIME_OPERATION_FAILED''"
| "exec_code_name ExecOperationOutputInvalid = ''ACC_RUNTIME_OPERATION_OUTPUT_INVALID''"
| "exec_code_name ExecReferenceInvalid = ''ACC_RUNTIME_REFERENCE_INVALID''"
| "exec_code_name ExecReferenceUnavailable = ''ACC_RUNTIME_REFERENCE_UNAVAILABLE''"
| "exec_code_name ExecValueTypeInvalid = ''ACC_RUNTIME_VALUE_TYPE_INVALID''"
| "exec_code_name ExecAssertionFailed = ''ACC_RUNTIME_ASSERTION_FAILED''"

text \<open>\<open>_AUDIT_CODE_CATEGORIES\<close>: the codes of every category but the default one, \<open>internal\<close>.\<close>

definition audit_codes :: "(string, string list) dict" where
  "audit_codes =
     [(''reauth'', [''ACC_GATEWAY_REAUTH_REQUIRED'', ''ACC_GATEWAY_SESSION_EXPIRED'', ''ACC_GATEWAY_SESSION_INVALID'',
         ''ACC_RUNTIME_AUTH_UNAUTHORIZED'']),
      (''authentication_failed'', [''ACC_RUNTIME_AUTH_LOGIN_FAILED'', ''ACC_RUNTIME_AUTH_RESPONSE_INVALID'']),
      (''invalid_request'', [''ACC_RUNTIME_BOUND_EXCEEDED'', ''ACC_RUNTIME_CAPABILITY_NOT_FOUND'',
         ''ACC_RUNTIME_INPUT_INVALID'', ''ACC_RUNTIME_INPUT_SCHEMA_INVALID'', ''ACC_RUNTIME_OPERATION_INPUT_INVALID'',
         ''ACC_RUNTIME_VALUE_TYPE_INVALID'']),
      (''upstream_denied'', [''ACC_RUNTIME_HTTP_FORBIDDEN'', ''ACC_RUNTIME_HTTP_NOT_FOUND'']),
      (''upstream_error'', [''ACC_RUNTIME_HTTP_INVALID_JSON'', ''ACC_RUNTIME_HTTP_REQUEST_FAILED'',
         ''ACC_RUNTIME_HTTP_RESPONSE_TOO_LARGE'', ''ACC_RUNTIME_HTTP_TIMEOUT'', ''ACC_RUNTIME_HTTP_UPSTREAM_ERROR'',
         ''ACC_RUNTIME_OPERATION_OUTPUT_INVALID'', ''ACC_RUNTIME_OUTPUT_SCHEMA_INVALID'']),
      (''policy_denied'', [''ACC_RUNTIME_POLICY_SCOPE_DENIED'', ''ACC_RUNTIME_POLICY_TENANT_DENIED''])]"

definition audit_category :: "string \<Rightarrow> string" where
  "audit_category code =
     (case find (\<lambda>p. code \<in> set (snd p)) audit_codes of None \<Rightarrow> ''internal'' | Some p \<Rightarrow> fst p)"

text \<open>\<open>_finish_audit_span\<close> decides whether the outcome is a cancellation; \<open>_call_outcome\<close> after the call.\<close>

definition settle :: "(string \<Rightarrow> bool) \<Rightarrow> string \<Rightarrow> runtime_outcome \<Rightarrow> runtime_outcome" where
  "settle finish category outcome = (if finish category then ReadCancelled else outcome)"

fun call_outcome :: "(string \<Rightarrow> bool) \<Rightarrow> exec_error + json \<Rightarrow> runtime_outcome" where
  "call_outcome finish (Inr v) = settle finish ''success'' (ReadSuccess v)"
| "call_outcome finish (Inl ExecCancelled) = ReadCancelled"
| "call_outcome finish (Inl (RuntimeRaised code)) = settle finish (audit_category code) (ReadFailure code)"
| "call_outcome finish (Inl (ExecutionError c)) =
     settle finish (audit_category (exec_code_name c)) (ReadFailure (exec_code_name c))"
| "call_outcome finish (Inl ExecTypeError) = settle finish ''internal'' (ReadFailure configuration_code)"

text \<open>
  A call, with the requests the provider answered and the outcome when the call has ended; it may be
  cancelled at any await.
\<close>

inductive read_run ::
    "read_library \<Rightarrow> generic_runtime \<Rightarrow> (string \<Rightarrow> bool) \<Rightarrow> string \<Rightarrow> (string, json) dict \<Rightarrow> principal_context \<Rightarrow>
     call_event list \<Rightarrow> runtime_outcome option \<Rightarrow> bool" for lib gr finish cid arguments ctx where
  closed: "gr_closed gr \<Longrightarrow>
     read_run lib gr finish cid arguments ctx [] (Some (settle finish ''internal'' (ReadFailure configuration_code)))"
| running: "\<not> gr_closed gr \<Longrightarrow> exec_run (execute_call lib gr cid arguments ctx, []) evs n c \<Longrightarrow>
     read_run lib gr finish cid arguments ctx evs None"
| cancelled: "\<not> gr_closed gr \<Longrightarrow> exec_run (execute_call lib gr cid arguments ctx, []) evs n c \<Longrightarrow>
     read_run lib gr finish cid arguments ctx evs (Some ReadCancelled)"
| finished: "\<not> gr_closed gr \<Longrightarrow> exec_run (execute_call lib gr cid arguments ctx, []) evs n (Finished r, os) \<Longrightarrow>
     read_run lib gr finish cid arguments ctx evs (Some (call_outcome finish r))"

text \<open>\<open>_close_outcome\<close>; \<open>reply\<close> is how closing the owned strategy ends.\<close>

definition close_runtime :: "generic_runtime \<Rightarrow> call_reply \<Rightarrow> generic_runtime \<times> runtime_outcome option" where
  "close_runtime gr reply =
     (if gr_closed gr then (gr, None)
      else
        (gr\<lparr>gr_closed := True, gr_owns_strategy := False\<rparr>,
         if \<not> gr_owns_strategy gr then None
         else
           (case reply of
              Replied _ \<Rightarrow> None
            | CallCancelled \<Rightarrow> Some ReadCancelled
            | RaisedRuntime code \<Rightarrow> Some (ReadFailure code)
            | RaisedException \<Rightarrow> Some (ReadFailure configuration_code))))"

end
