(* ===== verification/ReadSoundness.thy ===== *)
theory ReadSoundness
  imports ReadRuntime
begin

text \<open>
  What the read runtime promises: every request it sends is authorised, what it returns has been
  filtered, validated and measured, and whether a call can succeed is what the scope analysis and
  the callability report say of the caller's effective scopes.
\<close>

section \<open>Processes behind the policy caller\<close>

definition sent ::
    "((string, json) dict \<Rightarrow> json \<Rightarrow> call_reply + json) \<Rightarrow> (string \<Rightarrow> (string, json) dict \<Rightarrow> json \<Rightarrow> bool) \<Rightarrow>
     string \<Rightarrow> (string, json) dict \<Rightarrow> json \<Rightarrow> bool" where
  "sent request P oid op a \<longleftrightarrow> (\<exists>args. P oid op args \<and> request op args = Inr a)"

lemma through_policy_safe: "safe P E Q p \<Longrightarrow> safe (sent request P) E Q (through_policy request p)"
proof (induction rule: safe.induct)
  case (finished r Q)
  then show ?case by (auto intro: safe.finished)
next
  case (calls oid op args Q k)
  show ?case
  proof (cases "request op args")
    case (Inr a)
    then have "sent request P oid op a" unfolding sent_def using calls.hyps(1) by blast
    with Inr calls.IH show ?thesis by (simp add: safe.calls)
  qed (use calls.IH in simp)
next
  case (gather ps R Q k)
  show ?case unfolding through_policy.simps
    by (rule safe.gather [where R = R]) (use gather in auto)
qed

text \<open>The caller adds no request: the bounds on calls and moves carry over.\<close>

lemma through_policy_weighs: "weighs c g n p \<Longrightarrow> weighs c g n (through_policy request p)"
proof (induction rule: weighs.induct)
  case (calls m k n oid op args)
  show ?case
  proof (cases "request op args")
    case (Inl refusal)
    have "weighs c g n (through_policy request (k refusal))" by (rule weighs_mono [OF calls.IH]) (use calls.hyps(2) in simp)
    with Inl show ?thesis by simp
  next
    case (Inr a)
    have "weighs c g n (Calls oid op a (\<lambda>r. through_policy request (k r)))"
      by (rule weighs.calls [OF calls.IH calls.hyps(2)])
    with Inr show ?thesis by simp
  qed
next
  case (gather ms ps m k n)
  have "list_all2 (weighs c g) ms (map (through_policy request) ps)"
    unfolding list.rel_map by (rule list_all2_mono [OF gather(1)]) simp
  then show ?case unfolding through_policy.simps by (rule weighs.gather) (use gather in auto)
qed (simp add: weighs.finished)

lemma execute_call_weighs:
  assumes "holds_workflow (gr_ir gr) cid ss operations"
  shows "weighs c g (workflow_weight c g ss) (execute_call lib gr cid arguments ctx)"
  unfolding execute_call_def
proof (rule weighs_plift)
  fix x
  have "weighs c g (workflow_weight c g ss + 0)
     (pbind (through_policy request (execute env (gr_ir gr) cid input)) (\<lambda>result. Finished (f result)))" for request env input f
    by (intro weighs_pbind through_policy_weighs execute_weighs [OF assms] weighs.finished)
  then show "weighs c g (workflow_weight c g ss)
     (case x of (cap, pol, eff) \<Rightarrow>
        pbind (through_policy (policy_request lib gr pol ctx) (execute (read_schemas lib) (gr_ir gr) cid (JObj eff)))
          (\<lambda>result. Finished (disclose_result lib gr cid cap pol result)))"
    by (cases x) simp
qed

text \<open>A process in which an error of a call is an error of the process.\<close>

inductive stops_on_error :: "proc \<Rightarrow> bool" where
  finished: "stops_on_error (Finished r)"
| calls: "(\<And>r. stops_on_error (k r)) \<Longrightarrow> (\<And>r. \<nexists>v. r = Replied v \<Longrightarrow> \<exists>e. k r = Finished (Inl e)) \<Longrightarrow> stops_on_error (Calls oid op args k)"
| gather: "(\<And>p. p \<in> set ps \<Longrightarrow> stops_on_error p) \<Longrightarrow> (\<And>vs. stops_on_error (k vs)) \<Longrightarrow> stops_on_error (Gather ps k)"


lemma strict_pbind: "stops_on_error p \<Longrightarrow> (\<And>v. stops_on_error (f v)) \<Longrightarrow> stops_on_error (pbind p f)"
proof (induction rule: stops_on_error.induct)
  case (finished r)
  then show ?case by (cases r) (auto intro: stops_on_error.finished)
next
  case (calls k oid op args)
  show ?case unfolding pbind.simps
  proof (rule stops_on_error.calls)
    show "\<exists>e. pbind (k r) f = Finished (Inl e)" if "\<nexists>v. r = Replied v" for r
      using calls.hyps(2) [OF that] by auto
  qed (use calls in blast)
next
  case (gather ps k)
  then show ?case unfolding pbind.simps by (intro stops_on_error.gather) blast+
qed

lemma strict_plift: "(\<And>x. r = Inr x \<Longrightarrow> stops_on_error (f x)) \<Longrightarrow> stops_on_error (plift r f)"
  by (cases r) (auto intro: stops_on_error.finished)

lemma strict_call_step: "stops_on_error (call_step env operations ctx raw)"
  unfolding call_step_def
proof (rule strict_plift)
  fix x assume "prepare_call env operations ctx raw = Inr x"
  obtain oid op safe where x: "x = (oid, op, safe)" by (cases x)
  have "\<exists>e. call_result env op r = Inl e" if "\<nexists>v. r = Replied v" for r
    using that by (cases r) (auto simp: call_result_def)
  then show "stops_on_error (case x of (oid, op, safe) \<Rightarrow> Calls oid op safe (\<lambda>r. Finished (call_result env op r)))"
    unfolding x by (auto intro!: stops_on_error.intros)
qed

lemma strict_gathered: "(\<And>p. p \<in> set ps \<Longrightarrow> stops_on_error p) \<Longrightarrow> stops_on_error (Gather ps (\<lambda>vs. Finished (Inr (JArr vs))))"
  by (rule stops_on_error.gather) (auto intro: stops_on_error.finished)

lemma strict_workflow:
  "stops_on_error (run_workflow env operations ctx ws v)"
  "stops_on_error (run_step env operations ctx s)"
proof (induction ctx ws v and ctx s rule: workflow_induct)
  case (Cons ctx raw rest v)
  then show ?case by (auto split: option.splits intro!: strict_pbind intro: stops_on_error.finished)
next
  case (step ctx s)
  show ?case
  proof (cases "\<exists>a. actions_in s = [a]")
    case True
    then obtain a where a: "actions_in s = [a]" by blast
    then have "a \<in> set (actions_in s)" by simp
    then obtain action where d: "dget s a = Some action" by (auto simp: actions_in_def)
    note eqs = run_step_action [OF a d, of env operations ctx]
    consider "a \<notin> {''call'', ''branch'', ''parallel'', ''foreach''}" | "a = ''call''" | "a = ''branch''"
      | "a = ''parallel''" | "a = ''foreach''" by blast
    then show ?thesis
    proof cases
      case 1
      show ?thesis unfolding eqs(1) [OF 1] by (rule stops_on_error.finished)
    next
      case 2
      show ?thesis unfolding eqs(2) [OF 2] by (rule strict_call_step)
    next
      case 3
      show ?thesis unfolding eqs(3) [OF 3]
        using step.IH(1) d 3 by (auto intro!: strict_plift split: prod.splits)
    next
      case 4
      show ?thesis unfolding eqs(4) [OF 4]
        using step.IH(2) d 4 by (auto intro!: strict_plift strict_gathered stops_on_error.finished simp del: run_workflow.simps)
    next
      case 5
      show ?thesis unfolding eqs(5) [OF 5]
        using step.IH(3) d 5 by (auto intro!: strict_plift strict_gathered)
    qed
  qed (simp add: run_step_invalid stops_on_error.finished)
qed (simp add: stops_on_error.finished)

lemma strict_execute: "stops_on_error (execute env ir cid input)"
  unfolding execute_def
  by (rule strict_plift) (auto split: prod.splits intro!: strict_pbind strict_workflow stops_on_error.finished)

text \<open>
  A caller that answers no call by itself: a success behind it is a success of the process, with the
  same calls.
\<close>

definition refuses :: "((string, json) dict \<Rightarrow> json \<Rightarrow> call_reply + json) \<Rightarrow> bool" where
  "refuses request \<longleftrightarrow> (\<forall>op args r. request op args = Inl r \<longrightarrow> (\<nexists>v. r = Replied v))"

lemma strict_succeeds:
  "stops_on_error p \<Longrightarrow> refuses request \<Longrightarrow> succeeds R (through_policy request p) T v \<Longrightarrow> succeeds (\<lambda>_ _ _ _. True) p T v"
proof (induction arbitrary: T v rule: stops_on_error.induct)
  case (finished r)
  then show ?case by (auto elim!: succeeds_FinishedE intro: succeeds.returned)
next
  case (calls k oid op args)
  show ?case
  proof (cases "request op args")
    case (Inl refusal)
    then have "\<nexists>w. refusal = Replied w" using calls.prems(1) by (simp add: refuses_def)
    from calls.hyps(2) [OF this] Inl calls.prems(2) show ?thesis by (auto elim: succeeds_FinishedE)
  next
    case (Inr a)
    with calls.prems(2) obtain r T' where r: "succeeds R (through_policy request (k r)) T' v" "T = insert oid T'"
      by (auto elim: succeeds_CallsE)
    from calls.IH [OF calls.prems(1) r(1)] r(2) show ?thesis by (auto intro: succeeds.call)
  qed
next
  case (gather ps k)
  from gather.prems(2) obtain tvs T' where t:
    "list_all2 (\<lambda>p tv. succeeds R p (fst tv) (snd tv)) (map (through_policy request) ps) tvs"
    "succeeds R (through_policy request (k (map snd tvs))) T' v" "T = \<Union>(fst ` set tvs) \<union> T'"
    by (auto elim: succeeds_GatherE)
  have "list_all2 (\<lambda>p tv. succeeds (\<lambda>_ _ _ _. True) p (fst tv) (snd tv)) ps tvs"
    using t(1) gather.IH(1) [OF _ gather.prems(1)] by (auto simp: list_all2_conv_all_nth)
  from succeeds.gathered [where k = k, OF this gather.IH(2) [OF gather.prems(1) t(2)]] t(3) show ?case by simp
qed

section \<open>What the caller sends\<close>

lemma checked_request_Inr:
  "checked_request lib pol ctx oper d = Inr a \<longleftrightarrow>
     a = JObj d \<and> lib_valid lib (op_input_schema oper) a \<and>
     authorize (effective_policy pol oper) (effective_scopes ctx) a (Some (tenant_id ctx)) = Inr ()"
  by (cases "authorize (effective_policy pol oper) (effective_scopes ctx) (JObj d) (Some (tenant_id ctx))")
    (auto simp: checked_request_def)

lemma checked_request_Inl:
  "checked_request lib pol ctx oper d = Inl r \<Longrightarrow>
     r = RaisedRuntime ''ACC_RUNTIME_OPERATION_INPUT_INVALID'' \<or>
     (\<exists>e. r = RaisedRuntime (policy_code e) \<and>
        authorize (effective_policy pol oper) (effective_scopes ctx) (JObj d) (Some (tenant_id ctx)) = Inl e)"
  by (cases "authorize (effective_policy pol oper) (effective_scopes ctx) (JObj d) (Some (tenant_id ctx))")
    (auto simp: checked_request_def split: if_splits)

lemma policy_request_cases:
  obtains (refused) "policy_request lib gr pol ctx op args = Inl (RaisedRuntime configuration_code)"
  | (unbound) "policy_request lib gr pol ctx op args = Inl RaisedException"
  | (checked) oper d where "load_operation lib op = Some oper"
      "policy_request lib gr pol ctx op args = checked_request lib pol ctx oper d"
proof (cases "\<exists>oper arguments bound. load_operation lib op = Some oper \<and> args = JObj arguments \<and>
    bind_trusted ctx (binding_allowlist (gr_project gr)) (context_bindings oper) arguments = Some bound")
  case True
  then obtain oper arguments bound where l: "load_operation lib op = Some oper" "args = JObj arguments"
    "bind_trusted ctx (binding_allowlist (gr_project gr)) (context_bindings oper) arguments = Some bound" by blast
  then have q: "policy_request lib gr pol ctx op args = rbind (with_tenant pol ctx bound) (checked_request lib pol ctx oper)"
    by (simp add: policy_request_def)
  show ?thesis
  proof (cases "with_tenant pol ctx bound")
    case (Inl e)
    then have "e = RaisedException" by (auto simp: with_tenant_def split: option.splits if_splits)
    with Inl q show ?thesis by (intro unbound) simp
  next
    case (Inr d)
    with q l(1) show ?thesis by (intro checked) simp_all
  qed
next
  case False
  then show ?thesis by (intro refused) (auto simp: policy_request_def split: option.splits json.splits)
qed

lemma policy_request_refuses: "refuses (policy_request lib gr pol ctx)"
  unfolding refuses_def
proof (intro allI impI)
  fix op args r assume "policy_request lib gr pol ctx op args = Inl r"
  then show "\<nexists>v. r = Replied v"
    by (cases rule: policy_request_cases [of lib gr pol ctx op args]) (auto dest: checked_request_Inl)
qed

text \<open>
  The request of operation document \<open>op\<close> with arguments \<open>a\<close> is one the policy allows: a read Operation
  whose scopes and the policy's are granted, whose input schema accepts the arguments, and whose tenant
  is the caller's when the policy asks for it.
\<close>

definition authorised ::
    "read_library \<Rightarrow> policy \<Rightarrow> principal_context \<Rightarrow> (string, json) dict \<Rightarrow> json \<Rightarrow> bool" where
  "authorised lib pol ctx op a \<longleftrightarrow>
     (\<exists>oper. load_operation lib op = Some oper \<and>
        set (required_scopes pol) \<union> set (http_scopes (http_contract oper)) \<subseteq> effective_scopes ctx \<and>
        lib_valid lib (op_input_schema oper) a \<and>
        (tenant_mode pol = TenantRequired \<longrightarrow> tenant_matches pol a (Some (tenant_id ctx))))"

lemma tenant_matches_scopes: "tenant_matches (pol\<lparr>required_scopes := ss\<rparr>) a t = tenant_matches pol a t"
  by (simp add: tenant_matches_def split: option.split json.split)

lemma policy_request_authorised:
  assumes "policy_request lib gr pol ctx op args = Inr a"
  shows "authorised lib pol ctx op a"
  using assms
  by (cases rule: policy_request_cases [of lib gr pol ctx op args])
    (auto simp: checked_request_Inr authorised_def authorize_Inr effective_policy_def tenant_matches_scopes)

text \<open>A request is refused for its scopes only when a scope is missing.\<close>

lemma policy_code_scope [simp]: "policy_code e = ''ACC_RUNTIME_POLICY_SCOPE_DENIED'' \<longleftrightarrow> (\<exists>ss. e = PolicyScopeDenied ss)"
  by (cases e) simp_all

lemma policy_request_scope_denied:
  assumes "policy_request lib gr pol ctx op args = Inl (RaisedRuntime ''ACC_RUNTIME_POLICY_SCOPE_DENIED'')"
  shows "\<exists>oper. load_operation lib op = Some oper \<and>
    \<not> set (required_scopes pol) \<union> set (http_scopes (http_contract oper)) \<subseteq> effective_scopes ctx"
proof (cases rule: policy_request_cases [of lib gr pol ctx op args])
  case (checked oper d)
  with assms checked_request_Inl [of lib pol ctx oper d] obtain e where
    e: "''ACC_RUNTIME_POLICY_SCOPE_DENIED'' = policy_code e"
    "authorize (effective_policy pol oper) (effective_scopes ctx) (JObj d) (Some (tenant_id ctx)) = Inl e" by auto
  from e(1) [symmetric] obtain ss where "e = PolicyScopeDenied ss" by auto
  with e(2) have
    "authorize (effective_policy pol oper) (effective_scopes ctx) (JObj d) (Some (tenant_id ctx)) = Inl (PolicyScopeDenied ss)"
    by simp
  then have "\<not> set (required_scopes (effective_policy pol oper)) \<subseteq> effective_scopes ctx"
    by (auto simp: authorize_def Let_def filter_empty_conv split: if_splits)
  with checked(1) show ?thesis by (auto simp: effective_policy_def)
qed (use assms in \<open>simp_all add: configuration_code_def\<close>)

section \<open>What a call sends and returns\<close>

lemma admit_call_Inr:
  assumes "admit_call lib gr cid arguments ctx = Inr (cap, pol, effective)"
  shows "target_system_id ctx = project_id (gr_project gr)" "read_capability lib gr cid = Inr cap"
    "read_policy lib gr (cap_policy cap) = Inr pol" "set (required_scopes pol) \<subseteq> effective_scopes ctx"
    "effective = apply_public_defaults arguments (case dget (gr_defaults gr) cid of None \<Rightarrow> [] | Some ds \<Rightarrow> ds)"
  using assms unfolding admit_call_def
  by (auto elim!: rbind_InrE simp: authorize_Inr scope_only_def split: if_splits sum.splits)

definition call_sends ::
    "read_library \<Rightarrow> generic_runtime \<Rightarrow> string \<Rightarrow> (string, json) dict \<Rightarrow> principal_context \<Rightarrow>
     string \<Rightarrow> (string, json) dict \<Rightarrow> json \<Rightarrow> bool" where
  "call_sends lib gr cid arguments ctx oid op a \<longleftrightarrow>
     (\<exists>cap pol effective operations. admit_call lib gr cid arguments ctx = Inr (cap, pol, effective) \<and>
        dget (gr_ir gr) ''operations'' = Some (JObj operations) \<and> dget operations oid = Some (JObj op) \<and>
        authorised lib pol ctx op a)"

lemma execute_call_sends:
  "safe (call_sends lib gr cid arguments ctx) (\<lambda>_. True) (\<lambda>_. True) (execute_call lib gr cid arguments ctx)"
  unfolding execute_call_def
proof (rule safe_plift)
  fix x assume admit: "admit_call lib gr cid arguments ctx = Inr x"
  obtain cap pol eff where x: "x = (cap, pol, eff)" by (cases x)
  have "safe (sent (policy_request lib gr pol ctx) (call_accepted (read_schemas lib) (gr_ir gr))) (\<lambda>_. True)
      (output_accepted (read_schemas lib) (gr_ir gr) cid)
      (through_policy (policy_request lib gr pol ctx) (execute (read_schemas lib) (gr_ir gr) cid (JObj eff)))"
    by (rule through_policy_safe [OF execute_safe])
  then have "safe (call_sends lib gr cid arguments ctx) (\<lambda>_. True) (output_accepted (read_schemas lib) (gr_ir gr) cid)
      (through_policy (policy_request lib gr pol ctx) (execute (read_schemas lib) (gr_ir gr) cid (JObj eff)))"
    by (rule safe_weaken)
      (use admit x policy_request_authorised in \<open>auto simp: sent_def call_sends_def call_accepted_def call_checked_def\<close>)
  then show "safe (call_sends lib gr cid arguments ctx) (\<lambda>_. True) (\<lambda>_. True)
     (case x of (cap, pol, eff) \<Rightarrow>
        pbind (through_policy (policy_request lib gr pol ctx) (execute (read_schemas lib) (gr_ir gr) cid (JObj eff)))
          (\<lambda>result. Finished (disclose_result lib gr cid cap pol result)))"
    unfolding x prod.case by (rule safe_pbind) (simp add: safe_Finished)
qed simp

lemma read_run_sends:
  assumes "read_run lib gr finish cid arguments ctx evs outcome" "(oid, op, a, r) \<in> set evs"
  shows "call_sends lib gr cid arguments ctx oid op a"
proof -
  have sends: "call_sends lib gr cid arguments ctx oid op a"
    if "exec_run (execute_call lib gr cid arguments ctx, []) evs n c" for n c
    using safe_exec_run [OF that, of "call_sends lib gr cid arguments ctx" "\<lambda>_. True" "\<lambda>_. True"]
      execute_call_sends assms(2) by (auto simp: config_safe_def)
  show ?thesis using assms by cases (auto intro: sends)
qed

lemma call_outcome_success: "call_outcome finish r = ReadSuccess v \<longleftrightarrow> r = Inr v \<and> \<not> finish ''success''"
  by (cases "(finish, r)" rule: call_outcome.cases) (auto simp: settle_def)

lemma read_run_returns:
  assumes "read_run lib gr finish cid arguments ctx evs (Some (ReadSuccess v))"
  shows "\<exists>cap pol effective result. admit_call lib gr cid arguments ctx = Inr (cap, pol, effective) \<and>
    succeeds (\<lambda>_ _ _ _. True) (execute (read_schemas lib) (gr_ir gr) cid (JObj effective)) (called evs) result \<and>
    disclose_result lib gr cid cap pol result = Inr v"
proof -
  from assms obtain n os where run: "exec_run (execute_call lib gr cid arguments ctx, []) evs n (Finished (Inr v), os)"
    by cases (auto simp: settle_def call_outcome_success dest!: sym [of "ReadSuccess v"] split: if_splits)
  have "answered (\<lambda>_ _ _ _. True) evs" by (simp add: answered_def)
  from succeeds_run [OF run this] have "succeeds (\<lambda>_ _ _ _. True) (execute_call lib gr cid arguments ctx) (called evs) v" by auto
  from succeeds_plift [OF this [unfolded execute_call_def]] obtain cap pol eff where
    admit: "admit_call lib gr cid arguments ctx = Inr (cap, pol, eff)" and
    "succeeds (\<lambda>_ _ _ _. True) (pbind (through_policy (policy_request lib gr pol ctx)
        (execute (read_schemas lib) (gr_ir gr) cid (JObj eff)))
      (\<lambda>result. Finished (disclose_result lib gr cid cap pol result))) (called evs) v" by auto
  from succeeds_pbind [OF this(2)] obtain T1 result T2 where
    t: "succeeds (\<lambda>_ _ _ _. True) (through_policy (policy_request lib gr pol ctx)
        (execute (read_schemas lib) (gr_ir gr) cid (JObj eff))) T1 result"
    "succeeds (\<lambda>_ _ _ _. True) (Finished (disclose_result lib gr cid cap pol result)) T2 v" "called evs = T1 \<union> T2" by blast
  from t(2,3) have "called evs = T1" "disclose_result lib gr cid cap pol result = Inr v" by (auto elim: succeeds_FinishedE)
  with admit strict_succeeds [OF strict_execute policy_request_refuses t(1)] show ?thesis by blast
qed

text \<open>What the second half of a call lets through.\<close>

definition fits_budget :: "crypto \<Rightarrow> (string, json) dict \<Rightarrow> json \<Rightarrow> bool" where
  "fits_budget cr compiled v \<longleftrightarrow>
     (\<forall>q n. dget compiled ''quality'' = Some (JObj q) \<and> dget q ''max_output_bytes'' = Some (JInt n) \<longrightarrow>
        (\<exists>t. json_text (float_repr cr) v = Some t \<and> int (length (utf8 t)) \<le> n))"

lemma within_budget_Inr: "within_budget cr compiled v = Inr w \<Longrightarrow> w = v \<and> fits_budget cr compiled v"
  unfolding within_budget_def fits_budget_def
  by (auto simp: get_or_null_def split: json.splits option.splits if_splits)

lemma disclose_result_Inr:
  assumes "disclose_result lib gr cid cap pol result = Inr v"
  shows "filter_output (lib_crypto lib) pol result = Inr v" "lib_valid lib (cap_output_schema cap) v"
    "\<exists>compiled. compiled_capability gr cid = Inr compiled \<and> fits_budget (lib_crypto lib) compiled v"
  using assms unfolding disclose_result_def
  by (auto elim!: rbind_InrE dest!: within_budget_Inr split: sum.splits if_splits)

section \<open>Scopes\<close>

text \<open>The runtime reads the operations of the IR as the compiler's.\<close>

definition reads_as :: "read_library \<Rightarrow> operations \<Rightarrow> (string, json) dict \<Rightarrow> bool" where
  "reads_as lib ops operations \<longleftrightarrow>
     calls_known ops operations \<and>
     (\<forall>oid op oper. dget operations oid = Some (JObj op) \<longrightarrow> load_operation lib op = Some oper \<longrightarrow> dget ops oid = Some oper)"

lemma authorised_scopes:
  assumes "reads_as lib ops operations" "dget operations oid = Some (JObj op)" "authorised lib pol ctx op a"
  shows "scopes_of ops {oid} \<subseteq> effective_scopes ctx"
  using assms by (auto simp: reads_as_def authorised_def scopes_of_def split: option.splits)

lemma read_run_completion:
  assumes "read_run lib gr finish cid arguments ctx evs (Some (ReadSuccess v))"
    and "holds_workflow (gr_ir gr) cid ss operations" "reads_as lib ops operations"
    and "read_capability lib gr cid = Inr c" "cap_body c = ReadBody ss" "read_policy lib gr (cap_policy c) = Inr pol"
  shows "\<exists>U \<in> capability_completions ops c (required_scopes pol). U \<subseteq> effective_scopes ctx"
proof -
  from read_run_returns [OF assms(1)] obtain cap pol' eff result where
    admit: "admit_call lib gr cid arguments ctx = Inr (cap, pol', eff)" and
    run: "succeeds (\<lambda>_ _ _ _. True) (execute (read_schemas lib) (gr_ir gr) cid (JObj eff)) (called evs) result" by blast
  from admit_call_Inr [OF admit] assms(4,6) have p: "pol' = pol" "set (required_scopes pol) \<subseteq> effective_scopes ctx" by auto
  have known: "calls_known ops operations" using assms(3) by (simp add: reads_as_def)
  from execute_completes [OF assms(2) known run] have U: "completes_all ops ss (scopes_of ops (called evs))" .
  have "scopes_of ops {oid} \<subseteq> effective_scopes ctx" if e: "(oid, op, a, r) \<in> set evs" for oid op a r
  proof -
    from read_run_sends [OF assms(1) e] assms(2) have "dget operations oid = Some (JObj op)" "\<exists>pol. authorised lib pol ctx op a"
      by (auto simp: call_sends_def holds_workflow_def)
    with authorised_scopes [OF assms(3)] show ?thesis by blast
  qed
  then have "scopes_of ops (called evs) \<subseteq> effective_scopes ctx" by (fastforce simp: called_def scopes_of_def)
  with p(2) have "set (required_scopes pol) \<union> scopes_of ops (called evs) \<subseteq> effective_scopes ctx" by simp
  moreover have "set (required_scopes pol) \<union> scopes_of ops (called evs) \<in> capability_completions ops c (required_scopes pol)"
    using U assms(5) by (auto simp: capability_completions_def intro: joinsI)
  ultimately show ?thesis by blast
qed

text \<open>Every call that a run can make lies on a completion, when the analysis knows all operations.\<close>

definition reach :: "operations \<Rightarrow> scope_set set \<Rightarrow> string \<Rightarrow> (string, json) dict \<Rightarrow> json \<Rightarrow> bool" where
  "reach ops C oid op args \<longleftrightarrow> scopes_of ops {oid} \<subseteq> \<Union>C"

abbreviation reaches :: "operations \<Rightarrow> scope_set set \<Rightarrow> proc \<Rightarrow> bool" where
  "reaches ops C p \<equiv> safe (reach ops C) (\<lambda>_. True) (\<lambda>_. True) p"

lemma reaches_mono: "reaches ops C p \<Longrightarrow> \<Union>C \<subseteq> \<Union>D \<Longrightarrow> reaches ops D p"
  by (erule safe_weaken) (auto simp: reach_def)

lemma reaches_gather: "(\<And>p. p \<in> set ps \<Longrightarrow> reaches ops C p) \<Longrightarrow> reaches ops C (Gather ps (\<lambda>vs. Finished (Inr (JArr vs))))"
  by (rule safe.gather [where R = "\<lambda>_. True"]) (auto simp: safe_Finished)

lemma completions_Cons:
  assumes "\<exists>U. completes ops s U" "\<exists>V. completes_all ops ss V"
  shows "\<Union>{W. completes_all ops (s # ss) W} = \<Union>{U. completes ops s U} \<union> \<Union>{V. completes_all ops ss V}"
proof -
  have "{W. completes_all ops (s # ss) W} = joins {U. completes ops s U} {V. completes_all ops ss V}"
    by (rule completes_all_Cons_set)
  with assms show ?thesis by (simp add: Union_joins)
qed

lemma completions_exist:
  assumes "\<And>s. s \<in> set ss \<Longrightarrow> \<exists>U. completes ops s U"
  shows "\<exists>V. completes_all ops ss V"
  using assms by (induction ss) (auto intro: all_Nil all_Cons)

lemma completions_member:
  assumes "s \<in> set ss" "\<And>s. s \<in> set ss \<Longrightarrow> \<exists>U. completes ops s U"
  shows "\<Union>{U. completes ops s U} \<subseteq> \<Union>{U. completes_all ops ss U}"
  using assms
proof (induction ss)
  case (Cons t ts)
  then have "\<exists>V. completes_all ops ts V" by (intro completions_exist) simp
  from completions_Cons [OF Cons.prems(2) this] Cons show ?case by auto
qed simp

lemma workflow_reaches:
  "(\<And>s. s \<in> set ss \<Longrightarrow> \<exists>U. completes ops s U) \<Longrightarrow>
   (\<And>s ctx. s \<in> set ss \<Longrightarrow> reaches ops {U. completes ops s U} (run_step env operations ctx (step_fields_json s))) \<Longrightarrow>
   reaches ops {U. completes_all ops ss U} (run_workflow env operations ctx (map step_json ss) v)"
proof (induction ss arbitrary: ctx v)
  case (Cons s ss)
  have ex: "\<exists>V. completes_all ops ss V" by (rule completions_exist) (use Cons.prems(1) in simp)
  note U = completions_Cons [OF Cons.prems(1) [of s, simplified] ex]
  have "reaches ops {U. completes_all ops (s # ss) U} (run_step env operations ctx (step_fields_json s))"
    by (rule reaches_mono [OF Cons.prems(2)]) (simp_all add: U)
  moreover have "reaches ops {U. completes_all ops (s # ss) U} (run_workflow env operations ctx' (map step_json ss) w)" for ctx' w
    by (rule reaches_mono [OF Cons.IH]) (use Cons.prems U in auto)
  ultimately show ?case unfolding run_workflow_typed by (rule safe_pbind)
qed (simp add: safe_Finished)

lemma analyze_from_steps:
  "analyze_from ops acc ss = Inr r \<Longrightarrow> s \<in> set ss \<Longrightarrow> \<exists>q. analyze_step ops s = Inr q"
  by (induction ss arbitrary: acc) (auto simp: rbind_Inr_iff)

lemma analyzed_completes: "analyze_step ops s = Inr r \<Longrightarrow> \<exists>U. completes ops s U"
  using describesD(1) [OF analyze_describes(1)] by blast

lemma completions_times:
  assumes "\<exists>U. completes_all ops ss U"
  shows "\<Union>{U. completes_all ops ss U} \<subseteq> \<Union>{U. completes_times ops ss (Suc n) U}"
proof -
  have "\<exists>V. completes_times ops ss n V" for n
    using assms by (induction n) (auto intro: times_0 times_Suc)
  then obtain V where V: "completes_times ops ss n V" by blast
  show ?thesis using times_Suc [OF _ V] by blast
qed

lemma foreach_reaches:
  assumes "collection_typed ctx v n = Inr items" "items \<noteq> []" "\<exists>U. completes_all ops ss U"
  shows "\<Union>{U. completes_all ops ss U} \<subseteq> \<Union>{U. completes ops (ForeachStep i v nm mx ss) U}"
proof (cases "\<exists>vs. v = JArr vs")
  case True
  then obtain vs where vs: "v = JArr vs" by blast
  with assms(1) have "length items = length vs"
    by (auto simp: collection_typed_Inr rbind_Inr_iff dest: traverse_length)
  with assms(2) obtain m where m: "length vs = Suc m" by (cases "length vs") auto
  show ?thesis unfolding vs completes_Foreach_literal_set m by (rule completions_times [OF assms(3)])
next
  case False
  show ?thesis unfolding completes_Foreach_dynamic_set [OF False]
    using completions_times [OF assms(3), of 0] by blast
qed

lemma steps_reach:
  assumes "analyze_steps ops ss = Inr r"
    and "\<And>s ctx r. s \<in> set ss \<Longrightarrow> analyze_step ops s = Inr r \<Longrightarrow>
      reaches ops {U. completes ops s U} (run_step env operations ctx (step_fields_json s))"
  shows "reaches ops {U. completes_all ops ss U} (run_workflow env operations ctx (map step_json ss) v)"
proof (rule workflow_reaches)
  fix s assume "s \<in> set ss"
  from analyze_from_steps [OF assms(1) this] obtain q where q: "analyze_step ops s = Inr q" ..
  show "\<exists>U. completes ops s U" by (rule analyzed_completes [OF q])
  show "reaches ops {U. completes ops s U} (run_step env operations ctx (step_fields_json s))" for ctx
    by (rule assms(2)) fact+
qed

lemma steps_complete: "analyze_steps ops ss = Inr r \<Longrightarrow> \<exists>U. completes_all ops ss U"
  by (rule completions_exist) (use analyze_from_steps analyzed_completes in blast)

lemma step_reaches:
  "analyze_step ops s = Inr r \<Longrightarrow>
     reaches ops {U. completes ops s U} (run_step env operations ctx (step_fields_json s))"
proof (induction s arbitrary: ctx r)
  case (CallStep i oid args)
  then obtain oper where "dget ops oid = Some oper" by (cases "dget ops oid") auto
  then have "reach ops {U. completes ops (CallStep i oid args) U} oid op a" for op a
    using call [of ops oid oper i args] by (auto simp: reach_def scopes_of_def)
  moreover have "oid' = oid" if "prepare_call env operations ctx
      (JObj [(''arguments'', sort_keys (JObj args)), (''operation'', JStr oid)]) = Inr (oid', op, a)" for oid' op a
    using that by (auto simp: prepare_call_def rbind_Inr_iff operation_id_of_def get_or_null_def split: if_splits)
  ultimately show ?case unfolding run_step_typed call_step_def
    by (intro safe_plift) (auto intro!: safe.calls safe.finished split: prod.splits)
next
  case (BranchStep i k ts es)
  then obtain t e where "analyze_steps ops ts = Inr t" "analyze_steps ops es = Inr e" by (auto simp: rbind_Inr_iff)
  then have "reaches ops {U. completes_all ops ss U} (run_workflow env operations ctx (map step_json ss) JNull)"
    if "ss = ts \<or> ss = es" for ss
    using that BranchStep.IH by (elim disjE) (auto intro: steps_reach simp del: run_workflow_typed)
  then have "reaches ops {U. completes ops (BranchStep i k ts es) U} (run_workflow env operations ctx (map step_json ss) JNull)"
    if "ss = ts \<or> ss = es" for ss
    unfolding completes_Branch_set by (rule reaches_mono [OF _ Union_mono]) (use that in auto)
  then show ?case unfolding run_step_typed by (intro safe_plift) (auto split: prod.splits simp del: run_workflow_typed)
next
  case (ParallelStep i ss)
  then have a: "analyze_steps ops ss = Inr r" by simp
  have "reaches ops {U. completes_all ops ss U} (run_workflow env operations ctx (map step_json [s]) JNull)" if s: "s \<in> set ss" for s
  proof -
    from analyze_from_steps [OF a s] obtain q where q: "analyze_step ops s = Inr q" ..
    have "\<Union>{U. completes ops s U} \<subseteq> \<Union>{U. completes_all ops ss U}"
      by (rule completions_member [OF s]) (use analyze_from_steps [OF a] analyzed_completes in blast)
    from reaches_mono [OF ParallelStep.IH [OF s q] this] show ?thesis
      unfolding run_workflow_typed by (rule safe_pbind) (simp add: safe_Finished)
  qed
  then show ?case unfolding run_step_typed completes_Parallel_set
    by (auto intro!: reaches_gather safe.finished simp del: run_workflow_typed run_workflow.simps)
next
  case (ForeachStep i v nm mx ss)
  then obtain b where b: "analyze_steps ops ss = Inr b" by (auto simp: rbind_Inr_iff)
  have body: "reaches ops {U. completes_all ops ss U} (run_workflow env operations ctx' (map step_json ss) JNull)" for ctx'
    using b ForeachStep.IH by (auto intro!: steps_reach simp del: run_workflow_typed)
  show ?case unfolding run_step_typed
  proof (intro safe_plift reaches_gather)
    fix items p assume c: "collection_typed ctx v mx = Inr items"
      and "p \<in> set (map (\<lambda>item. run_workflow env operations (isolated ctx item) (map step_json ss) JNull) items)"
    then obtain item where p: "p = run_workflow env operations (isolated ctx item) (map step_json ss) JNull" "item \<in> set items" by auto
    from p(2) have items: "items \<noteq> []" by auto
    show "reaches ops {U. completes ops (ForeachStep i v nm mx ss) U} p"
      unfolding p(1) by (rule reaches_mono [OF body foreach_reaches [OF c items steps_complete [OF b]]])
  qed simp
qed (simp_all only: run_step_pure safe_Finished simp_thms)

lemma execute_reaches:
  assumes "holds_workflow ir cid ss operations" "analyze_steps ops ss = Inr r"
  shows "reaches ops {U. completes_all ops ss U} (execute env ir cid input)"
proof (cases "prepare_execution env ir cid input")
  case (Inr q)
  from execute_workflow [OF assms(1) Inr] obtain cap where
    e: "execute env ir cid input =
       pbind (run_workflow env operations \<lparr>ctx_input = input, ctx_steps = [], ctx_item = None\<rparr> (map step_json ss) JNull)
         (\<lambda>result. Finished (checked_output env cap result))" by blast
  show ?thesis unfolding e
    by (rule safe_pbind [OF steps_reach [OF assms(2) step_reaches]]) (simp_all add: safe_Finished)
qed (simp add: execute_def safe_Finished)

lemma callable_scopes:
  assumes "cap_body c = ReadBody ss" "analyze_capability c ps ops = Inr q" "dim_status (dimension_of q (Some av)) = Callable"
  shows "set ps \<union> \<Union>{U. completes_all ops ss U} \<subseteq> av"
proof -
  from assms(1,2) obtain w where w: "analyze_steps ops ss = Inr w" by (auto simp: analyze_capability_def rbind_Inr_iff)
  have all: "U \<subseteq> av" if "U \<in> capability_completions ops c ps" for U
    using that assms(3) unfolding dimension_status_exact [OF assms(2)] by (auto split: if_splits)
  have "set ps \<union> U \<subseteq> av" if "completes_all ops ss U" for U
    by (rule all) (use that assms(1) in \<open>auto simp: capability_completions_def intro: joinsI\<close>)
  moreover obtain V where "completes_all ops ss V" using steps_complete [OF w] by blast
  ultimately show ?thesis by blast
qed

text \<open>The scope check before the run passes.\<close>

lemma callable_admitted:
  assumes "read_capability lib gr cid = Inr c" "read_policy lib gr (cap_policy c) = Inr pol"
    and "cap_body c = ReadBody ss" "analyze_capability c (required_scopes pol) ops = Inr q"
    and "dim_status (dimension_of q (Some (effective_scopes ctx))) = Callable"
    and "target_system_id ctx = project_id (gr_project gr)"
  shows "\<exists>effective. admit_call lib gr cid arguments ctx = Inr (c, pol, effective)"
proof -
  have "authorize (scope_only pol) (effective_scopes ctx) (JObj []) None = Inr ()"
    using callable_scopes [OF assms(3-5)] by (simp add: authorize_Inr scope_only_def)
  with assms(1,2,6) show ?thesis by (simp add: admit_call_def)
qed

lemma callable_run_granted:
  assumes "holds_workflow (gr_ir gr) cid ss operations" "reads_as lib ops operations"
    and "cap_body c = ReadBody ss" "analyze_capability c (required_scopes pol) ops = Inr q"
    and "dim_status (dimension_of q (Some (effective_scopes ctx))) = Callable"
    and "exec_run (execute (read_schemas lib) (gr_ir gr) cid input, []) evs n p" "(oid, op, args, r) \<in> set evs"
  shows "policy_request lib gr pol ctx op args \<noteq> Inl (RaisedRuntime ''ACC_RUNTIME_POLICY_SCOPE_DENIED'')"
proof
  let ?C = "{U. completes_all ops ss U}"
  assume "policy_request lib gr pol ctx op args = Inl (RaisedRuntime ''ACC_RUNTIME_POLICY_SCOPE_DENIED'')"
  from policy_request_scope_denied [OF this] obtain oper where
    oper: "load_operation lib op = Some oper"
    "\<not> set (required_scopes pol) \<union> set (http_scopes (http_contract oper)) \<subseteq> effective_scopes ctx" by blast
  from assms(3,4) obtain w where w: "analyze_steps ops ss = Inr w" by (auto simp: analyze_capability_def rbind_Inr_iff)
  have along: "P oid op args" if "safe P (\<lambda>_. True) Q (execute (read_schemas lib) (gr_ir gr) cid input)" for P Q
    using safe_exec_run [OF assms(6), of P "\<lambda>_. True" Q] that assms(7) by (auto simp: config_safe_def)
  have e: "reach ops ?C oid op args" "call_accepted (read_schemas lib) (gr_ir gr) oid op args"
    by (rule along [OF execute_reaches [OF assms(1) w]], rule along [OF execute_safe])
  from e(2) assms(1) have "dget operations oid = Some (JObj op)"
    by (auto simp: call_accepted_def call_checked_def holds_workflow_def)
  with assms(2) oper(1) have "scopes_of ops {oid} = set (http_scopes (http_contract oper))"
    by (auto simp: reads_as_def scopes_of_def)
  with e(1) callable_scopes [OF assms(3-5)] oper(2) show False by (auto simp: reach_def)
qed

text \<open>A closed runtime answers every call with the configuration error, and calls nobody.\<close>

lemma closed_runtime_refuses:
  assumes "read_run lib (fst (close_runtime gr reply)) finish cid arguments ctx evs outcome"
  shows "evs = [] \<and> (outcome = Some (ReadFailure configuration_code) \<or> outcome = Some ReadCancelled)"
  using assms by cases (auto simp: close_runtime_def settle_def split: if_splits)

end
