(* ===== verification/ReadExamples.thy ===== *)
theory ReadExamples
  imports ReadSoundness Examples
begin

text \<open>
  A read capability of a pack with a tenant policy, a public default and a byte budget: it is loaded with
  its interaction manifest, called, and its workflow is run to the end.
\<close>

section \<open>The pack\<close>

definition show_steps :: "step list" where
  "show_steps =
     [CallStep (Some ''item'') ''items.get'' [(''id'', JStr ''$.input.id'')], EmitStep None (JStr ''$.steps.item'')]"

definition show_schema :: json where
  "show_schema = JObj [(''properties'', JObj [(''id'', JObj [(''type'', JStr ''integer'')])])]"

definition show_definition :: json where
  "show_definition =
     JObj [(''id'', JStr ''item.show''), (''kind'', JStr ''read''), (''input_schema'', show_schema), (''output_schema'', JObj []),
           (''workflow'', JArr (map step_json show_steps))]"

definition get_item_json :: "(string, json) dict" where
  "get_item_json = [(''id'', JStr ''items.get''), (''input_schema'', JObj []), (''output_schema'', JObj [])]"

definition get_item :: operation where
  "get_item =
     (demo_operation ''items.get'')
       \<lparr>http_contract := (http_contract (demo_operation ''a''))\<lparr>http_scopes := [''items:read'']\<rparr>\<rparr>"

definition show_capability :: capability where
  "show_capability =
     \<lparr>cap_id = ''item.show'', cap_title = ''Show an item'', cap_input_schema = show_schema, cap_output_schema = JObj [],
      cap_policy = ''items'', cap_body = ReadBody show_steps\<rparr>"

definition item_policy :: policy where
  "item_policy =
     \<lparr>policy_id = ''items'', required_scopes = [''items:use''], tenant_mode = TenantRequired, tenant_field = Some ''account.id'',
      readable_fields = [''id'', ''name''], denied_fields = [], redaction_rules = []\<rparr>"

definition show_manifest :: "string \<Rightarrow> (string, json) dict" where
  "show_manifest digest =
     [(''contracts'', JObj [(''item.show'', JObj (map (\<lambda>k. (k,
         if k = ''capability_id'' then JStr ''item.show''
         else if k = ''defaults''
         then JArr [JObj [(''id'', JStr ''d1''), (''source_kind'', JStr ''literal''), (''target_pointer'', JStr ''/id''),
                          (''value'', JInt 7)]]
         else JNull)) interaction_contract_fields))]),
      (''dependencies'', JArr []), (''digest'', JStr digest), (''inventory'', JObj [(''status'', JStr ''not_declared'')]),
      (''schema_version'', JStr ''2'')]"

definition show_digest :: string where
  "show_digest = replicate 64 (CHR ''0'')"

definition item_crypto :: crypto where
  "item_crypto = demo_crypto\<lparr>sha256_hex := (\<lambda>_. show_digest)\<rparr>"

definition show_ir :: "(string, json) dict" where
  "show_ir =
     [(''ir_version'', JStr ''2''), (''project'', JObj []),
      (''capabilities'', JObj [(''item.show'', JObj [(''definition'', show_definition),
         (''quality'', JObj [(''max_output_bytes'', JInt 40)])])]),
      (''policies'', JObj [(''items'', JObj [])]), (''operations'', JObj [(''items.get'', JObj get_item_json)]),
      (''interactions'', JObj (show_manifest show_digest)), (''interaction_sha256'', JStr show_digest)]"

definition item_library :: read_library where
  "item_library =
     \<lparr>parse_operation = (\<lambda>op. if op = get_item_json then Some get_item else None),
      parse_capability = (\<lambda>v. if v = show_definition then Some show_capability else None),
      parse_policy = (\<lambda>v. Some item_policy),
      parse_project = (\<lambda>v. Some \<lparr>project_id = ''shop'', binding_allowlist = []\<rparr>),
      lib_valid = (\<lambda>_ _. True), lib_check = (\<lambda>_. True), lib_crypto = item_crypto\<rparr>"

definition item_context :: principal_context where
  "item_context =
     \<lparr>principal_id = ''alice'', gateway_session_id = None, target_system_id = ''shop'', source_scopes = None,
      scope_ceiling = {''items:read'', ''items:use''}, effective_scopes = {''items:read'', ''items:use''},
      tenant_context = Some (JObj [(''tenant_id'', JInt 3)]), auth_state_handle = ''auth''\<rparr>"

definition item_runtime :: generic_runtime where
  "item_runtime =
     \<lparr>gr_ir = show_ir, gr_project = \<lparr>project_id = ''shop'', binding_allowlist = []\<rparr>,
      gr_defaults = [(''item.show'', [([''id''], JInt 7)])], gr_manifest = sort_keys (JObj (show_manifest show_digest)),
      gr_context = item_context, gr_owns_strategy = True, gr_closed = False\<rparr>"

lemma item_digest: "json_finite v \<Longrightarrow> json_digest item_crypto v = Some show_digest"
  using json_text_None_iff [of "float_repr item_crypto" v] by (auto simp: json_digest_def item_crypto_def)

lemma show_fields:
  "get_or_null show_ir ''interactions'' = JObj (show_manifest show_digest)"
  "get_or_null show_ir ''interaction_sha256'' = JStr show_digest"
  "get_or_null show_ir ''capabilities'' =
     JObj [(''item.show'', JObj [(''definition'', show_definition), (''quality'', JObj [(''max_output_bytes'', JInt 40)])])]"
  by (simp_all add: show_ir_def get_or_null_def)

lemma show_manifest_checks:
  "set (dkeys (show_manifest show_digest)) = {''schema_version'', ''digest'', ''inventory'', ''contracts'', ''dependencies''}"
  "get_or_null (show_manifest show_digest) ''schema_version'' = JStr ''2''"
  "dget (show_manifest show_digest) ''digest'' = Some (JStr show_digest)" "is_digest show_digest"
  "interaction_inventory_ok (get_or_null (show_manifest show_digest) ''inventory'')"
  "get_or_null (show_manifest show_digest) ''dependencies'' = JArr []"
  "json_finite (JObj (dpop (show_manifest show_digest) ''digest''))"
  subgoal by (auto simp: show_manifest_def dkeys_def)
  subgoal by code_simp
  subgoal by code_simp
  subgoal by code_simp
  subgoal by code_simp
  subgoal by code_simp
  subgoal by code_simp
  done

lemma show_contracts:
  "(case get_or_null (show_manifest show_digest) ''contracts'' of
      JObj contracts \<Rightarrow>
        parse_contracts
          [(''item.show'', JObj [(''definition'', show_definition), (''quality'', JObj [(''max_output_bytes'', JInt 40)])])] contracts
    | _ \<Rightarrow> None) = Some [(''item.show'', [([''id''], JInt 7)])]"
  by code_simp

lemma show_loads:
  "load_interactions item_crypto show_ir =
     Some (sort_keys (JObj (show_manifest show_digest)), [(''item.show'', [([''id''], JInt 7)])])"
proof -
  obtain contracts where c: "get_or_null (show_manifest show_digest) ''contracts'' = JObj contracts"
    by (simp add: show_manifest_def get_or_null_def)
  have d: "get_or_null (show_manifest show_digest) ''digest'' = JStr show_digest"
    using show_manifest_checks(3) by (simp add: get_or_null_def)
  have k: "dkeys [(''item.show'', v)] = [''item.show'']" for v :: json by (simp add: dkeys_def)
  note checks = show_manifest_checks item_digest [OF show_manifest_checks(7)]
  from show_contracts show ?thesis
    by (simp add: load_interactions_def show_fields dependencies_ok_def c d k checks
        del: sort_keys.simps json_finite.simps get_or_null_JObj)
qed

lemma item_runtime_made: "make_runtime item_library show_ir item_context True = Inr item_runtime"
proof -
  have "get_or_null show_ir ''ir_version'' = JStr ''2''" by (simp add: show_ir_def get_or_null_def)
  with show_loads show ?thesis
    by (simp add: make_runtime_def item_library_def parsed_def item_runtime_def item_context_def)
qed

section \<open>A call\<close>

definition item_reply :: "string \<Rightarrow> (string, json) dict \<Rightarrow> json \<Rightarrow> call_reply" where
  "item_reply oid op args = Replied (JObj [(''id'', JInt 7), (''name'', JStr ''lamp''), (''cost'', JInt 2)])"

definition shown_item :: json where
  "shown_item = JObj [(''id'', JInt 7), (''name'', JStr ''lamp'')]"

lemma show_evaluates:
  "evaluate_proc item_reply (execute_call item_library item_runtime ''item.show'' [] item_context) = Inr shown_item"
  by code_simp

lemma show_holds:
  "holds_workflow (gr_ir item_runtime) ''item.show'' show_steps [(''items.get'', JObj get_item_json)]"
  by code_simp

lemma show_read:
  "read_capability item_library item_runtime ''item.show'' = Inr show_capability"
  "read_policy item_library item_runtime (cap_policy show_capability) = Inr item_policy"
  by code_simp+

lemma show_reads_as: "reads_as item_library [(''items.get'', get_item)] [(''items.get'', JObj get_item_json)]"
  by (auto simp: reads_as_def calls_known_def load_operation_def item_library_def split: if_splits)

lemma show_analysis:
  "\<exists>q. analyze_capability show_capability (required_scopes item_policy) [(''items.get'', get_item)] = Inr q \<and>
     dim_status (dimension_of q (Some (effective_scopes item_context))) = Callable"
proof -
  have "(case analyze_capability show_capability (required_scopes item_policy) [(''items.get'', get_item)] of
     Inl _ \<Rightarrow> False | Inr q \<Rightarrow> dim_status (dimension_of q (Some (effective_scopes item_context))) = Callable)"
    by code_simp
  then show ?thesis by (cases "analyze_capability show_capability (required_scopes item_policy) [(''items.get'', get_item)]") auto
qed

lemma show_call:
  "\<exists>evs. read_run item_library item_runtime (\<lambda>_. False) ''item.show'' [] item_context evs (Some (ReadSuccess shown_item)) \<and> evs \<noteq> []"
proof -
  from run_to_end [OF execute_call_weighs [OF show_holds]] obtain evs n r os where
    r: "exec_run (execute_call item_library item_runtime ''item.show'' [] item_context, []) evs n (Finished r, os)"
    "answered (\<lambda>oid op args r. r = item_reply oid op args) evs" by blast
  have res: "r = Inr shown_item" using run_agrees [OF r, of shown_item] show_evaluates by simp
  have "\<not> gr_closed item_runtime" by (simp add: item_runtime_def)
  from read_run.finished [OF this r(1), of "\<lambda>_. False"] res
  have run: "read_run item_library item_runtime (\<lambda>_. False) ''item.show'' [] item_context evs (Some (ReadSuccess shown_item))"
    by (simp add: settle_def)
  have "evs \<noteq> []"
  proof
    assume "evs = []"
    with r res have "evaluate_proc (\<lambda>_ _ _. RaisedException)
        (execute_call item_library item_runtime ''item.show'' [] item_context) = Inr shown_item"
      using run_agrees [of "execute_call item_library item_runtime ''item.show'' [] item_context" "[]" n r os
        "\<lambda>_ _ _. RaisedException" shown_item] by simp
    moreover have "evaluate_proc (\<lambda>_ _ _. RaisedException)
        (execute_call item_library item_runtime ''item.show'' [] item_context) = Inl (ExecutionError ExecOperationFailed)"
      by code_simp
    ultimately show False by simp
  qed
  with run show ?thesis by blast
qed

lemma show_tenant [simp]: "tenant_id item_context = JInt 3"
  by code_simp

lemma item_policy_requires [simp]: "tenant_mode item_policy = TenantRequired"
  by (simp add: item_policy_def)

lemma show_asks:
  "\<exists>evs n p oid op args r.
     exec_run (execute (read_schemas item_library) (gr_ir item_runtime) ''item.show'' (JObj [(''id'', JInt 7)]), []) evs n p \<and>
     (oid, op, args, r) \<in> set evs"
proof -
  let ?p = "execute (read_schemas item_library) (gr_ir item_runtime) ''item.show'' (JObj [(''id'', JInt 7)])"
  from run_to_end [OF execute_weighs [OF show_holds]] obtain evs n r os where
    r: "exec_run (?p, []) evs n (Finished r, os)" "answered (\<lambda>oid op args r. r = item_reply oid op args) evs" by blast
  have "evs \<noteq> []"
  proof
    assume "evs = []"
    with r have "r = Inr v \<longleftrightarrow> evaluate_proc f ?p = Inr v" for f v using run_agrees [of ?p "[]" n r os f v] by simp
    moreover have "evaluate_proc item_reply ?p = Inr (JObj [(''id'', JInt 7), (''name'', JStr ''lamp''), (''cost'', JInt 2)])"
      "evaluate_proc (\<lambda>_ _ _. RaisedException) ?p = Inl (ExecutionError ExecOperationFailed)" by code_simp+
    ultimately show False by (metis sum.distinct(1))
  qed
  then obtain e where "e \<in> set evs" by (cases evs) auto
  with r(1) show ?thesis by (cases e) blast
qed

end
