(* ===== verification/Spec2Isabelle.thy ===== *)
theory Spec2Isabelle
  imports Examples WorkflowExample SchemaExamples ActionExamples PointerGuarantee ReadExamples
begin

text \<open>
  A verification development for the Agent Capability Compiler: a compiler that turns a project of
  Operations, Capabilities and policies into an IR, and a runtime that executes Capabilities for agents.
  Source paths are below \<^verbatim>\<open>src/packages\<close>; \<open>rt\<close> stands for
  \<^verbatim>\<open>acc-runtime/src/acc_runtime\<close> and \<open>core\<close> for \<^verbatim>\<open>acc-core/src/acc_core\<close>.

  The program. The compiler checks each workflow (references, step identifiers, operations), computes
  which scopes its runs can need and writes it to the IR. The runtime classifies Capabilities by the
  scopes at hand, runs a read Capability by interpreting its workflow, filters what the policy discloses,
  and runs an Action (a Capability that changes something) in two phases: prepare seals input and
  preview in a Store under a handle, a trusted host approves, commit executes at most once.

  Theories and the code they model:

  \<^item> \<open>Prelude\<close>: errors as sums (\<open>rbind\<close>, \<open>ensure\<close>, \<open>traverse\<close>),
    dictionaries in insertion order, string tests; the facts all theories share.
  \<^item> \<open>Json\<close>: JSON values, \<open>_json_equal\<close> and the canonical bytes and digests of
    \<open>rt/actions/models.py\<close>.
  \<^item> \<open>Deployment\<close>: \<open>rt/deployment.py\<close>, the ceiling of effects and risks and its decision.
  \<^item> \<open>Workflow\<close>: the documents of \<open>core/models\<close>: steps, conditions, HTTP and safety
    contracts, Operations and Capabilities, with their validators.
  \<^item> \<open>Scopes\<close>: \<open>core/scope/analysis.py\<close>. \<open>completes\<close> says which scope sets
    successful runs use; the analysis describes that family exactly.
  \<^item> \<open>Principal\<close>, \<open>Callability\<close>: \<open>rt/context.py\<close> and \<open>rt/callability.py\<close>,
    effective scopes, tenant context, and the classification of Capabilities.
  \<^item> \<open>PolicyEnforcer\<close>: \<open>rt/policies/enforcer.py\<close>, authorization and the disclosure filter.
  \<^item> \<open>Executor\<close>: \<open>rt/execution/executor.py\<close>. \<open>execute\<close> yields a process tree:
    \<open>Calls\<close> waits for the operation caller, \<open>Gather\<close> is \<^verbatim>\<open>asyncio.gather\<close>.
    \<open>Execution\<close> runs such trees under every interleaving (\<open>pstep\<close>, \<open>exec_run\<close>),
    including the tasks an exception leaves behind, and has the sequential reference evaluation.
  \<^item> \<open>WorkflowCheck\<close>: the workflow check of \<open>core/compiler/ir.py\<close> and the JSON of steps.
    \<open>WorkflowRuns\<close>, \<open>WorkflowSoundness\<close> and \<open>ExecuteWorkflow\<close> relate it to the executor.
  \<^item> \<open>ActionStore\<close>, \<open>Approval\<close>: the records, status graph and in-memory Store of
    \<open>rt/actions/store.py\<close>, and the one-time authority of \<open>rt/actions/approval.py\<close>. Each
    provides a locale, \<open>action_store\<close> and \<open>approval_authority\<close>, and interprets it.
  \<^item> \<open>ActionProgram\<close>, \<open>Coordinator\<close>: the audit spans and \<open>rt/actions/coordinator.py\<close>. A
    coroutine is a tree of requests to Store, authority and executor, one node for every await.
  \<^item> \<open>Interleaving\<close>, \<open>CommitOutcome\<close>: systems of many coroutines over one Store and one
    authority, scheduled and cancelled in any order; locale \<open>action_boundary\<close> is stated over any Store
    and authority with the two contracts and is interpreted on the in-memory ones.
  \<^item> \<open>ActionProof\<close>, \<open>ActionProver\<close>: \<open>core/compiler/actions.py\<close>, the safety proof of an Action: call
    sites, mutation counts, references to the sealed record, guaranteed pointers, status queries, the guards.
  \<^item> \<open>ActionRuntime\<close>, \<open>ActionExecution\<close>: \<open>rt/actions/runtime_executor.py\<close>. Loading proves the Action
    again; \<open>through_caller\<close> puts the operation caller between the executor and the provider;
    \<open>preview_run\<close>, \<open>commit_run\<close> and \<open>recover_run\<close> are what a call of the executor can do. \<open>CallCounts\<close>,
    \<open>MutationCounts\<close>, \<open>SealedRequests\<close> and \<open>ActionSoundness\<close> show what the proof is worth,
    \<open>ProviderCalls\<close> puts these runs behind the boundary, \<open>PointerGuarantee\<close> ties the pointers the
    compiler trusts to those the runtime resolves.
  \<^item> \<open>Interactions\<close>, \<open>ReadRuntime\<close>: the interaction contracts with their public defaults, and the read calls of
    \<open>rt/runtime.py\<close>: the checks before a run, the policy's operation caller (\<open>through_policy\<close>), disclosure,
    output schema and byte budget. \<open>read_run\<close> is what a call can do; \<open>ReadSoundness\<close> bounds what it sends and
    returns and ties it to the scope analysis. Reading documents is the parameter \<open>read_library\<close>.
  \<^item> \<open>SchemaRelation\<close>: \<open>core/contracts/schema_relation.py\<close>, which compares the schemas of an
    Operation with those of its source. \<open>SchemaSemantics\<close> states the meaning of the keywords as locale
    \<open>schema_validator\<close>; \<open>SchemaSoundness\<close> proves that the comparison returns; \<open>SchemaContainment\<close>,
    \<open>SchemaProof\<close> and \<open>SchemaRecursion\<close> that on a fragment its proofs are containment.
  \<^item> \<open>Examples\<close>, \<open>WorkflowExample\<close>, \<open>SchemaExamples\<close>, \<open>ActionExamples\<close>, \<open>ReadExamples\<close>:
    concrete values for the witnesses.

  What the lemmas show. Store: an invariant of every operation, and that successful transitions climb a
  rank. Boundary: a log invariant by induction on schedules, from which at most one execution of each
  prepared Action follows; and, for one commit run alone with any audit sink, what it returns and stores. Executor: a predicate \<open>safe\<close> on process trees bounds calls, errors and
  results of every run; \<open>weighs\<close> bounds moves; \<open>succeeds\<close> ties runs to the sequential
  evaluation and to the scope analysis. Check: a workflow without diagnostics is \<open>safe\<close> for the errors the
  check is meant to exclude. Actions: \<open>counts\<close> bounds the mutating calls of a process from both sides, and
  the static counts of a commit are such bounds; every call comes from a call site, and a mutation site
  of a proved Action resolves its arguments in the sealed record. Comparison: visited pairs are contained or enclose the pair at hand, so a
  proven pair is contained; the same lemmas show which keywords the code skips. Enforcer: a value is disclosed only along admitted paths, and those survive.

  Conventions. Strings are lists of characters up to U+00FF. Floats are finite rationals, infinities and
  not-a-number. Dictionaries are association lists without duplicate keys. The JSON round trip of the
  code is the identity but for the order of keys, \<open>sort_keys\<close>. Reading and dumping of documents by pydantic
  is a parameter of the Action runtime, with the hypothesis \<open>dump_keeps_id\<close> where a dump is sent back to
  the caller. Clock readings are rationals, a
  failing clock is \<open>None\<close>. Digests, random handles, the JSON Schema validator and the callers of
  operations and executors are parameters, and no property assumes a digest to be injective. The
  handle in a node that asks for an execution names the Action for the log only; event identifiers and
  times of the audit are left out. Limits are the code's: 8 parallel steps, 100 items, condition depth 16
  and 64 nodes. Only the comparison of schemas runs on fuel, one more than the number of pairs of nodes of
  the two documents, which is proved enough; all other recursion is structural or has its measure, and the
  number of moves of a run is a theorem.

  Not modelled. The schedules of the boundary cancel a call at any await, before or after the call took effect,
  but they leave out the inner transition that \<^verbatim>\<open>asyncio.shield\<close> keeps running, detached, when a call that
  is recording an unknown outcome is cancelled a second time. SQLite stores and the encrypted vault, HTTP, authentication and MCP transports, the gateway,
  packaging, the command line, the usage layer, evals, the compilation of interactions, coverage, quality and domain reports,
  the test kit and scripts: they are I/O around libraries whose code is not here, or reports that decide
  nothing at run time. Texts and details of errors are left out, their codes are kept.
\<close>

section \<open>The Action boundary under every schedule\<close>

text \<open>
  C1. For every schedule of prepare, approve, commit and status calls, every clock reading,
  cancellation and executor answer, the executor's commit is called at most once per prepared
  Action; each such call was allowed by the deployment policy and the caller's scopes, used the
  sealed input and preview of that Action, and answers a grant for exactly that Action when the
  compiled proof requires approval; no approval handle is granted twice.
\<close>

theorem executions_are_safe:
  assumes "coordinator_ok co" "make_memory_store development_only salt limit = Inr st"
  shows "executions_safe co (sha256_hex cr)
     (entry_at (w_store (s_world (run_schedule env co (memory_services cr) (fresh_system st au) evs)))) (sha256_hex cr)
     (w_log (s_world (run_schedule env co (memory_services cr) (fresh_system st au) evs)))"
  by (rule system_good_safe [OF memory_run_good [OF assms]])

theorem executions_are_safe_witness:
  "executions_safe demo_coordinator (sha256_hex demo_crypto) (entry_at (w_store (s_world demo_end))) (sha256_hex demo_crypto)
     (w_log (s_world demo_end)) \<and>
   executions (sha256_hex demo_crypto) (w_log (s_world demo_end)) (sha256_hex demo_crypto demo_handle) = 1"
  using executions_are_safe [OF demo_coordinator_ok demo_store_made, where cr = demo_crypto] demo_executions
  unfolding demo_end_def by simp

text \<open>
  C2. A commit call run alone on the in-memory Store, with a well-formed handle, by the caller the
  Action is bound to, with that caller still authorised, for an approved Action that does not
  expire before the last Store call and whose executor answers with a finite value: the executor
  is called once with the sealed values, and the Action is left successful with the result stored.
  At a coordinator without an audit sink, or whose sink records both events, the caller gets
  exactly that value. A sink that fails at the end changes only what the caller gets: with a
  required audit a state conflict, with a best-effort audit still the value; if it was cancelled,
  the cancellation. (Assumed of every audit: the coordinator has the salt its constructor asks for
  when there is a sink, digests have their documented form, and the audit's start does not stop
  the call.)
\<close>

theorem approved_commit_succeeds:
  assumes "commit_ready cr co (w_store w) now h ctx s d x" "audit_ready env co" "audit_started co r0"
    and "t0 < expires_at (state_record s)" "t1 < expires_at (state_record s)"
      "t2 < expires_at (state_record s)" "t3 < expires_at (state_record s)"
    and "json_finite v"
  shows "\<exists>st'. run_alone (memory_services cr) w (commit env co h ctx)
        (Served (Some t0) g # start_answers co r0 @
         Served (Some t1) g # Served (Some t2) g # ExecuteReply (Inr v) # Served (Some t3) g # end_answers co r0 r1) =
       (Return (audited_return co r0 r1 \<lparr>cm_capability = record_capability (state_record s), cm_status = Succeeded,
                     cm_result = sort_keys v, cm_replayed = False\<rparr>),
        w\<lparr>w_store := st', w_log := Executed h d x ctx # w_log w\<rparr>) \<and>
       (\<forall>t < expires_at (state_record s).
          live_for cr st' t h (principal_id ctx) (gateway_session_id ctx) (co_pack co)
            (moved (moved s Committing JNull) Succeeded (sort_keys v)))"
  using assms by (rule commit_succeeds)

theorem approved_commit_succeeds_witness:
  "(\<exists>st'. run_alone (memory_services demo_crypto) demo_world (commit demo_env demo_coordinator demo_handle demo_context)
        [Served (Some 2) [], Served (Some 2) [], Served (Some 3) [], ExecuteReply (Inr (JInt 1)), Served (Some 9) []] =
       (Return (Inr \<lparr>cm_capability = ''order.cancel'', cm_status = Succeeded, cm_result = JInt 1, cm_replayed = False\<rparr>),
        demo_world\<lparr>w_store := st', w_log := Executed demo_handle demo_definition demo_execution demo_context # w_log demo_world\<rparr>)) \<and>
   (\<exists>st'. run_alone (memory_services demo_crypto) demo_world (commit demo_env audited_coordinator demo_handle demo_context)
        [Served (Some 2) [], EmitReply (Inr ()), Served (Some 2) [], Served (Some 3) [], ExecuteReply (Inr (JInt 1)), Served (Some 9) [],
         EmitReply (Inl OtherException)] =
       (Return (Inl StateConflict),
        demo_world\<lparr>w_store := st', w_log := Executed demo_handle demo_definition demo_execution demo_context # w_log demo_world\<rparr>))"
  using approved_commit_succeeds [OF demo_ready demo_audit_ready(1), of "Inr ()" 2 2 3 9 "JInt 1" "[]" "Inr ()"]
    approved_commit_succeeds [OF audited_ready demo_audit_ready(2), of "Inr ()" 2 2 3 9 "JInt 1" "[]" "Inl OtherException"] demo_state_facts
  by (auto simp: audited_silent audited_recorded audited_failed demo_silent simp del: run_alone.simps)

text \<open>
  C3. Committing an Action that has already succeeded, before it expires, by the caller it is
  bound to, who is still authorised, in a call run alone on the in-memory Store: the stored result
  is returned, marked as replayed, the executor is not called and the Store is not changed. This
  is at a coordinator without an audit sink or whose sink records both events; a sink that fails
  at the end turns the result into a state conflict when the audit is required, and into the
  cancellation when it was cancelled. (Assumed of every audit: the coordinator has the salt its
  constructor asks for when there is a sink, digests have their documented form, and the audit's
  start does not stop the call.)
\<close>

theorem commit_of_success_replays:
  assumes "live_for cr (w_store w) now h (principal_id ctx) (gateway_session_id ctx) (co_pack co) s"
    and "status_in s = Succeeded" and "audit_ready env co" "audit_started co r0"
    and "dget (co_definitions co) (record_capability (state_record s)) = Some d" "authorize_definition co d ctx = Inr ()"
    and "t0 < expires_at (state_record s)" "t1 < expires_at (state_record s)"
  shows "run_alone (memory_services cr) w (commit env co h ctx)
       (Served (Some t0) g # start_answers co r0 @ Served (Some t1) g # end_answers co r0 r1) =
     (Return (audited_return co r0 r1 \<lparr>cm_capability = record_capability (state_record s), cm_status = Succeeded,
                   cm_result = result_value s, cm_replayed = True\<rparr>), w)"
  using assms by (rule commit_replays)

theorem commit_of_success_replays_witness:
  "\<exists>st. run_alone (memory_services demo_crypto) (demo_world\<lparr>w_store := st\<rparr>)
      (commit demo_env demo_coordinator demo_handle demo_context) [Served (Some 10) [], Served (Some 11) []] =
     (Return (Inr \<lparr>cm_capability = ''order.cancel'', cm_status = Succeeded, cm_result = JInt 1, cm_replayed = True\<rparr>),
      demo_world\<lparr>w_store := st\<rparr>)"
proof -
  let ?s = "moved (moved demo_state Committing JNull) Succeeded (JInt 1)"
  obtain st where st: "\<And>t. t < 600 \<Longrightarrow> live_for demo_crypto st t demo_handle ''alice'' None demo_pack ?s"
    using commit_succeeds [OF demo_ready demo_audit_ready(1), of "Inr ()" 2 2 3 9 "JInt 1" "[]"] demo_state_facts
    by (auto simp: demo_fields audited_silent demo_silent)
  have "run_alone (memory_services demo_crypto) (demo_world\<lparr>w_store := st\<rparr>) (commit demo_env demo_coordinator demo_handle demo_context)
      (Served (Some 10) [] # start_answers demo_coordinator (Inr ()) @ Served (Some 11) [] # end_answers demo_coordinator (Inr ()) (Inr ())) =
     (Return (audited_return demo_coordinator (Inr ()) (Inr ())
        \<lparr>cm_capability = record_capability (state_record ?s), cm_status = Succeeded, cm_result = result_value ?s, cm_replayed = True\<rparr>),
      demo_world\<lparr>w_store := st\<rparr>)"
    by (rule commit_of_success_replays [OF _ _ demo_audit_ready(1) audited_silent(3) [OF demo_silent] _ demo_checks(4)])
      (use st [of 10] demo_state_facts in \<open>simp_all add: demo_fields\<close>)
  with demo_state_facts show ?thesis by (intro exI [of _ st]) (simp add: audited_silent demo_silent del: run_alone.simps)
qed

text \<open>
  C4. When the executor raises, or the commit is cancelled while it executes, in a commit call run
  alone on the in-memory Store by the bound and authorised caller, of an approved Action that does
  not expire before the last Store call: the Action is recorded with an unknown outcome and the
  caller gets an error, never a success. The error is the cancellation, or else a state conflict,
  which is replaced only when a sink is asked to record the end of the commit and is cancelled
  (the cancellation) or fails under a required audit (the audit error). (Assumed of every audit:
  the coordinator has the salt its constructor asks for when there is a sink, digests have their
  documented form, and the audit's start does not stop the call.)
\<close>

theorem failed_commit_is_outcome_unknown:
  assumes "commit_ready cr co (w_store w) now h ctx s d x" "audit_ready env co" "audit_started co r0"
    and "t0 < expires_at (state_record s)" "t1 < expires_at (state_record s)"
      "t2 < expires_at (state_record s)" "t3 < expires_at (state_record s)" "t4 < expires_at (state_record s)"
  shows "\<exists>st'. run_alone (memory_services cr) w (commit env co h ctx)
        (Served (Some t0) g # start_answers co r0 @
         Served (Some t1) g # Served (Some t2) g # ExecuteReply (Inl e) # Served (Some t3) g # Served (Some t4) g #
         end_answers co r0 r1) =
       (Return (audited_error co r0 r1 (if e = Cancelled then Cancelled else StateConflict)),
        w\<lparr>w_store := st', w_log := Executed h d x ctx # w_log w\<rparr>) \<and>
       entry_at st' (sha256_hex cr h) = Some (moved (moved s Committing JNull) OutcomeUnknown JNull)"
  using assms by (rule commit_fails)

theorem failed_commit_is_outcome_unknown_witness:
  "(\<exists>st'. run_alone (memory_services demo_crypto) demo_world (commit demo_env demo_coordinator demo_handle demo_context)
        [Served (Some 2) [], Served (Some 2) [], Served (Some 3) [], ExecuteReply (Inl Cancelled), Served (Some 4) [], Served (Some 5) []] =
       (Return (Inl Cancelled),
        demo_world\<lparr>w_store := st', w_log := Executed demo_handle demo_definition demo_execution demo_context # w_log demo_world\<rparr>) \<and>
       map_option status_in (entry_at st' (sha256_hex demo_crypto demo_handle)) = Some OutcomeUnknown) \<and>
   (\<exists>st'. run_alone (memory_services demo_crypto) demo_world (commit demo_env audited_coordinator demo_handle demo_context)
        [Served (Some 2) [], EmitReply (Inr ()), Served (Some 2) [], Served (Some 3) [], ExecuteReply (Inl OtherException), Served (Some 4) [],
         Served (Some 5) [], EmitReply (Inr ())] =
       (Return (Inl StateConflict),
        demo_world\<lparr>w_store := st', w_log := Executed demo_handle demo_definition demo_execution demo_context # w_log demo_world\<rparr>))"
  using failed_commit_is_outcome_unknown [OF demo_ready demo_audit_ready(1), of "Inr ()" 2 2 3 4 5 "[]" Cancelled "Inr ()"]
    failed_commit_is_outcome_unknown [OF audited_ready demo_audit_ready(2), of "Inr ()" 2 2 3 4 5 "[]" OtherException "Inr ()"] demo_state_facts
  by (auto simp: audited_silent audited_recorded demo_silent simp del: run_alone.simps)

text \<open>
  C5. When the prepared Action expires while a commit call, run alone on the in-memory Store by
  the bound and authorised caller, executes it with success, the executor has acted, but the
  caller gets a state conflict (or, when a sink fails at the end, the cancellation or the error of
  a required audit), and the record ends as expired, whatever the later clock readings are; ADR
  007 asks that a mutation whose result cannot be closed stays recorded as having an unknown
  outcome. (Assumed of every audit: the coordinator has the salt its constructor asks for when
  there is a sink, digests have their documented form, and the audit's start does not stop the
  call.)
\<close>

theorem expiry_hides_execution:
  assumes "commit_ready cr co (w_store w) now h ctx s d x" "audit_ready env co" "audit_started co r0"
    and "t0 < expires_at (state_record s)" "t1 < expires_at (state_record s)" "t2 < expires_at (state_record s)"
      "expires_at (state_record s) \<le> t3"
    and "json_finite v"
  shows "\<exists>w'. run_alone (memory_services cr) w (commit env co h ctx)
        (Served (Some t0) g # start_answers co r0 @
         Served (Some t1) g # Served (Some t2) g # ExecuteReply (Inr v) # Served (Some t3) g #
         Served (Some t4) g # Served (Some t5) g # end_answers co r0 r1) = (Return (audited_error co r0 r1 StateConflict), w') \<and>
       w_log w' = Executed h d x ctx # w_log w \<and>
       (\<exists>s'. entry_at (w_store w') (sha256_hex cr h) = Some s' \<and> status_in s' = Expired \<and> sealed s' = sealed s)"
  using assms by (rule commit_expires)

theorem expiry_hides_execution_witness:
  "\<exists>w'. run_alone (memory_services demo_crypto) demo_world (commit demo_env demo_coordinator demo_handle demo_context)
        [Served (Some 2) [], Served (Some 2) [], Served (Some 3) [], ExecuteReply (Inr (JInt 1)), Served (Some 600) [],
         Served (Some 601) [], Served (Some 602) []] = (Return (Inl StateConflict), w') \<and>
       (\<exists>s'. entry_at (w_store w') (sha256_hex demo_crypto demo_handle) = Some s' \<and> status_in s' = Expired)"
  using expiry_hides_execution [OF demo_ready demo_audit_ready(1), of "Inr ()" 2 2 3 600 "JInt 1" "[]" 601 602 "Inr ()"] demo_state_facts
  by (auto simp: audited_silent demo_silent simp del: run_alone.simps)

text \<open>
  C6. A required audit comes first: when the sink cannot record the start of a commit, of an
  Action that is bound to the caller and has not expired, nothing else is done: the caller gets
  the audit error (or the cancellation of the sink), the Store is not changed and the executor is
  not called.
\<close>

theorem required_audit_precedes_commit:
  assumes "live_for cr (w_store w) t0 h (principal_id ctx) (gateway_session_id ctx) (co_pack co) s" "audit_ready env co"
    and "co_sink co" "action_audit_mode (co_policy co) = AuditRequired"
  shows "run_alone (memory_services cr) w (commit env co h ctx) [Served (Some t0) g, EmitReply (Inl e)] =
     (Return (Inl (if e = Cancelled then Cancelled else AuditUnavailable)), w)"
  using commit_unrecorded [OF assms, of "Inl e"] by simp

theorem required_audit_precedes_commit_witness:
  "run_alone (memory_services demo_crypto) demo_world (commit demo_env audited_coordinator demo_handle demo_context)
      [Served (Some 2) [], EmitReply (Inl OtherException)] = (Return (Inl AuditUnavailable), demo_world)"
  using required_audit_precedes_commit [of demo_crypto demo_world 2 demo_handle demo_context audited_coordinator demo_state demo_env
      "[]" OtherException] demo_live [of 2] demo_audit_ready(2) by (simp add: demo_context_def)

section \<open>From the boundary to the provider\<close>

text \<open>
  C7. Along every schedule of the Action boundary, if each call of the executor's commit in its
  log is answered by a run of the runtime's commit over a provider (under any interleaving,
  replies, failures and abandoned tasks, with the local guard's fresh preview and the status
  query), the provider has been asked for at most one mutation per prepared Action: the compiler's
  count of mutations per path, checked again when the Action is loaded, bounds every run. The
  hypotheses are that the dump of an Operation keeps its identifier and that no Operation
  identifier looks like a prepared reference.
\<close>

theorem prepared_actions_mutate_once:
  assumes "coordinator_ok co" "make_memory_store development_only salt limit = Inr st"
    "dump_keeps_id rt" "ids_plain (ai_operations (rt_ir rt))"
    "list_all2 (provider_run rt)
       (w_log (s_world (run_schedule env co (memory_services cr) (fresh_system st au) evs))) runs"
  shows "sum_list (map2 (mutations_for (is_action (ai_operations (rt_ir rt))) (sha256_hex cr) dg)
       (w_log (s_world (run_schedule env co (memory_services cr) (fresh_system st au) evs))) runs) \<le> 1"
proof -
  have "executions (sha256_hex cr) (w_log (s_world (run_schedule env co (memory_services cr) (fresh_system st au) evs))) dg \<le> 1"
    using system_good_safe [OF memory_run_good [OF assms(1,2)]] by (simp add: executions_safe_def)
  with provider_runs_mutate [OF assms(5,3,4)] show ?thesis by (rule order_trans)
qed

theorem prepared_actions_mutate_once_witness:
  "\<exists>evs. commit_run order_runtime cancel_capability cancel_execution order_context evs (Some (Inr cancelled)) \<and>
     sum_list (map2 (mutations_for (is_action (ai_operations (rt_ir order_runtime))) (sha256_hex demo_crypto)
       (sha256_hex demo_crypto demo_handle)) (w_log (s_world cancel_end)) [evs]) \<le> 1"
proof -
  from cancel_commits obtain evs where
    c: "commit_run order_runtime cancel_capability cancel_execution order_context evs (Some (Inr cancelled))" by blast
  then have "list_all2 (provider_run order_runtime) (w_log (s_world cancel_end)) [evs]"
    by (auto simp: cancel_log cancel_definition_capability)
  from prepared_actions_mutate_once [OF cancel_coordinator_ok demo_store_made order_facts this [unfolded cancel_end_def]] c
  show ?thesis unfolding cancel_end_def by blast
qed

text \<open>
  C8. Whenever the commit workflow of a loaded Action ends with a value, under every interleaving
  and whatever the replies are, exactly one of its calls was a mutation: the runtime's own check
  after the workflow, that one mutation was made, can never fail, since the count that loading has
  proved is exact. The hypotheses are that the dump of an Operation keeps its identifier and that
  no Operation identifier looks like a prepared reference.
\<close>

theorem commit_workflows_mutate_once:
  assumes "load rt c ctx = Inr l" "dump_keeps_id rt" "ids_plain (l_operations l)"
    and "exec_run (mutation_process rt l ctx ex, []) evs n (Finished (Inr raw), os)"
  shows "\<exists>oid. mutated_ids l evs = [oid]"
  by (rule mutation_process_exact [OF assms(4) load_proved(1) [OF assms(1)] assms(2,3)])

theorem commit_workflows_mutate_once_witness:
  "\<exists>evs n os oid. exec_run (mutation_process order_runtime loaded_cancel order_context cancel_execution, []) evs n
      (Finished (Inr cancelled), os) \<and> mutated_ids loaded_cancel evs = [oid]"
proof -
  from cancel_runs obtain evs n os where
    r: "exec_run (mutation_process order_runtime loaded_cancel order_context cancel_execution, []) evs n
      (Finished (Inr cancelled), os)" by blast
  from commit_workflows_mutate_once [OF load_cancel order_facts(1) cancel_facts(2) r] r show ?thesis by blast
qed

text \<open>
  C9. The arguments of every mutating call of a commit are those that a mutating call site of the
  commit workflow yields when its references are resolved in the sealed record alone, with the
  policy's tenant and the context bindings added. A reply during the commit can decide which site
  is reached, but not with which arguments; the one exception is the local development guard,
  under which the sealed record carries the preview that the commit has just read again, from the
  sealed input, and found in the allowed state of the prepared one. The hypotheses are that the
  dump of an Operation keeps its identifier and that no Operation identifier looks like a prepared
  reference.
\<close>

theorem mutation_requests_are_sealed:
  assumes "load rt c ctx = Inr l" "dump_keeps_id rt" "ids_plain (l_operations l)" "commit_run rt c ex ctx evs outcome"
    "(oid, op, args, r) \<in> set evs" "is_action (l_operations l) oid"
  shows "\<exists>ex'. rechecked rt l ctx evs ex ex' \<and> (oid, args) \<in> set (sealed_requests rt l ctx ex')"
  by (rule commit_run_sealed [OF assms(4,1,2,3,5,6)])

theorem mutation_requests_are_sealed_witness:
  "\<exists>evs oid op args r. commit_run order_runtime cancel_capability cancel_execution order_context evs (Some (Inr cancelled)) \<and>
     (oid, op, args, r) \<in> set evs \<and> (oid, args) \<in> set (sealed_requests order_runtime loaded_cancel order_context cancel_execution)"
proof -
  from cancel_commits obtain evs where
    c: "commit_run order_runtime cancel_capability cancel_execution order_context evs (Some (Inr cancelled))" by blast
  have "\<not> ex_terminal cancel_execution" by (simp add: cancel_execution_def)
  from commit_run_exact [OF c load_cancel cancel_facts(5) this order_facts] cancel_facts(3)
  have "selected (is_action (l_operations loaded_cancel)) evs \<noteq> 0" by simp
  then obtain oid op args r where e: "(oid, op, args, r) \<in> set evs" "is_action (l_operations loaded_cancel) oid"
    unfolding selected_0 by force
  from mutation_requests_are_sealed [OF load_cancel order_facts(1) cancel_facts(2) c e] cancel_facts(5)
  have "(oid, args) \<in> set (sealed_requests order_runtime loaded_cancel order_context cancel_execution)" by (auto simp: rechecked_def)
  with c e(1) show ?thesis by blast
qed

text \<open>
  C10. A preview and the recovery of an unknown outcome never ask the provider for a mutation,
  whatever the workflow, the bindings and the replies are: the operation caller refuses Action
  Operations outside the commit phase.
\<close>

theorem reads_never_mutate:
  assumes "load rt c ctx = Inr l"
    "(\<exists>args outcome. preview_run rt l ctx args evs outcome) \<or> (\<exists>ex outcome. recover_run rt c ex ctx evs outcome)"
  shows "selected (is_action (ai_operations (rt_ir rt))) evs = 0"
  using assms(2) preview_run_reads recover_run_reads load_proved [OF assms(1)] by (metis proved_def)

theorem reads_never_mutate_witness:
  "\<exists>evs outcome. preview_run order_runtime loaded_cancel order_context [(''id'', JInt 5)] evs (Some outcome) \<and>
     selected (is_action (ai_operations (rt_ir order_runtime))) evs = 0"
proof -
  from cancel_previews obtain evs outcome where
    p: "preview_run order_runtime loaded_cancel order_context [(''id'', JInt 5)] evs (Some outcome)" by blast
  have "selected (is_action (ai_operations (rt_ir order_runtime))) evs = 0"
    by (rule reads_never_mutate [OF load_cancel]) (use p in blast)
  with p show ?thesis by blast
qed

text \<open>
  C11. A pointer the compiler finds guaranteed in a schema resolves, in every value the schema
  accepts, to a value that the schema at the pointer accepts, for a nonempty pointer and a schema
  in the fragment whose meaning is stated: it and all its subschemas use only the keywords that
  the comparison handles, in well-formed shape (no prefixItems, for instance), have no reference,
  and name the type object or array wherever they have required names.
\<close>

theorem guaranteed_pointers_resolve:
  assumes "schema_validator valid" "guarantee_ok schema" "valid schema v"
    and "schema_pointer_is_guaranteed schema pointer" "prefix ''/'' pointer"
  shows "\<exists>s w. schema_at_data_pointer schema pointer = Some s \<and> resolve_json_pointer v pointer = Some w \<and> valid (JObj s) w"
  using assms(4,5,2,3) by (rule schema_validator.guaranteed_pointer [OF assms(1)])

theorem guaranteed_pointers_resolve_witness:
  "\<exists>s. schema_at_data_pointer orders_schema ''/a~1b/1/id'' = Some s \<and> reference_valid (JObj s) (JStr ''o-2'')"
  using guaranteed_pointers_resolve [OF reference.schema_validator_axioms orders_ok orders_valid, of "''/a~1b/1/id''"]
    orders_guarantee orders_id by simp

section \<open>Read calls\<close>

text \<open>
  C12. Every request that a read call of the generic runtime sends to its provider, under every
  schedule and whatever the provider replies, is for an Operation of the pack that is no Action,
  whose scopes and the policy's scopes are granted to the caller; the Operation's input schema
  accepts the arguments, and they carry the caller's tenant when the policy requires one.
\<close>

theorem read_requests_are_authorised:
  assumes "read_run lib gr finish cid arguments ctx evs outcome" "(oid, op, a, r) \<in> set evs"
  shows "\<exists>cap pol oper operations. read_capability lib gr cid = Inr cap \<and> read_policy lib gr (cap_policy cap) = Inr pol \<and>
     get_or_null (gr_ir gr) ''operations'' = JObj operations \<and> dget operations oid = Some (JObj op) \<and>
     \<not> is_action_document (JObj op) \<and> parse_operation lib op = Some oper \<and>
     set (required_scopes pol) \<union> set (http_scopes (http_contract oper)) \<subseteq> effective_scopes ctx \<and>
     lib_valid lib (op_input_schema oper) a \<and>
     (tenant_mode pol = TenantRequired \<longrightarrow> tenant_matches pol a (Some (tenant_id ctx)))"
proof -
  from read_run_sends [OF assms] obtain cap pol effective operations where
    admit: "admit_call lib gr cid arguments ctx = Inr (cap, pol, effective)" and
    "dget (gr_ir gr) ''operations'' = Some (JObj operations)" "dget operations oid = Some (JObj op)" "authorised lib pol ctx op a"
    unfolding call_sends_def by blast
  with admit_call_Inr [OF admit] show ?thesis by (auto simp: authorised_def load_operation_def split: if_splits)
qed

theorem read_requests_are_authorised_witness:
  "\<exists>evs oid op a r. read_run item_library item_runtime (\<lambda>_. False) ''item.show'' [] item_context evs (Some (ReadSuccess shown_item)) \<and>
     (oid, op, a, r) \<in> set evs \<and> tenant_matches item_policy a (Some (JInt 3))"
proof -
  from show_call obtain evs where
    run: "read_run item_library item_runtime (\<lambda>_. False) ''item.show'' [] item_context evs (Some (ReadSuccess shown_item))" "evs \<noteq> []"
    by blast
  then obtain oid op a r where e: "(oid, op, a, r) \<in> set evs" by (metis list.set_intros(1) neq_Nil_conv prod_cases4)
  from read_requests_are_authorised [OF run(1) e] show_read have "tenant_matches item_policy a (Some (JInt 3))"
    by (auto simp: show_tenant item_policy_requires)
  with run e show ?thesis by blast
qed

text \<open>
  C13. What a read call returns is the policy filter's disclosure of a value, is accepted by the
  capability's public output schema, and its canonical encoding is no longer than the byte budget
  that the pack declares.
\<close>

theorem read_results_are_disclosed_and_checked:
  assumes "read_run lib gr finish cid arguments ctx evs (Some (ReadSuccess v))"
  shows "\<exists>cap pol raw compiled. read_capability lib gr cid = Inr cap \<and> read_policy lib gr (cap_policy cap) = Inr pol \<and>
     filter_output (lib_crypto lib) pol raw = Inr v \<and> lib_valid lib (cap_output_schema cap) v \<and>
     compiled_capability gr cid = Inr compiled \<and> fits_budget (lib_crypto lib) compiled v"
proof -
  from read_run_returns [OF assms] obtain cap pol effective result where
    admit: "admit_call lib gr cid arguments ctx = Inr (cap, pol, effective)" and
    d: "disclose_result lib gr cid cap pol result = Inr v" by blast
  from disclose_result_Inr [OF d] admit_call_Inr [OF admit] show ?thesis by blast
qed

theorem read_results_are_disclosed_and_checked_witness:
  "\<exists>raw compiled. filter_output (lib_crypto item_library) item_policy raw = Inr shown_item \<and>
     compiled_capability item_runtime ''item.show'' = Inr compiled \<and> fits_budget (lib_crypto item_library) compiled shown_item"
proof -
  from show_call obtain evs where
    "read_run item_library item_runtime (\<lambda>_. False) ''item.show'' [] item_context evs (Some (ReadSuccess shown_item))" by blast
  from read_results_are_disclosed_and_checked [OF this] show_read show ?thesis by auto
qed

text \<open>
  C14. A read call returns a value only when the caller's effective scopes contain the scopes of a
  completion in the sense of the compiler's analysis, so a capability that the callability report
  denies to the caller never succeeds.
\<close>

theorem denied_reads_never_return:
  assumes "holds_workflow (gr_ir gr) cid ss operations" "reads_as lib ops operations"
    and "read_capability lib gr cid = Inr c" "cap_body c = ReadBody ss" "read_policy lib gr (cap_policy c) = Inr pol"
    and "analyze_capability c (required_scopes pol) ops = Inr q"
    and "read_run lib gr finish cid arguments ctx evs (Some (ReadSuccess v))"
  shows "dim_status (dimension_of q (Some (effective_scopes ctx))) \<noteq> callability_status.Denied"
  using read_run_completion [OF assms(7,1-5)] dimension_status_exact [OF assms(6)] by (auto split: if_splits)

theorem denied_reads_never_return_witness:
  "\<exists>q. analyze_capability show_capability (required_scopes item_policy) [(''items.get'', get_item)] = Inr q \<and>
     dim_status (dimension_of q (Some (effective_scopes item_context))) \<noteq> callability_status.Denied"
proof -
  obtain q where q: "analyze_capability show_capability (required_scopes item_policy) [(''items.get'', get_item)] = Inr q"
    using show_analysis by blast
  from show_call obtain evs where
    run: "read_run item_library item_runtime (\<lambda>_. False) ''item.show'' [] item_context evs (Some (ReadSuccess shown_item))" by blast
  from denied_reads_never_return [OF show_holds show_reads_as show_read(1) _ show_read(2) q run] q show ?thesis
    by (simp add: show_capability_def)
qed

text \<open>
  C15. When the callability report calls a capability callable for the caller's effective scopes,
  a call by that caller to the target system of the pack passes the scope check before the run,
  whatever the arguments are, and no Operation call that its workflow can make is refused for a
  missing scope, whatever the input and the replies are.
\<close>

theorem callable_reads_are_never_refused_for_scopes:
  assumes "holds_workflow (gr_ir gr) cid ss operations" "reads_as lib ops operations" "cap_body c = ReadBody ss"
    and "read_capability lib gr cid = Inr c" "read_policy lib gr (cap_policy c) = Inr pol"
    and "analyze_capability c (required_scopes pol) ops = Inr q"
    and "dim_status (dimension_of q (Some (effective_scopes ctx))) = Callable"
    and "target_system_id ctx = project_id (gr_project gr)"
  shows "(\<exists>effective. admit_call lib gr cid arguments ctx = Inr (c, pol, effective)) \<and>
     (\<forall>input evs n p oid op args r.
        exec_run (execute (read_schemas lib) (gr_ir gr) cid input, []) evs n p \<and> (oid, op, args, r) \<in> set evs \<longrightarrow>
        policy_request lib gr pol ctx op args \<noteq> Inl (RaisedRuntime ''ACC_RUNTIME_POLICY_SCOPE_DENIED''))"
  using callable_admitted [OF assms(4,5,3,6,7,8)] callable_run_granted [OF assms(1,2,3,6,7)] by blast

theorem callable_reads_are_never_refused_for_scopes_witness:
  "(\<exists>effective. admit_call item_library item_runtime ''item.show'' [] item_context = Inr (show_capability, item_policy, effective)) \<and>
   (\<exists>evs n p oid op args r. exec_run (execute (read_schemas item_library) (gr_ir item_runtime) ''item.show'' (JObj [(''id'', JInt 7)]), []) evs n p \<and>
     (oid, op, args, r) \<in> set evs \<and>
     policy_request item_library item_runtime item_policy item_context op args \<noteq> Inl (RaisedRuntime ''ACC_RUNTIME_POLICY_SCOPE_DENIED''))"
proof -
  obtain q where q: "analyze_capability show_capability (required_scopes item_policy) [(''items.get'', get_item)] = Inr q"
    "dim_status (dimension_of q (Some (effective_scopes item_context))) = Callable" using show_analysis by blast
  from show_asks obtain evs n p oid op args r where e:
    "exec_run (execute (read_schemas item_library) (gr_ir item_runtime) ''item.show'' (JObj [(''id'', JInt 7)]), []) evs n p"
    "(oid, op, args, r) \<in> set evs" by blast
  have b: "cap_body show_capability = ReadBody show_steps" by (simp add: show_capability_def)
  have t: "target_system_id item_context = project_id (gr_project item_runtime)" by (simp add: item_context_def item_runtime_def)
  from callable_reads_are_never_refused_for_scopes [OF show_holds show_reads_as b show_read q t, of "[]"] e show ?thesis by blast
qed

text \<open>
  C16. The public defaults only fill gaps: a value that is no object and that the caller supplies
  stays where it is, and every such value of the completed arguments was supplied or comes, at a
  place the caller left empty, from a declared default.
\<close>

theorem public_defaults_only_fill_gaps:
  assumes "\<not> is_JObj v"
  shows "(lookup_path (JObj arguments) p = Some v \<longrightarrow> lookup_path (JObj (apply_public_defaults arguments ds)) p = Some v) \<and>
     (lookup_path (JObj (apply_public_defaults arguments ds)) p = Some v \<longrightarrow>
        lookup_path (JObj arguments) p = Some v \<or>
        lookup_path (JObj arguments) p = None \<and> (\<exists>(ts, w) \<in> set ds. \<exists>q. p = ts @ q \<and> lookup_path w q = Some v))"
  using apply_public_defaults_keeps [OF _ assms] apply_public_defaults_new [OF _ assms, of arguments ds p]
  unfolding from_default_def by blast

theorem public_defaults_only_fill_gaps_witness:
  "lookup_path (JObj (apply_public_defaults [(''id'', JInt 5)] [([''id''], JInt 7), ([''page'', ''size''], JInt 20)])) [''id''] = Some (JInt 5)"
  using public_defaults_only_fill_gaps [of "JInt 5" "[(''id'', JInt 5)]" "[''id'']" "[([''id''], JInt 7), ([''page'', ''size''], JInt 20)]"]
  by simp

section \<open>The workflow executor under every schedule\<close>

text \<open>
  C17. Along every run of a capability, whatever the compiled IR, the replies and the interleaving
  of its parallel calls: nothing is called and no value is returned unless the capability's input
  schema accepts the finite input; each call names an Operation of the IR and passes a finite
  object; a returned value is finite. Only where the executor's switches are on (they are by
  default, and the runtimes switch them off because they check these schemas themselves) does the
  Operation's input schema accept the arguments, and the capability's output schema the value.
\<close>

theorem runs_call_and_return_accepted_values:
  assumes "exec_run (execute env ir cid input, []) evs n (p, os)"
  shows "(evs \<noteq> [] \<or> (\<exists>v. p = Finished (Inr v)) \<longrightarrow> input_accepted env ir cid input) \<and>
     (\<forall>(oid, op, args, r) \<in> set evs. \<exists>operations. dget ir ''operations'' = Some (JObj operations) \<and>
        dget operations oid = Some (JObj op) \<and> is_JObj args \<and> json_finite args \<and>
        (validates_operation_input env \<longrightarrow> schema_accepts env op ''input_schema'' args)) \<and>
     (\<forall>v. p = Finished (Inr v) \<longrightarrow> json_finite v \<and>
        (validates_output env \<longrightarrow> (\<exists>cap. capability_definition ir cid = Inr cap \<and> schema_accepts env cap ''output_schema'' v)))"
proof -
  have "(\<forall>(oid, op, args, r) \<in> set evs. call_accepted env ir oid op args) \<and> (\<forall>v. p = Finished (Inr v) \<longrightarrow> output_accepted env ir cid v)"
    using safe_exec_run [OF assms, of "call_accepted env ir" "\<lambda>_. True" "output_accepted env ir cid"] execute_safe
    by (auto simp: config_safe_def safe_Finished)
  moreover have "(\<forall>(oid, op, args, r) \<in> set evs. input_accepted env ir cid input) \<and> (\<forall>v. p = Finished (Inr v) \<longrightarrow> input_accepted env ir cid input)"
    using safe_exec_run [OF assms, of "\<lambda>_ _ _. input_accepted env ir cid input" "\<lambda>_. True" "\<lambda>_. input_accepted env ir cid input"]
      execute_input_checked [of env ir cid input] by (auto simp: config_safe_def safe_Finished)
  then have "evs \<noteq> [] \<or> (\<exists>v. p = Finished (Inr v)) \<longrightarrow> input_accepted env ir cid input" by (cases evs) auto
  ultimately show ?thesis
    by (fastforce simp: call_accepted_def call_checked_def output_accepted_def schema_accepts_iff)
qed

theorem runs_call_and_return_accepted_values_witness:
  "input_accepted demo_schemas demo_ir ''report'' demo_run_input \<and> json_finite demo_result"
proof -
  from demo_success obtain evs n os where
    "exec_run (execute demo_schemas demo_ir ''report'' demo_run_input, []) evs n (Finished (Inr demo_result), os)" by blast
  from runs_call_and_return_accepted_values [OF this] show ?thesis by simp
qed

text \<open>
  C18. When every call's reply is a function of the call, all schedules of a capability agree with
  running its parallel parts one after the other: a finished run returns a value exactly when the
  sequential evaluation returns it, and a run that returns leaves no task behind.
\<close>

theorem schedules_agree_with_sequential_evaluation:
  assumes "exec_run (execute env ir cid input, []) evs n (Finished r, os)"
    and "answered (\<lambda>oid op args r. r = f oid op args) evs"
  shows "(r = Inr v \<longleftrightarrow> evaluate_proc f (execute env ir cid input) = Inr v) \<and> (r = Inr v \<longrightarrow> os = [])"
  by (rule run_agrees [OF assms])

theorem schedules_agree_with_sequential_evaluation_witness:
  "\<exists>evs n. exec_run (execute demo_schemas demo_ir ''report'' demo_run_input, []) evs n (Finished (Inr demo_result), [])"
proof -
  from demo_success obtain evs n os where
    r: "exec_run (execute demo_schemas demo_ir ''report'' demo_run_input, []) evs n (Finished (Inr demo_result), os)"
    "answered (\<lambda>oid op args r. r = demo_reply oid op args) evs" by blast
  from schedules_agree_with_sequential_evaluation [OF r, of demo_result] r(1) show ?thesis by blast
qed

text \<open>
  C19. Every run of a compiled workflow can be continued, whatever the replies to its calls, to
  one that has finished, and no run has more moves than the workflow's text allows: one per call
  and one per parallel or foreach step, with the body of a foreach counted max_items times.
\<close>

theorem executions_finish:
  assumes "holds_workflow ir cid ss operations" "exec_run (execute env ir cid input, []) evs n (p, os)"
  shows "\<exists>evs' m r os'. exec_run (p, os) evs' m (Finished r, os') \<and>
     answered (\<lambda>oid op args r. r = f oid op args) evs' \<and> n + m \<le> workflow_weight 1 1 ss"
  by (rule run_extends [OF execute_weighs [OF assms(1)] assms(2)])

theorem executions_finish_witness:
  "\<exists>evs m r os. exec_run (execute demo_schemas demo_ir ''report'' (JObj []), []) evs m (Finished r, os) \<and>
     m \<le> workflow_weight 1 1 demo_steps"
  using executions_finish [OF demo_holds exec_run.stop, of demo_schemas "JObj []" demo_reply] by auto

text \<open>
  C20. No run of a compiled workflow makes more operation calls than its text allows: one per call
  step, the larger side of a branch, and max_items times the body of a foreach.
\<close>

theorem operation_calls_are_bounded:
  assumes "holds_workflow ir cid ss operations" "exec_run (execute env ir cid input, []) evs n c"
  shows "length evs \<le> workflow_weight 1 0 ss"
  using weighs_run [OF assms(2) config_weighs_alone [OF execute_weighs [OF assms(1), of 1 0]]]
  by (simp add: moves_cost_def)

theorem operation_calls_are_bounded_witness:
  "\<exists>evs n os. exec_run (execute demo_schemas demo_ir ''report'' demo_run_input, []) evs n (Finished (Inr demo_result), os) \<and>
     length evs \<le> 3"
proof -
  have "workflow_weight 1 0 demo_steps = 3" by (simp add: workflow_weight_def demo_steps_def)
  with demo_success operation_calls_are_bounded [OF demo_holds] show ?thesis by metis
qed

text \<open>
  C21. A run of a workflow that passed the compiler's check, over the operations it was checked
  against, never ends with an invalid reference, an unknown operation, a missing final emit, a
  missing capability or an unhashable operator; when it has no in condition and only finite
  literals it never ends with a malformed step either.
\<close>

theorem checked_workflows_do_not_go_wrong:
  assumes "holds_workflow ir cid ss operations" "workflow_checked tab ss" "ss \<noteq> []" "\<forall>s \<in> set ss. step_ok s"
    and "strict \<longrightarrow> (\<forall>s \<in> set ss. step_plain s)" "operations_fit tab operations"
    and "exec_run (execute env ir cid input, []) evs n (Finished (Inl e), os)"
  shows "checked_error strict e"
  using safe_exec_run [OF assms(7), of "\<lambda>_ _ _. True" "checked_error strict" "\<lambda>_. True"] execute_checked [OF assms(1-6)]
  by (auto simp: config_safe_def safe_Finished)

theorem checked_workflows_do_not_go_wrong_witness:
  "\<exists>evs n e os. exec_run (execute demo_schemas demo_ir ''report'' (JObj []), []) evs n (Finished (Inl e), os) \<and>
     checked_error True e"
proof -
  from demo_failure obtain evs n e os where
    r: "exec_run (execute demo_schemas demo_ir ''report'' (JObj []), []) evs n (Finished (Inl e), os)" by blast
  have "checked_error True e"
    by (rule checked_workflows_do_not_go_wrong [OF demo_holds demo_checked(1-3) _ demo_checked(5) r]) (simp add: demo_checked(4))
  with r show ?thesis by blast
qed

text \<open>
  C22. The executor's budgeted evaluation of an accepted branch condition equals the plain meaning
  of the condition: the depth and node limits are never hit, and the budget left is 64 less the
  condition's size.
\<close>

theorem accepted_conditions_have_their_meaning:
  assumes "branch_cond_ok k"
  shows "evaluate_condition ctx (branch_cond_json k) 1 64 =
     (case k of
        CondRef s \<Rightarrow> rbind (resolve_required_reference ctx (JStr s)) (\<lambda>v. Inr (truthy v, 64))
      | CondTree c \<Rightarrow> rbind (condition_value ctx c) (\<lambda>b. Inr (b, 64 - int (fst (condition_size c 1)))))"
  by (rule accepted_condition_value [OF assms])

theorem accepted_conditions_have_their_meaning_witness:
  "evaluate_condition \<lparr>ctx_input = JObj [], ctx_steps = [], ctx_item = None\<rparr>
     (branch_cond_json (CondTree (WNot (WEq (LitOperand (JInt 1)) (LitOperand (JInt 2)))))) 1 64 = Inr (True, 62)"
  by (subst accepted_conditions_have_their_meaning) (simp_all add: condition_fanout_ok.simps json_equal.simps)

text \<open>
  C23. The scopes of the operations that a successful run of a read capability called are a
  completion in the sense of the compiler's scope analysis: they include its always-required
  operation scopes, and if the capability is classified callable against a set of scopes, the run
  stayed within that set.
\<close>

theorem runs_stay_within_analysed_scopes:
  assumes "holds_workflow ir cid ss operations" "calls_known ops operations"
    and "analyze_capability c ps ops = Inr q" "cap_body c = ReadBody ss"
    and "exec_run (execute env ir cid input, []) evs n (Finished (Inr v), os)"
  shows "always_required q \<subseteq> scopes_of ops (called evs) \<union> set ps \<and>
     (dim_status (dimension_of q (Some av)) = Callable \<longrightarrow> scopes_of ops (called evs) \<union> set ps \<subseteq> av)"
proof -
  have "answered (\<lambda>_ _ _ _. True) evs" by (simp add: answered_def)
  from succeeds_run [OF assms(5) this] obtain T where
    "succeeds (\<lambda>_ _ _ _. True) (execute env ir cid input) T v" "T = called evs" by auto
  with execute_completes [OF assms(1,2)] have "completes_all ops ss (scopes_of ops (called evs))" by blast
  then have U: "scopes_of ops (called evs) \<union> set ps \<in> capability_completions ops c ps"
    using assms(4) by (auto simp: capability_completions_def joins_def)
  with describesD [OF analyze_capability_describes [OF assms(3)]] dimension_status_exact [OF assms(3), of av]
  show ?thesis by (auto split: if_splits)
qed

theorem runs_stay_within_analysed_scopes_witness:
  "\<exists>q evs n os. analyze_capability demo_workflow [''p''] demo_operations = Inr q \<and>
     exec_run (execute demo_schemas demo_ir ''report'' demo_run_input, []) evs n (Finished (Inr demo_result), os) \<and>
     always_required q \<subseteq> scopes_of demo_operations (called evs) \<union> {''p''}"
proof -
  obtain q where q: "analyze_capability demo_workflow [''p''] demo_operations = Inr q" using demo_workflow_analysis by blast
  from demo_success obtain evs n os where
    r: "exec_run (execute demo_schemas demo_ir ''report'' demo_run_input, []) evs n (Finished (Inr demo_result), os)" by blast
  have "cap_body demo_workflow = ReadBody demo_steps" by (simp add: demo_workflow_def)
  from runs_stay_within_analysed_scopes [OF demo_holds demo_checked(6) q this r] q r show ?thesis by auto
qed

section \<open>The Action Store and the approval authority\<close>

text \<open>
  C24. Every operation of the in-memory Store, on every branch, keeps its invariant: records and
  payloads have the same keys, each record passes its checks under its own digest, its digests are
  those of the stored payloads, every successful Action has a result and only a successful or an
  expired one has, and the configured capacity is respected.
\<close>

theorem store_invariant:
  assumes "store_ok cr st" "0 \<le> max_actions st"
  shows "store_ok cr (snd (create_action cr st clock h q)) \<and>
    store_ok cr (snd (resolve_action cr st clock h pid sid pack)) \<and>
    store_ok cr (snd (transition_action cr st clock h pid sid pack e t v)) \<and>
    store_ok cr (snd (close_store st))"
  using mem.create_step [of cr st clock h q _ "snd (create_action cr st clock h q)"]
    mem.resolve_step [of cr st clock h pid sid pack _ "snd (resolve_action cr st clock h pid sid pack)"]
    mem.transition_step [of cr st clock h pid sid pack e t v _ "snd (transition_action cr st clock h pid sid pack e t v)"]
    close_store_ok [OF assms] assms
  by (intro conjI) (metis memory_ops_def prod.collapse store_ops.simps(1-3))+

theorem store_invariant_witness:
  "store_ok demo_crypto (snd (create_action demo_crypto (w_store demo_world) (Some 700) (replicate 45 (CHR ''z'')) demo_request))"
  using store_invariant [OF demo_world_ok] by (simp add: demo_world_def put_entry_def demo_store_def)

text \<open>
  C25. On every sequence of Store calls, with any clock readings, the successful transitions of
  one Action strictly increase its rank, so no status is entered twice and approval can be turned
  into a commit at most once.
\<close>

theorem transitions_never_repeat:
  assumes "store_ok cr st"
  shows "sorted_wrt (<) [status_rank t. (h, t) \<leftarrow> transitions_of (memory_ops cr) st cs, sha256_hex cr h = d]"
  using mem.transitions_increase [OF assms] by blast

theorem transitions_never_repeat_witness:
  "sorted_wrt (<) [status_rank t. (h, t) \<leftarrow> transitions_of (memory_ops demo_crypto) (w_store demo_world)
       [TransitionCall (Some 1) demo_handle ''alice'' None demo_pack Approved Committing JNull,
        TransitionCall (Some 2) demo_handle ''alice'' None demo_pack Approved Committing JNull],
      sha256_hex demo_crypto h = demo_digest]"
  by (rule transitions_never_repeat [OF demo_world_ok])

text \<open>
  C26. A lookup that succeeds shows the caller an entry bound to that caller's principal, session
  and pack, before its expiry, whose digests are those of the values shown, and leaves the Store
  unchanged.
\<close>

theorem resolve_shows_bound_entry:
  assumes "store_ok cr st" "resolve_action cr st clock h pid sid pack = (Inr s, st')"
  shows "st' = st \<and> entry_at st (sha256_hex cr h) = Some s \<and> binding_matches cr st (state_record s) pid sid pack \<and>
     json_digest cr (input_value s) = Some (input_digest (state_record s)) \<and>
     json_digest cr (preview_value s) = Some (preview_digest (state_record s)) \<and>
     status_in s \<noteq> Expired \<and> (\<exists>now. clock = Some now \<and> now < expires_at (state_record s))"
  using assms by (rule resolve_action_shows)

theorem resolve_shows_bound_entry_witness:
  "binding_matches demo_crypto (w_store demo_world) (state_record demo_state) ''alice'' None demo_pack \<and>
   json_digest demo_crypto (input_value demo_state) = Some (input_digest (state_record demo_state))"
  using resolve_shows_bound_entry [OF demo_world_ok resolve_action_live [OF demo_live [of 2]]] by simp

text \<open>
  C27. Over any sequence of verifications no approval handle is granted twice, and every grant
  answers exactly the binding the handle was issued for.
\<close>

theorem approvals_are_one_time:
  "distinct (map fst (grants (memory_approval_ops cr) (sha256_hex cr) au cs)) \<and>
   set (grants (memory_approval_ops cr) (sha256_hex cr) au cs) \<subseteq> {(d, b). live_binding au d = Some b}"
  using authority.grants_once [of cr au cs] authority.grants_live [of _ _ cr au cs] by auto

text \<open>
  C28. What prepare seals is what commit and status unseal after the value has been through the
  Store's encoding.
\<close>

theorem sealed_preview_roundtrip:
  assumes "key \<noteq> []" "\<not> terminal \<longrightarrow> result = JNull"
  shows "unseal_preview (sort_keys (seal_preview preview token key terminal result)) =
     Inr (sort_keys preview, sort_keys token, key, terminal, sort_keys result)"
  using assms by (rule unseal_seal)

theorem sealed_preview_roundtrip_witness:
  "unseal_preview (sort_keys (seal_preview (JInt 1) JNull ''k'' True (JBool False))) = Inr (JInt 1, JNull, ''k'', True, JBool False)"
  using sealed_preview_roundtrip [of "''k''" True "JBool False" "JInt 1" JNull] by simp

section \<open>Disclosure and authorization\<close>

text \<open>
  C29. Whatever the disclosure filter returns at a field path, the policy admits that path: no
  denied path is a prefix of it and it is readable; every node returned is the filtered form of a
  node of the output at the same path; and where a redaction rule applies the node returned is
  exactly the mask, or exactly the hash text of that node's digest, and the rule is not one that
  removes.
\<close>

theorem disclosure_is_sound:
  assumes "filter_output cr p raw = Inr out" "occurs out q u" "q \<noteq> []"
  shows "may_disclose (disclosure_of p) q \<and>
     (\<exists>u0. occurs raw q u0 \<and> filter_node cr (disclosure_of p) q u0 = Inr (Some u) \<and>
        (\<forall>rule. dget (d_redactions (disclosure_of p)) q = Some rule \<longrightarrow> redacts_to cr (rule_strategy rule) u0 u))"
  using filter_output_occurs [OF assms] filter_node_may_disclose filter_node_redacted by metis

theorem disclosure_is_sound_witness:
  "may_disclose (disclosure_of demo_disclosure_policy) [''a'', ''b'']"
proof -
  have "filter_output demo_crypto demo_disclosure_policy (JObj [(''a'', JObj [(''b'', JInt 1), (''c'', JInt 2)]), (''d'', JInt 3)])
      = Inr (JObj [(''a'', JObj [(''b'', JInt 1)])])" by code_simp
  from disclosure_is_sound [OF this demo_occurs_out] show ?thesis by simp
qed

text \<open>
  C30. A scalar of the output (a value that is no object and no array) at an admitted path that no
  redaction rule touches on the way is disclosed unchanged.
\<close>

theorem disclosure_is_complete:
  assumes "filter_output cr p raw = Inr out" "occurs raw q u" "\<nexists>fs. u = JObj fs" "\<nexists>xs. u = JArr xs"
    and "may_disclose (disclosure_of p) q" "unredacted (disclosure_of p) q"
  shows "occurs out q u"
  using assms by (rule filter_output_complete)

theorem disclosure_is_complete_witness:
  "occurs (JObj [(''a'', JObj [(''b'', JInt 1)])]) [''a'', ''b''] (JInt 1)"
proof (rule disclosure_is_complete [where cr = demo_crypto and p = demo_disclosure_policy and
      raw = "JObj [(''a'', JObj [(''b'', JInt 1), (''c'', JInt 2)]), (''d'', JInt 3)]"])
  show "filter_output demo_crypto demo_disclosure_policy (JObj [(''a'', JObj [(''b'', JInt 1), (''c'', JInt 2)]), (''d'', JInt 3)])
      = Inr (JObj [(''a'', JObj [(''b'', JInt 1)])])" by code_simp
  show "occurs (JObj [(''a'', JObj [(''b'', JInt 1), (''c'', JInt 2)]), (''d'', JInt 3)]) [''a'', ''b''] (JInt 1)"
    by (rule demo_occurs_raw)
  show "may_disclose (disclosure_of demo_disclosure_policy) [''a'', ''b'']"
    "unredacted (disclosure_of demo_disclosure_policy) [''a'', ''b'']" by code_simp+
qed simp_all

text \<open>
  C31. Enforcement discloses something only if every required scope is granted and, when the
  policy requires a tenant, the tenant field of the arguments equals the caller's tenant.
\<close>

theorem enforcement_authorizes_first:
  assumes "enforce cr p held arguments tenant raw = Inr out"
  shows "set (required_scopes p) \<subseteq> held \<and>
     (tenant_mode p = TenantRequired \<longrightarrow>
        (\<exists>t v. tenant = Some t \<and> t \<noteq> JNull \<and>
           lookup_path arguments (parse_path (the (tenant_field p))) = Some v \<and> py_equal v t)) \<and>
     filter_output cr p raw = Inr out"
  using assms by (rule enforce_Inr)

theorem enforcement_authorizes_first_witness:
  "set (required_scopes demo_disclosure_policy) \<subseteq> {''orders:read''}"
proof -
  have "enforce demo_crypto demo_disclosure_policy {''orders:read''} (JObj []) None (JObj [(''a'', JInt 1)]) = Inr (JObj [(''a'', JInt 1)])"
    by code_simp
  from enforcement_authorizes_first [OF this] show ?thesis by (rule conjunct1)
qed

text \<open>
  C32. The deployment decision implements the ceiling: it allows exactly the capabilities whose
  effects, risk and identifier lie within the policy, and gives a reason exactly when it denies.
\<close>

theorem deployment_decides_ceiling:
  assumes "evaluate p cid effects risk = Inr d"
  shows "(decision_allowed d \<longleftrightarrow> within_ceiling p cid (the ` effect_of_name ` set effects) (the (risk_of_name risk))) \<and>
     (decision_allowed d \<longleftrightarrow> decision_reasons d = [])"
  using assms by (rule evaluate_ceiling)

theorem deployment_decides_ceiling_witness:
  "\<not> within_ceiling default_policy ''c'' (the ` effect_of_name ` set [''delete'']) (the (risk_of_name ''high''))"
proof -
  obtain d where d: "evaluate default_policy ''c'' [''delete''] ''high'' = Inr d" "\<not> decision_allowed d"
    using demo_denied by blast
  from deployment_decides_ceiling [OF d(1)] d(2) show ?thesis by blast
qed

section \<open>Scopes and principals\<close>

text \<open>
  C33. The scope analysis of a capability is exact: its always-required scopes are those every
  successful run needs, its feasible scopes those some run needs, each completion alternative is
  the scope set of a run, and every run's scopes contain an alternative.
\<close>

theorem scope_analysis_is_exact:
  assumes "analyze_capability c ps ops = Inr r"
  shows "always_required r = \<Inter>(capability_completions ops c ps) \<and>
     always_required r \<union> conditionally_required r = \<Union>(capability_completions ops c ps) \<and>
     set (completion_alternatives r) \<subseteq> capability_completions ops c ps \<and>
     (\<forall>U \<in> capability_completions ops c ps. \<exists>a \<in> set (completion_alternatives r). a \<subseteq> U)"
  using describesD [OF analyze_capability_describes [OF assms]] by auto

theorem scope_analysis_is_exact_witness:
  "{''a'', ''p''} = \<Inter>(capability_completions demo_operations demo_read [''p''])"
proof -
  obtain r where r: "analyze_capability demo_read [''p''] demo_operations = Inr r" "always_required r = {''a'', ''p''}"
    using demo_analysis by blast
  from scope_analysis_is_exact [OF r(1)] r(2) show ?thesis by simp
qed

text \<open>
  C34. Classified against a set of available scopes, an analysed capability is callable when every
  run fits in the set, conditional when only some run does, and denied when none does.
\<close>

theorem callability_is_exact:
  assumes "analyze_capability c ps ops = Inr r"
  shows "dim_status (dimension_of r (Some av)) =
      (if \<forall>U \<in> capability_completions ops c ps. U \<subseteq> av then Callable
       else if \<exists>U \<in> capability_completions ops c ps. U \<subseteq> av then Conditional else callability_status.Denied)"
  by (rule dimension_status_exact [OF assms])

theorem callability_is_exact_witness:
  "\<exists>U \<in> capability_completions demo_operations demo_read [''p'']. U \<subseteq> {''a'', ''p''}"
proof -
  obtain r where r: "analyze_capability demo_read [''p''] demo_operations = Inr r"
    "dim_status (dimension_of r (Some {''a'', ''p''})) = Conditional"
    using demo_analysis by blast
  from callability_is_exact [OF r(1), of "{''a'', ''p''}"] r(2) show ?thesis by (auto split: if_splits)
qed

text \<open>
  C35. In every constructed principal context the effective scopes lie within the deployment
  ceiling, come from the source scopes through the mapping when those are known, a gateway session
  has known source scopes, and the tenant context is finite JSON.
\<close>

theorem constructed_contexts_are_bounded:
  assumes "make_principal_context pid sid tid source ceil tenant handle mapping = Inr c"
  shows "context_ok mapping c"
  by (rule make_principal_context_ok [OF assms])

theorem constructed_contexts_are_bounded_witness:
  "\<exists>c. make_principal_context ''alice'' (Some ''s1'') ''shop'' (Some [''admin'']) [''read''] None ''h'' [(''admin'', [''read'', ''write''])]
       = Inr c \<and> context_ok [(''admin'', [''read'', ''write''])] c"
proof -
  obtain c where "make_principal_context ''alice'' (Some ''s1'') ''shop'' (Some [''admin'']) [''read''] None ''h''
      [(''admin'', [''read'', ''write''])] = Inr c" using demo_context_made by blast
  from this constructed_contexts_are_bounded [OF this] show ?thesis by blast
qed

text \<open>
  C36. A context binding yields the principal identifier, or a value under the tenant context at
  an allowlisted path none of whose segments names a secret.
\<close>

theorem bindings_stay_in_tenant_context:
  assumes "resolve_context_binding c r allowlist = Inr v"
  shows "r = ''principal_id'' \<and> v = JStr (principal_id c) \<or>
     (\<exists>path. tenant_path r = Some path \<and> list_all (\<lambda>s. \<not> segment_is_sensitive s) path \<and>
        r \<in> set allowlist \<and> walk_context (tenant_context c) path = Inr v)"
  by (rule resolve_context_binding_Inr [OF assms])

theorem bindings_stay_in_tenant_context_witness:
  "\<exists>path. tenant_path ''tenant_context.region'' = Some path \<and> list_all (\<lambda>s. \<not> segment_is_sensitive s) path"
proof -
  have "resolve_context_binding (demo_context\<lparr>tenant_context := Some (JObj [(''region'', JInt 3)])\<rparr>) ''tenant_context.region''
      [''tenant_context.region''] = Inr (JInt 3)" by code_simp
  from bindings_stay_in_tenant_context [OF this] show ?thesis by auto
qed

section \<open>The comparison of schemas\<close>

text \<open>
  C37. When the conservative comparison reports proven for two schema documents without references
  of the handled keywords (no allOf on the left; on the right allOf only alone and array or object
  keywords only beside a type; no booleans among the finite values), every finite value that the
  left schema accepts is accepted by the right one, for every JSON Schema library that follows the
  documented meaning of those keywords.
\<close>

theorem proven_schemas_are_contained:
  assumes "schema_validator valid" "comparable_left l" "comparable_right r"
    and "compare_subset valid l r = Some verdict" "relation verdict = RelProven"
    and "value_ok v" "valid l v"
  shows "valid r v"
  using schema_validator.subset_sound [OF assms(1-5)] assms(6,7) by (simp add: contained_def)

theorem proven_schemas_are_contained_witness:
  "reference_valid ticket_source ticket \<and> reference_valid ticket_declared ticket"
  using proven_schemas_are_contained [OF reference.schema_validator_axioms ticket_comparable(1,2) ticket_proven _ ticket_comparable(3) ticket_valid]
    ticket_valid by (simp add: proven_def)

text \<open>
  C38. The comparison returns a report for every two JSON documents, also when their references
  form cycles: the pairs it remembers bound the recursion by the product of the numbers of their
  nodes.
\<close>

theorem comparisons_return:
  assumes "json_ok l" "json_ok r"
  shows "\<exists>verdict. compare_subset valid l r = Some verdict"
  using assms by (rule compare_subset_total)

theorem comparisons_return_witness:
  "\<exists>verdict. compare_subset reference_valid (tree_schema (JStr ''left'')) (tree_schema (JStr ''right'')) = Some verdict"
  using comparisons_return [OF tree_ok] by blast

section \<open>Values\<close>

text \<open>
  C39. The executor's recursive comparison of two finite JSON values is equality of their
  canonical forms, in which an integer and an equal float agree, a Boolean and a number never do,
  and the order of keys does not matter.
\<close>

theorem json_equality_is_canonical:
  assumes "json_ok l" "json_ok r" "json_finite l"
  shows "json_equal l r \<longleftrightarrow> canon_of l = canon_of r"
  by (rule json_equal_canon [OF assms])

theorem json_equality_is_canonical_witness:
  "canon_of (JObj [(''a'', JInt 1), (''b'', JNull)]) = canon_of (JObj [(''b'', JNull), (''a'', JFloat (Finite 1))])"
  using json_equality_is_canonical [of "JObj [(''a'', JInt 1), (''b'', JNull)]" "JObj [(''b'', JNull), (''a'', JFloat (Finite 1))]"]
  by (simp add: dkeys_def insert_commute)

text \<open>
  C40. Encoding and decoding an Action value keeps its digest: the stored copy has the digest of
  the value given, whatever the order of its keys, and copying twice changes nothing more.
\<close>

theorem canonical_copies_keep_digests:
  assumes "canonical_copy v = Some c"
  shows "json_digest cr c = json_digest cr v \<and> json_digest cr v \<noteq> None \<and> canonical_copy c = Some c"
  using assms by (auto simp: canonical_copy_def json_digest_def json_text_sort_keys json_text_None_iff split: if_splits)

theorem canonical_copies_keep_digests_witness:
  "json_digest demo_crypto (JObj [(''a'', JNull), (''b'', JInt 1)]) = json_digest demo_crypto (JObj [(''b'', JInt 1), (''a'', JNull)])"
proof -
  have "canonical_copy (JObj [(''b'', JInt 1), (''a'', JNull)]) = Some (JObj [(''a'', JNull), (''b'', JInt 1)])" by code_simp
  from canonical_copies_keep_digests [OF this] show ?thesis by blast
qed

end
